(* ===== verification/Prelude.thy ===== *)
theory Prelude
  imports Complex_Main "HOL-Library.Product_Lexorder"
begin

text \<open>
  Shared vocabulary of the development.
  \<^item> \<open>error\<close>: the Python exceptions the modelled code can raise, and \<open>'a result\<close>
    (\<open>error + 'a\<close>, \<open>Inl\<close> the exception) with its bind \<open>rbind\<close>, and
    \<open>'a outcome\<close> (a result or no result at all) with its bind \<open>obind\<close>;
  \<^item> \<open>ext\<close>: the costs \<open>g\<close> and \<open>rhs\<close> of the planners, a real or \<open>np.inf\<close>,
    with the order, addition and minimum of Python floats on these values;
  \<^item> \<open>key\<close>: the two-component priority \<open>[min(g,rhs)+h, min(g,rhs)]\<close>, ordered
    lexicographically as Python compares lists;
  \<^item> list helpers (\<open>insert_at\<close> for \<open>list.insert(i, v)\<close>, \<open>min_by\<close> for
    \<open>min(xs, key=f)\<close>) and their lemmas, Python's truncating \<open>int\<close> on floats
    (\<open>py_int\<close>) and indexing with negative indices (\<open>py_index\<close>);
  \<^item> the named collection \<open>model_simps\<close> of evaluation rules used by the witnesses.
\<close>

named_theorems model_simps "evaluation rules of the model's operations"


section \<open>Python exceptions as values\<close>

datatype error =
    ZeroDivisionError
  | RecursionError
  | IndexError
  | ValueError
  | TypeError
  | AttributeError

type_synonym 'a result = "error + 'a"

definition rbind :: "'a result \<Rightarrow> ('a \<Rightarrow> 'b result) \<Rightarrow> 'b result" where
  "rbind m f = (case m of Inl e \<Rightarrow> Inl e | Inr a \<Rightarrow> f a)"

text \<open>
  A computation that may also fail to return (unbounded recursion, a loop run out of
  fuel): \<open>None\<close> is no result, \<open>Some (Inl e)\<close> an exception, \<open>Some (Inr a)\<close> a value.
\<close>

type_synonym 'a outcome = "'a result option"

definition obind :: "'a outcome \<Rightarrow> ('a \<Rightarrow> 'b outcome) \<Rightarrow> 'b outcome" where
  "obind m f = (case m of None \<Rightarrow> None | Some (Inl e) \<Rightarrow> Some (Inl e) | Some (Inr a) \<Rightarrow> f a)"

section \<open>Costs with \<open>np.inf\<close>\<close>

text \<open>
  \<open>g\<close> and \<open>rhs\<close> start at \<open>np.inf\<close> and are sums of finite edge costs. Python
  floats order \<open>inf\<close> above every finite value, and \<open>inf + c = inf\<close>.
\<close>

datatype ext = Fin real | Inf

instantiation ext :: linorder
begin

fun less_eq_ext :: "ext \<Rightarrow> ext \<Rightarrow> bool" where
  "less_eq_ext (Fin a) (Fin b) = (a \<le> b)"
| "less_eq_ext _ Inf = True"
| "less_eq_ext Inf (Fin _) = False"

fun less_ext :: "ext \<Rightarrow> ext \<Rightarrow> bool" where
  "less_ext (Fin a) (Fin b) = (a < b)"
| "less_ext (Fin _) Inf = True"
| "less_ext Inf _ = False"

instance
proof
  fix a b c :: ext
  show "(a < b) = (a \<le> b \<and> \<not> b \<le> a)"
    by (cases a; cases b) auto
  show "a \<le> a" by (cases a) auto
  show "a \<le> b \<Longrightarrow> b \<le> c \<Longrightarrow> a \<le> c"
    by (cases a; cases b; cases c) auto
  show "a \<le> b \<Longrightarrow> b \<le> a \<Longrightarrow> a = b"
    by (cases a; cases b) auto
  show "a \<le> b \<or> b \<le> a"
    by (cases a; cases b) auto
qed

end

instantiation ext :: "{plus, zero}"
begin

definition zero_ext :: ext where
  "zero_ext = Fin 0"

fun plus_ext :: "ext \<Rightarrow> ext \<Rightarrow> ext" where
  "plus_ext (Fin a) (Fin b) = Fin (a + b)"
| "plus_ext _ _ = Inf"

instance ..

end

section \<open>Priority keys\<close>

text \<open>
  A vertex's key is the Python list \<open>[min(g, rhs) + h, min(g, rhs)]\<close>. Python
  compares lists lexicographically; \<open>HOL-Library.Product_Lexorder\<close> orders pairs
  the same way.
\<close>

type_synonym key = "ext \<times> ext"

definition calc_key :: "ext \<Rightarrow> ext \<Rightarrow> real \<Rightarrow> key" where
  "calc_key g rhs h = (min g rhs + Fin h, min g rhs)"

section \<open>Lists\<close>

text \<open>Python's \<open>xs.insert(i, v)\<close> for \<open>0 \<le> i \<le> len(xs)\<close>.\<close>

definition insert_at :: "nat \<Rightarrow> 'a \<Rightarrow> 'a list \<Rightarrow> 'a list" where
  "insert_at i v xs = take i xs @ v # drop i xs"

text \<open>Python's \<open>int(x)\<close> on a float truncates towards zero.\<close>

definition py_int :: "real \<Rightarrow> int" where
  "py_int x = (if 0 \<le> x then \<lfloor>x\<rfloor> else \<lceil>x\<rceil>)"

text \<open>Indexing a Python list (or a numpy axis) of length \<open>n\<close>: a negative index counts from the end.\<close>

definition py_index :: "int \<Rightarrow> int \<Rightarrow> int result" where
  "py_index n i = (if 0 \<le> i \<and> i < n then Inr i else if - n \<le> i \<and> i < 0 then Inr (i + n) else Inl IndexError)"

text \<open>
  Python's \<open>min(xs, key=f)\<close> on a non-empty list \<open>m # xs\<close>: the first element of
  least key (a later element replaces the candidate only when strictly smaller).
\<close>

fun min_by :: "('a \<Rightarrow> 'b::linorder) \<Rightarrow> 'a \<Rightarrow> 'a list \<Rightarrow> 'a" where
  "min_by f m [] = m"
| "min_by f m (x # xs) = min_by f (if f x < f m then x else m) xs"

section \<open>Lemmas\<close>

lemma rbind_Inl [simp]: "rbind (Inl e) f = Inl e"
  by (simp add: rbind_def)

lemma rbind_Inr [simp]: "rbind (Inr a) f = f a"
  by (simp add: rbind_def)

lemma rbind_eq_Inr:
  "rbind m f = Inr b \<longleftrightarrow> (\<exists>a. m = Inr a \<and> f a = Inr b)"
  by (cases m) auto

lemma rbind_eq_Inl:
  "rbind m f = Inl e \<longleftrightarrow> m = Inl e \<or> (\<exists>a. m = Inr a \<and> f a = Inl e)"
  by (cases m) auto

lemma obind_simps [simp]:
  "obind None f = None" "obind (Some (Inl e)) f = Some (Inl e)" "obind (Some (Inr a)) f = f a"
  by (simp_all add: obind_def)

lemma obind_eq_Some_Inr:
  "obind m f = Some (Inr b) \<longleftrightarrow> (\<exists>a. m = Some (Inr a) \<and> f a = Some (Inr b))"
  by (auto simp: obind_def split: option.splits sum.splits)

lemma ext_le_Inf [simp]: "(e::ext) \<le> Inf"
  by (cases e) auto

lemma Inf_le_iff [simp]: "Inf \<le> e \<longleftrightarrow> e = Inf"
  by (cases e) auto

lemma ext_less_Inf_iff [simp]: "e < Inf \<longleftrightarrow> e \<noteq> Inf"
  by (cases e) auto

lemma plus_Inf_right [simp]: "(e::ext) + Inf = Inf"
  by (cases e) auto

lemma plus_ext_eq_Fin [simp]: "e + f = Fin r \<longleftrightarrow> (\<exists>a b. e = Fin a \<and> f = Fin b \<and> r = a + b)"
  by (cases e; cases f) auto

lemma zero_ext_Fin [simp]: "(0::ext) = Fin 0"
  by (simp add: zero_ext_def)

lemma min_Fin [simp]: "min (Fin a) (Fin b) = Fin (min a b)"
  by (auto simp: min_def)

lemma min_Inf_left [simp]: "min Inf e = e" and min_Inf_right [simp]: "min e Inf = e"
  by (auto simp: min_def)

lemma calc_key_Inf [simp]: "calc_key Inf Inf h = (Inf, Inf)"
  by (simp add: calc_key_def)

lemma set_insert_at [simp]: "set (insert_at i v xs) = insert v (set xs)"
  by (simp add: insert_at_def) (metis Un_insert_right append_take_drop_id set_append)

lemma length_insert_at [simp]: "length (insert_at i v xs) = Suc (length xs)"
  by (simp add: insert_at_def)

lemma sorted_insert_at:
  assumes "sorted xs" "\<forall>j < i. xs ! j \<le> v" "\<forall>j. i \<le> j \<and> j < length xs \<longrightarrow> v \<le> xs ! j"
    "i \<le> length xs"
  shows "sorted (insert_at i v xs)"
proof -
  have "\<forall>a \<in> set (take i xs). a \<le> v"
    using assms(2) by (auto simp: in_set_conv_nth)
  moreover have "\<forall>b \<in> set (drop i xs). v \<le> b"
    using assms(3,4) by (auto simp: in_set_conv_nth)
  moreover have "sorted (take i xs)" "sorted (drop i xs)"
    using assms(1) by auto
  moreover have "\<forall>a \<in> set (take i xs). \<forall>b \<in> set (drop i xs). a \<le> b"
    using assms(1) by (metis append_take_drop_id sorted_append)
  ultimately show ?thesis
    by (auto simp: insert_at_def sorted_append)
qed

lemma min_by_in: "min_by f m xs \<in> set (m # xs)"
proof (induction xs arbitrary: m)
  case Nil
  then show ?case by simp
next
  case (Cons a xs)
  then show ?case using Cons.IH [of "if f a < f m then a else m"] by (auto split: if_splits)
qed

end
