(* ===== verification/Geometry.thy ===== *)
theory Geometry
  imports Prelude
begin

text \<open>
  Axis-aligned boxes and moving obstacles (\<open>src/AABB.py\<close>, classes \<open>AABB\<close> and
  \<open>Obstacle\<close>). A box is its centre and its size; Python's attributes \<open>x\<close>, \<open>y\<close>
  are the record fields \<open>cx\<close>, \<open>cy\<close> (so that \<open>x\<close> and \<open>y\<close> stay free for
  variables). Floats are modelled as reals. Division by a zero area raises
  \<open>ZeroDivisionError\<close> in Python and is the error value here.
  The lemmas give the bounds of the intersection area and percentage, the quadrant
  classification, and the kinematics of \<open>Obstacle.move\<close>: the position stays in the
  reflection range, and the velocity after a bounce in both axes in the same tick.
\<close>

section \<open>Boxes\<close>

record aabb =
  cx :: real
  cy :: real
  width :: real
  height :: real

definition return_coordinate :: "'a aabb_scheme \<Rightarrow> real \<times> real \<times> real \<times> real" where
  "return_coordinate b =
     (cx b - width b / 2, cx b + width b / 2, cy b - height b / 2, cy b + height b / 2)"

definition get_corners :: "'a aabb_scheme \<Rightarrow> (real \<times> real) list" where
  "get_corners b =
     [(cx b - width b / 2, cy b - height b / 2), (cx b + width b / 2, cy b - height b / 2),
      (cx b - width b / 2, cy b + height b / 2), (cx b + width b / 2, cy b + height b / 2)]"

definition get_area :: "'a aabb_scheme \<Rightarrow> real" where
  "get_area b = width b * height b"

definition get_intersect_area :: "'a aabb_scheme \<Rightarrow> 'b aabb_scheme \<Rightarrow> real" where
  "get_intersect_area a b =
     (let (x1, x2, y1, y2) = return_coordinate a;
          (x_1, x_2, y_1, y_2) = return_coordinate b;
          top_left_x = max x1 x_1;
          top_left_y = max y1 y_1;
          bottom_right_x = min x2 x_2;
          bottom_right_y = min y2 y_2
      in max 0 (bottom_right_x - top_left_x) * max 0 (bottom_right_y - top_left_y))"

definition get_intersect_percentage :: "'a aabb_scheme \<Rightarrow> 'b aabb_scheme \<Rightarrow> real result" where
  "get_intersect_percentage a b =
     (if get_area a = 0 then Inl ZeroDivisionError
      else Inr (get_intersect_area a b / get_area a))"

text \<open>
  \<open>get_quadrant\<close> returns the child attribute \<open>self.NW\<close>, \<dots>; here it returns the
  quadrant's name, and the caller (the quadtree) takes the child.
\<close>

datatype quadrant = NW | NE | SW | SE

definition get_quadrant :: "'a aabb_scheme \<Rightarrow> real \<times> real \<Rightarrow> quadrant" where
  "get_quadrant b p =
     (let (point_x, point_y) = p in
      if point_x \<le> cx b then (if point_y \<le> cy b then NW else SW)
      else (if point_y \<le> cy b then NE else SE))"

definition in_box :: "'a aabb_scheme \<Rightarrow> real \<times> real \<Rightarrow> bool" where
  "in_box b p \<longleftrightarrow> \<bar>fst p - cx b\<bar> \<le> width b / 2 \<and> \<bar>snd p - cy b\<bar> \<le> height b / 2"

section \<open>Obstacles\<close>

text \<open>
  \<open>Obstacle(x, y, width, height, static, v, x_bound, y_bound)\<close>: the velocity \<open>v\<close>
  is the field \<open>velocity\<close>; a static obstacle gets velocity \<open>(0, 0)\<close>; the
  reflection range on each axis is the start position minus/plus the given margins.
  The attribute \<open>counter\<close> is only read in commented-out code and is omitted.
\<close>

record obstacle = aabb +
  static :: bool
  velocity :: "real \<times> real"
  x_bound :: "real \<times> real"
  y_bound :: "real \<times> real"
  history :: "(real \<times> real) list"

definition make_obstacle ::
  "real \<Rightarrow> real \<Rightarrow> real \<Rightarrow> real \<Rightarrow> bool \<Rightarrow> real \<times> real \<Rightarrow> real \<times> real \<Rightarrow> real \<times> real \<Rightarrow> obstacle" where
  "make_obstacle x y w h st vel xb yb =
     \<lparr>cx = x, cy = y, width = w, height = h, static = st,
      velocity = (if st then (0, 0) else vel),
      x_bound = (x - fst xb, x + snd xb), y_bound = (y - fst yb, y + snd yb),
      history = []\<rparr>"

text \<open>
  \<open>Obstacle.move\<close>: the y-axis branch builds the new velocity from the local
  \<open>v_x, v_y\<close> read at the start, so it overwrites a reflection made on the x axis in
  the same tick. The position is appended to the history in every case.
\<close>

definition move :: "obstacle \<Rightarrow> obstacle" where
  "move ob =
     (let ob' =
        (if \<not> static ob then
           (let (v_x, v_y) = velocity ob;
                x1 = cx ob + v_x;
                (x2, vel1) =
                  (if x1 < fst (x_bound ob) then (fst (x_bound ob), (- v_x, v_y))
                   else if x1 > snd (x_bound ob) then (snd (x_bound ob), (- v_x, v_y))
                   else (x1, velocity ob));
                y1 = cy ob + v_y;
                (y2, vel2) =
                  (if y1 < fst (y_bound ob) then (fst (y_bound ob), (v_x, - v_y))
                   else if y1 > snd (y_bound ob) then (snd (y_bound ob), (v_x, - v_y))
                   else (y1, vel1))
            in ob\<lparr>cx := x2, cy := y2, velocity := vel2\<rparr>)
         else ob)
      in ob'\<lparr>history := history ob' @ [(cx ob', cy ob')]\<rparr>)"

definition obstacle_in_range :: "obstacle \<Rightarrow> bool" where
  "obstacle_in_range ob \<longleftrightarrow>
     fst (x_bound ob) \<le> cx ob \<and> cx ob \<le> snd (x_bound ob) \<and>
     fst (y_bound ob) \<le> cy ob \<and> cy ob \<le> snd (y_bound ob)"

section \<open>Intersection area and percentage\<close>

lemma max0_overlap_le:
  assumes "(l1::real) \<le> r1"
  shows "max 0 (min r1 r2 - max l1 l2) \<le> r1 - l1"
  using assms by (auto simp: max_def min_def)

lemma get_intersect_area_nonneg: "0 \<le> get_intersect_area a b"
  by (simp add: get_intersect_area_def return_coordinate_def Let_def)

lemma get_intersect_area_le_area:
  assumes "0 \<le> width a" "0 \<le> height a"
  shows "get_intersect_area a b \<le> get_area a"
proof -
  let ?dx = "max 0 (min (cx a + width a / 2) (cx b + width b / 2) - max (cx a - width a / 2) (cx b - width b / 2))"
  let ?dy = "max 0 (min (cy a + height a / 2) (cy b + height b / 2) - max (cy a - height a / 2) (cy b - height b / 2))"
  have dx: "?dx \<le> width a" using max0_overlap_le [of "cx a - width a / 2" "cx a + width a / 2"] assms(1)
    by simp
  have dy: "?dy \<le> height a" using max0_overlap_le [of "cy a - height a / 2" "cy a + height a / 2"] assms(2)
    by simp
  have "?dx * ?dy \<le> width a * height a"
    using dx dy by (intro mult_mono) auto
  then show ?thesis
    by (simp add: get_intersect_area_def return_coordinate_def get_area_def)
qed

lemma get_intersect_area_sym: "get_intersect_area a b = get_intersect_area b a"
  by (simp add: get_intersect_area_def return_coordinate_def Let_def max.commute min.commute)

lemma get_intersect_percentage_ok:
  assumes "0 < width a" "0 < height a"
  shows "get_intersect_percentage a b = Inr (get_intersect_area a b / get_area a)"
  using assms by (simp add: get_intersect_percentage_def get_area_def)

text \<open>
  C6 (bounds). For a box of positive size, \<open>get_intersect_percentage\<close> does not raise
  and returns a fraction between 0 and 1: the share of the box covered by the other box.
\<close>

theorem get_intersect_percentage_bounds:
  assumes "0 < width a" "0 < height a"
  shows "\<exists>p. get_intersect_percentage a b = Inr p \<and> 0 \<le> p \<and> p \<le> 1"
proof -
  have "0 < get_area a" using assms by (simp add: get_area_def)
  moreover have "0 \<le> get_intersect_area a b" by (rule get_intersect_area_nonneg)
  moreover have "get_intersect_area a b \<le> get_area a"
    using assms by (intro get_intersect_area_le_area) auto
  ultimately show ?thesis
    using assms by (simp add: get_intersect_percentage_ok)
qed

theorem get_intersect_percentage_bounds_witness:
  "get_intersect_percentage \<lparr>cx = 0, cy = 0, width = 4, height = 4\<rparr> \<lparr>cx = 2, cy = 2, width = 4, height = 4\<rparr> = Inr (1/4)"
proof -
  have "\<exists>p. get_intersect_percentage \<lparr>cx = 0, cy = 0, width = 4, height = 4\<rparr>
      \<lparr>cx = 2, cy = 2, width = 4, height = 4\<rparr> = Inr p \<and> 0 \<le> p \<and> p \<le> 1"
    by (rule get_intersect_percentage_bounds) simp_all
  then show ?thesis
    by (simp add: get_intersect_percentage_def get_intersect_area_def return_coordinate_def get_area_def)
qed

text \<open>
  C7 (invariant). \<open>Obstacle.move\<close> keeps a moving obstacle inside its reflection
  range (and a static one where it is), whatever its velocity: a step past a bound is
  clamped to the bound.
\<close>

theorem move_in_range:
  assumes "fst (x_bound ob) \<le> snd (x_bound ob)" "fst (y_bound ob) \<le> snd (y_bound ob)"
    and "\<not> static ob \<or> obstacle_in_range ob"
  shows "obstacle_in_range (move ob)"
  using assms by (auto simp: move_def obstacle_in_range_def Let_def split: prod.splits if_splits)

theorem move_in_range_witness:
  "obstacle_in_range (move (make_obstacle 0 0 2 2 False (30, -30) (20, 20) (20, 20)))"
  using move_in_range [of "make_obstacle 0 0 2 2 False (30, -30) (20, 20) (20, 20)"]
  by (simp add: make_obstacle_def)

text \<open>
  C8 (functional). When a moving obstacle leaves its range on both axes in the same tick,
  past either bound of each, \<open>move\<close> clamps both coordinates to the bound crossed but the
  new velocity negates only the y component: the y branch rebuilds the velocity from the
  values read before the x reflection, so the x reflection is lost.
\<close>

theorem move_corner_velocity:
  assumes "\<not> static ob" "fst (x_bound ob) \<le> snd (x_bound ob)" "fst (y_bound ob) \<le> snd (y_bound ob)"
    "cx ob + fst (velocity ob) < fst (x_bound ob) \<or> snd (x_bound ob) < cx ob + fst (velocity ob)"
    "cy ob + snd (velocity ob) < fst (y_bound ob) \<or> snd (y_bound ob) < cy ob + snd (velocity ob)"
  shows "velocity (move ob) = (fst (velocity ob), - snd (velocity ob)) \<and>
    cx (move ob) = max (fst (x_bound ob)) (min (cx ob + fst (velocity ob)) (snd (x_bound ob))) \<and>
    cy (move ob) = max (fst (y_bound ob)) (min (cy ob + snd (velocity ob)) (snd (y_bound ob)))"
  using assms by (auto simp: move_def Let_def split: prod.splits)

theorem move_corner_velocity_witness:
  "velocity (move (make_obstacle 0 0 2 2 False (-30, 30) (20, 20) (20, 20))) = (-30, -30) \<and>
   cx (move (make_obstacle 0 0 2 2 False (-30, 30) (20, 20) (20, 20))) = -20 \<and>
   cy (move (make_obstacle 0 0 2 2 False (-30, 30) (20, 20) (20, 20))) = 20"
  using move_corner_velocity [of "make_obstacle 0 0 2 2 False (-30, 30) (20, 20) (20, 20)"]
  by (simp add: make_obstacle_def)

end
