(* ===== verification/QuadTree.thy ===== *)
theory QuadTree
  imports Geometry
begin

text \<open>
  The adaptive decomposition of \<open>src/AABB.py\<close>, class \<open>Node\<close>: a node is a box with
  the accumulated obstacle \<open>percentage\<close> and the occupancy \<open>value\<close> (0 free,
  1 blocked, -1 mixed). Python links a node to its four optional children
  \<open>NW, NE, SW, SE\<close>, which \<open>split\<close> sets all together and \<open>reset_children\<close> clears
  all together; so a tree is a leaf or a node with exactly four subtrees, in that
  order. The parent pointer and the region tag are the node's position in the tree;
  they are used by the neighbour search (theory \<open>Neighbors\<close>), which addresses nodes by
  their path. The search fields of a node (\<open>g\<close>, \<open>rhs\<close>, \<open>h\<close>, \<open>key\<close>,
  \<open>neighbors\<close>) belong to the planner's state (theory \<open>Solver\<close>).

  \<open>update_percentage_and_split\<close> recurses into the children it creates, so its
  recursion is not structural. Python stops a too-deep recursion with
  \<open>RecursionError\<close>; the model carries the remaining depth \<open>d\<close> and returns that
  error when it is exhausted. Lemma \<open>update_percentage_and_split_terminates\<close> says how
  much depth suffices (for the 512-pixel map and minimum size 16 of \<open>QuadTree.py\<close>,
  6 levels).
\<close>

section \<open>Nodes and trees\<close>

record qnode = aabb +
  percentage :: real
  "value" :: int

datatype qtree = QLeaf qnode | QNode qnode qtree qtree qtree qtree

text \<open>\<open>Node(x, y, width, height)\<close>: a fresh node has percentage 0 and value -1.\<close>

definition new_node :: "real \<Rightarrow> real \<Rightarrow> real \<Rightarrow> real \<Rightarrow> qnode" where
  "new_node x y w h = \<lparr>cx = x, cy = y, width = w, height = h, percentage = 0, value = -1\<rparr>"

fun node_of :: "qtree \<Rightarrow> qnode" where
  "node_of (QLeaf n) = n"
| "node_of (QNode n _ _ _ _) = n"

fun map_node :: "(qnode \<Rightarrow> qnode) \<Rightarrow> qtree \<Rightarrow> qtree" where
  "map_node f (QLeaf n) = QLeaf (f n)"
| "map_node f (QNode n a b c d) = QNode (f n) a b c d"

fun get_children :: "qtree \<Rightarrow> qtree list option" where
  "get_children (QLeaf _) = None"
| "get_children (QNode _ a b c d) = Some [a, b, c, d]"

fun child :: "quadrant \<Rightarrow> qtree \<Rightarrow> qtree option" where
  "child _ (QLeaf _) = None"
| "child NW (QNode _ a _ _ _) = Some a"
| "child NE (QNode _ _ b _ _) = Some b"
| "child SW (QNode _ _ _ c _) = Some c"
| "child SE (QNode _ _ _ _ d) = Some d"

definition split :: "qnode \<Rightarrow> qtree" where
  "split n =
     QNode n
       (QLeaf (new_node (cx n - width n / 4) (cy n - height n / 4) (width n / 2) (height n / 2)))
       (QLeaf (new_node (cx n + width n / 4) (cy n - height n / 4) (width n / 2) (height n / 2)))
       (QLeaf (new_node (cx n - width n / 4) (cy n + height n / 4) (width n / 2) (height n / 2)))
       (QLeaf (new_node (cx n + width n / 4) (cy n + height n / 4) (width n / 2) (height n / 2)))"

definition reset_children :: "qtree \<Rightarrow> qtree" where
  "reset_children t = QLeaf (node_of t)"

definition set_value :: "real \<Rightarrow> real \<Rightarrow> qtree \<Rightarrow> qtree" where
  "set_value threshold_percentage threshold_size t =
     (let n = node_of t in
      if width n > threshold_size \<and> height n > threshold_size then
        (if percentage n \<le> threshold_percentage then map_node (\<lambda>m. m\<lparr>value := 0\<rparr>) t
         else if percentage n \<ge> 1 - threshold_percentage then
           reset_children (map_node (\<lambda>m. m\<lparr>value := 1\<rparr>) t)
         else map_node (\<lambda>m. m\<lparr>value := -1\<rparr>) t)
      else if percentage n \<le> threshold_percentage then map_node (\<lambda>m. m\<lparr>value := 0\<rparr>) t
      else map_node (\<lambda>m. m\<lparr>value := 1\<rparr>) t)"

text \<open>The loop \<open>for obstacle in obstacles: self.percentage += \<dots>\<close>.\<close>

fun add_percentages :: "qnode \<Rightarrow> obstacle list \<Rightarrow> qnode result" where
  "add_percentages n [] = Inr n"
| "add_percentages n (ob # obs) =
     rbind (get_intersect_percentage n ob)
       (\<lambda>p. add_percentages (n\<lparr>percentage := percentage n + p\<rparr>) obs)"

fun update_percentage_and_split ::
  "nat \<Rightarrow> real \<Rightarrow> real \<Rightarrow> obstacle list \<Rightarrow> qtree \<Rightarrow> qtree result" where
  "update_percentage_and_split 0 tp ts obs t = Inl RecursionError"
| "update_percentage_and_split (Suc d) tp ts obs t =
     rbind (add_percentages (node_of t) obs) (\<lambda>n.
       let t1 = set_value tp ts (map_node (\<lambda>_. n) t) in
       if value (node_of t1) = -1 then
         (case (case t1 of QLeaf m \<Rightarrow> split m | _ \<Rightarrow> t1) of
            QNode m a b c e \<Rightarrow>
              rbind (update_percentage_and_split d tp ts obs a) (\<lambda>a'.
              rbind (update_percentage_and_split d tp ts obs b) (\<lambda>b'.
              rbind (update_percentage_and_split d tp ts obs c) (\<lambda>c'.
              rbind (update_percentage_and_split d tp ts obs e) (\<lambda>e'.
                Inr (QNode m a' b' c' e')))))
          | QLeaf m \<Rightarrow> Inr (QLeaf m))
       else Inr t1)"

fun get_leaves :: "qtree \<Rightarrow> qnode list" where
  "get_leaves (QLeaf n) = [n]"
| "get_leaves (QNode _ a b c d) = get_leaves a @ get_leaves b @ get_leaves c @ get_leaves d"

section \<open>Invariants\<close>

text \<open>
  The box of a node, and the box of its child in quadrant \<open>q\<close>: half the size, centre
  moved by a quarter of the size towards the quadrant.
\<close>

definition box_of :: "'a aabb_scheme \<Rightarrow> aabb" where
  "box_of n = \<lparr>cx = cx n, cy = cy n, width = width n, height = height n\<rparr>"

fun qdx :: "quadrant \<Rightarrow> real" where
  "qdx NW = -1" | "qdx NE = 1" | "qdx SW = -1" | "qdx SE = 1"

fun qdy :: "quadrant \<Rightarrow> real" where
  "qdy NW = -1" | "qdy NE = -1" | "qdy SW = 1" | "qdy SE = 1"

definition child_box :: "quadrant \<Rightarrow> 'a aabb_scheme \<Rightarrow> aabb" where
  "child_box q b =
     \<lparr>cx = cx b + qdx q * width b / 4, cy = cy b + qdy q * height b / 4,
      width = width b / 2, height = height b / 2\<rparr>"

text \<open>Geometric well-formedness: positive sizes, and children are the four quadrants.\<close>

fun qt_wf :: "qtree \<Rightarrow> bool" where
  "qt_wf (QLeaf n) \<longleftrightarrow> 0 < width n \<and> 0 < height n"
| "qt_wf (QNode n a b c d) \<longleftrightarrow> 0 < width n \<and> 0 < height n \<and>
     box_of (node_of a) = child_box NW n \<and> box_of (node_of b) = child_box NE n \<and>
     box_of (node_of c) = child_box SW n \<and> box_of (node_of d) = child_box SE n \<and>
     qt_wf a \<and> qt_wf b \<and> qt_wf c \<and> qt_wf d"

text \<open>
  Occupancy: an internal node is mixed (value -1), larger than the minimum size and
  above the low threshold; every leaf is free or blocked.
\<close>

fun qt_inv :: "real \<Rightarrow> real \<Rightarrow> qtree \<Rightarrow> bool" where
  "qt_inv tp ts (QLeaf n) \<longleftrightarrow> True"
| "qt_inv tp ts (QNode n a b c d) \<longleftrightarrow>
     value n = -1 \<and> tp < percentage n \<and> ts < width n \<and> ts < height n \<and>
     qt_inv tp ts a \<and> qt_inv tp ts b \<and> qt_inv tp ts c \<and> qt_inv tp ts d"

definition leaves_classified :: "qtree \<Rightarrow> bool" where
  "leaves_classified t \<longleftrightarrow> (\<forall>n \<in> set (get_leaves t). value n = 0 \<or> value n = 1)"

section \<open>Lemmas on the node operations\<close>

lemma add_percentages_shape:
  "add_percentages n obs = Inr m \<Longrightarrow> m = n\<lparr>percentage := percentage m\<rparr>"
proof (induction n obs rule: add_percentages.induct)
  case (1 n)
  then show ?case by simp
next
  case (2 n ob obs)
  then show ?case by (auto simp: rbind_eq_Inr)
qed

lemma add_percentages_mono:
  assumes "0 < width n" "0 < height n"
  shows "\<exists>m. add_percentages n obs = Inr m \<and> percentage n \<le> percentage m"
  using assms
proof (induction n obs rule: add_percentages.induct)
  case (1 n)
  then show ?case by simp
next
  case (2 n ob obs)
  let ?p = "get_intersect_area n ob / get_area n"
  have p: "get_intersect_percentage n ob = Inr ?p" and "0 \<le> ?p"
    using "2.prems" by (simp_all add: get_intersect_percentage_ok get_intersect_area_nonneg get_area_def)
  moreover obtain m where "add_percentages (n\<lparr>percentage := percentage n + ?p\<rparr>) obs = Inr m"
    and "percentage n + ?p \<le> percentage m"
    using "2.IH" [of ?p] "2.prems" by auto
  ultimately show ?case by auto
qed

lemma box_of_update [simp]:
  "box_of (n\<lparr>percentage := p\<rparr>) = box_of n" "box_of (n\<lparr>value := v\<rparr>) = box_of n"
  by (simp_all add: box_of_def)

lemma child_box_update [simp]:
  "child_box q (n\<lparr>percentage := p\<rparr>) = child_box q n" "child_box q (n\<lparr>value := v\<rparr>) = child_box q n"
  by (simp_all add: child_box_def)

lemma child_box_cong: "box_of m = box_of n \<Longrightarrow> child_box q m = child_box q n"
  by (simp add: child_box_def box_of_def)

lemma node_of_map_node [simp]: "node_of (map_node f t) = f (node_of t)"
  by (cases t) auto

lemma qt_wf_map_node [simp]:
  "box_of (f (node_of t)) = box_of (node_of t) \<Longrightarrow> qt_wf (map_node f t) = qt_wf t"
  by (cases t) (auto simp: box_of_def child_box_def)

lemma node_of_set_value:
  "\<exists>v. node_of (set_value tp ts t) = (node_of t)\<lparr>value := v\<rparr>"
  by (auto simp: set_value_def Let_def reset_children_def)

lemma box_of_set_value [simp]: "box_of (node_of (set_value tp ts t)) = box_of (node_of t)"
  using node_of_set_value [of tp ts t] by auto

lemma qt_wf_set_value: "qt_wf t \<Longrightarrow> qt_wf (set_value tp ts t)"
  by (cases t) (auto simp: set_value_def Let_def reset_children_def box_of_def)

lemma qt_wf_split:
  assumes "0 < width n" "0 < height n"
  shows "qt_wf (split n)"
  using assms by (simp add: split_def new_node_def box_of_def child_box_def)

lemma set_value_mixed:
  assumes "value (node_of (set_value tp ts t)) = -1"
  shows "set_value tp ts t = map_node (\<lambda>m. m\<lparr>value := -1\<rparr>) t \<and>
    ts < width (node_of t) \<and> ts < height (node_of t) \<and> tp < percentage (node_of t)"
  using assms by (auto simp: set_value_def Let_def reset_children_def split: if_splits)

lemma set_value_decided:
  assumes "qt_inv tp ts t" "value (node_of (set_value tp ts t)) \<noteq> -1"
  shows "\<exists>m. set_value tp ts t = QLeaf m \<and> (value m = 0 \<or> value m = 1)"
  using assms by (cases t) (auto simp: set_value_def Let_def reset_children_def split: if_splits)

lemma leaves_classified_QNode [simp]:
  "leaves_classified (QNode n a b c d) \<longleftrightarrow>
     leaves_classified a \<and> leaves_classified b \<and> leaves_classified c \<and> leaves_classified d"
  by (auto simp: leaves_classified_def)

lemma leaves_classified_QLeaf [simp]:
  "leaves_classified (QLeaf n) \<longleftrightarrow> value n = 0 \<or> value n = 1"
  by (simp add: leaves_classified_def)

lemma update_step_node:
  assumes "add_percentages (node_of t) obs = Inr n" "qt_wf t"
  shows "n = (node_of t)\<lparr>percentage := percentage n\<rparr> \<and> percentage (node_of t) \<le> percentage n"
proof -
  have "0 < width (node_of t)" "0 < height (node_of t)"
    using assms(2) by (cases t; simp)+
  then obtain m where "add_percentages (node_of t) obs = Inr m" "percentage (node_of t) \<le> percentage m"
    using add_percentages_mono by blast
  with assms(1) add_percentages_shape [OF assms(1)] show ?thesis by simp
qed

text \<open>The four recursive calls of one level, as one fact.\<close>

lemma rbind4_Inr:
  "rbind A (\<lambda>a'. rbind B (\<lambda>b'. rbind C (\<lambda>c'. rbind D (\<lambda>e'. Inr (f a' b' c' e'))))) = Inr r \<longleftrightarrow>
   (\<exists>a' b' c' e'. A = Inr a' \<and> B = Inr b' \<and> C = Inr c' \<and> D = Inr e' \<and> r = f a' b' c' e')"
  by (auto simp: rbind_eq_Inr)

lemma update_percentage_and_split_box:
  "update_percentage_and_split d tp ts obs t = Inr t' \<Longrightarrow> box_of (node_of t') = box_of (node_of t)"
proof (induction d arbitrary: t t')
  case 0
  then show ?case by simp
next
  case (Suc d)
  from Suc.prems obtain n where n: "add_percentages (node_of t) obs = Inr n"
    and rest: "(let t1 = set_value tp ts (map_node (\<lambda>_. n) t) in
       if value (node_of t1) = -1 then
         (case (case t1 of QLeaf m \<Rightarrow> split m | _ \<Rightarrow> t1) of
            QNode m a b c e \<Rightarrow>
              rbind (update_percentage_and_split d tp ts obs a) (\<lambda>a'.
              rbind (update_percentage_and_split d tp ts obs b) (\<lambda>b'.
              rbind (update_percentage_and_split d tp ts obs c) (\<lambda>c'.
              rbind (update_percentage_and_split d tp ts obs e) (\<lambda>e'.
                Inr (QNode m a' b' c' e')))))
          | QLeaf m \<Rightarrow> Inr (QLeaf m))
       else Inr t1) = Inr t'"
    by (auto simp: rbind_eq_Inr)
  have bn: "box_of n = box_of (node_of t)"
    using add_percentages_shape [OF n] by (metis box_of_update(1))
  define t1 where "t1 = set_value tp ts (map_node (\<lambda>_. n) t)"
  have b1: "box_of (node_of t1) = box_of (node_of t)"
    using bn by (simp add: t1_def)
  show ?case
  proof (cases t1)
    case (QLeaf m)
    then show ?thesis
      using rest b1 by (auto simp: Let_def rbind4_Inr split_def simp flip: t1_def split: if_splits)
  next
    case (QNode m a b c e)
    then show ?thesis
      using rest b1 by (auto simp: Let_def rbind4_Inr simp flip: t1_def split: if_splits)
  qed
qed

lemma update_step_unfold:
  assumes "update_percentage_and_split (Suc d) tp ts obs t = Inr t'"
  obtains n where "add_percentages (node_of t) obs = Inr n"
    "(let t1 = set_value tp ts (map_node (\<lambda>_. n) t) in
       if value (node_of t1) = -1 then
         (case (case t1 of QLeaf m \<Rightarrow> split m | _ \<Rightarrow> t1) of
            QNode m a b c e \<Rightarrow>
              rbind (update_percentage_and_split d tp ts obs a) (\<lambda>a'.
              rbind (update_percentage_and_split d tp ts obs b) (\<lambda>b'.
              rbind (update_percentage_and_split d tp ts obs c) (\<lambda>c'.
              rbind (update_percentage_and_split d tp ts obs e) (\<lambda>e'.
                Inr (QNode m a' b' c' e')))))
          | QLeaf m \<Rightarrow> Inr (QLeaf m))
       else Inr t1) = Inr t'"
  using assms by (auto simp: rbind_eq_Inr)

lemma update_preserves_qt_inv:
  assumes "update_percentage_and_split d tp ts obs t = Inr t'" "qt_wf t" "qt_inv tp ts t"
  shows "qt_wf t' \<and> qt_inv tp ts t' \<and> leaves_classified t'"
  using assms
proof (induction d arbitrary: t t')
  case 0
  then show ?case by simp
next
  case (Suc d)
  obtain n where n: "add_percentages (node_of t) obs = Inr n" and rest: "(let t1 = set_value tp ts (map_node (\<lambda>_. n) t) in
       if value (node_of t1) = -1 then
         (case (case t1 of QLeaf m \<Rightarrow> split m | _ \<Rightarrow> t1) of
            QNode m a b c e \<Rightarrow>
              rbind (update_percentage_and_split d tp ts obs a) (\<lambda>a'.
              rbind (update_percentage_and_split d tp ts obs b) (\<lambda>b'.
              rbind (update_percentage_and_split d tp ts obs c) (\<lambda>c'.
              rbind (update_percentage_and_split d tp ts obs e) (\<lambda>e'.
                Inr (QNode m a' b' c' e')))))
          | QLeaf m \<Rightarrow> Inr (QLeaf m))
       else Inr t1) = Inr t'"
    using update_step_unfold [OF Suc.prems(1)] by blast
  obtain p where np: "n = (node_of t)\<lparr>percentage := p\<rparr>" and mono: "percentage (node_of t) \<le> p"
    using update_step_node [OF n Suc.prems(2)] by auto
  define t0 where "t0 = map_node (\<lambda>_. n) t"
  have wf0: "qt_wf t0"
    using Suc.prems(2) by (simp add: t0_def np)
  have inv0: "qt_inv tp ts t0"
    using Suc.prems(3) mono by (cases t) (auto simp: t0_def np)
  define t1 where "t1 = set_value tp ts t0"
  show ?case
  proof (cases "value (node_of t1) = -1")
    case False
    then obtain m where "t1 = QLeaf m" "value m = 0 \<or> value m = 1"
      using set_value_decided [OF inv0] by (auto simp: t1_def)
    moreover have "qt_wf t1" using wf0 by (simp add: t1_def qt_wf_set_value)
    ultimately show ?thesis
      using rest False by (auto simp: Let_def simp flip: t0_def t1_def)
  next
    case True
    then have t1: "t1 = map_node (\<lambda>m. m\<lparr>value := -1\<rparr>) t0"
      and big: "ts < width (node_of t0)" "ts < height (node_of t0)" "tp < percentage (node_of t0)"
      using set_value_mixed [of tp ts t0] by (auto simp: t1_def)
    show ?thesis
    proof (cases t0)
      case (QLeaf m0)
      let ?m = "m0\<lparr>value := -1\<rparr>"
      have sv: "set_value tp ts (map_node (\<lambda>_. n) t) = QLeaf ?m"
        using t1 QLeaf by (simp add: t1_def t0_def)
      from rest sv obtain a' b' c' e' where
        ua: "update_percentage_and_split d tp ts obs (QLeaf (new_node (cx ?m - width ?m / 4) (cy ?m - height ?m / 4) (width ?m / 2) (height ?m / 2))) = Inr a'"
        and ub: "update_percentage_and_split d tp ts obs (QLeaf (new_node (cx ?m + width ?m / 4) (cy ?m - height ?m / 4) (width ?m / 2) (height ?m / 2))) = Inr b'"
        and uc: "update_percentage_and_split d tp ts obs (QLeaf (new_node (cx ?m - width ?m / 4) (cy ?m + height ?m / 4) (width ?m / 2) (height ?m / 2))) = Inr c'"
        and ue: "update_percentage_and_split d tp ts obs (QLeaf (new_node (cx ?m + width ?m / 4) (cy ?m + height ?m / 4) (width ?m / 2) (height ?m / 2))) = Inr e'"
        and t': "t' = QNode ?m a' b' c' e'"
        by (auto simp: Let_def rbind4_Inr split_def)
      have pos: "0 < width m0" "0 < height m0" using wf0 QLeaf by auto
      have ia: "qt_wf a' \<and> qt_inv tp ts a' \<and> leaves_classified a'"
        using Suc.IH [OF ua] pos by (simp add: new_node_def)
      have ib: "qt_wf b' \<and> qt_inv tp ts b' \<and> leaves_classified b'"
        using Suc.IH [OF ub] pos by (simp add: new_node_def)
      have ic: "qt_wf c' \<and> qt_inv tp ts c' \<and> leaves_classified c'"
        using Suc.IH [OF uc] pos by (simp add: new_node_def)
      have ie: "qt_wf e' \<and> qt_inv tp ts e' \<and> leaves_classified e'"
        using Suc.IH [OF ue] pos by (simp add: new_node_def)
      show ?thesis
        using ia ib ic ie pos big QLeaf
          update_percentage_and_split_box [OF ua] update_percentage_and_split_box [OF ub]
          update_percentage_and_split_box [OF uc] update_percentage_and_split_box [OF ue]
        by (simp add: t' new_node_def box_of_def child_box_def)
    next
      case (QNode m0 a b c e)
      let ?m = "m0\<lparr>value := -1\<rparr>"
      have sv: "set_value tp ts (map_node (\<lambda>_. n) t) = QNode ?m a b c e"
        using t1 QNode by (simp add: t1_def t0_def)
      from rest sv obtain a' b' c' e' where
        ua: "update_percentage_and_split d tp ts obs a = Inr a'"
        and ub: "update_percentage_and_split d tp ts obs b = Inr b'"
        and uc: "update_percentage_and_split d tp ts obs c = Inr c'"
        and ue: "update_percentage_and_split d tp ts obs e = Inr e'"
        and t': "t' = QNode ?m a' b' c' e'"
        by (auto simp: Let_def rbind4_Inr)
      have ia: "qt_wf a' \<and> qt_inv tp ts a' \<and> leaves_classified a'"
        using Suc.IH [OF ua] wf0 inv0 QNode by simp
      have ib: "qt_wf b' \<and> qt_inv tp ts b' \<and> leaves_classified b'"
        using Suc.IH [OF ub] wf0 inv0 QNode by simp
      have ic: "qt_wf c' \<and> qt_inv tp ts c' \<and> leaves_classified c'"
        using Suc.IH [OF uc] wf0 inv0 QNode by simp
      have ie: "qt_wf e' \<and> qt_inv tp ts e' \<and> leaves_classified e'"
        using Suc.IH [OF ue] wf0 inv0 QNode by simp
      show ?thesis
        using ia ib ic ie wf0 big QNode
          update_percentage_and_split_box [OF ua] update_percentage_and_split_box [OF ub]
          update_percentage_and_split_box [OF uc] update_percentage_and_split_box [OF ue]
        by (simp add: t')
    qed
  qed
qed

text \<open>
  C2 (termination). The recursive update returns, without \<open>RecursionError\<close>, as soon
  as the recursion depth exceeds \<open>k\<close> where the node's width is at most
  \<open>2 ^ k\<close> times a positive minimum size: every split halves the width, and a node no
  wider than the minimum size is never split.
\<close>

theorem update_percentage_and_split_terminates:
  assumes "qt_wf t" "0 < ts" "width (node_of t) \<le> 2 ^ k * ts" "k < d"
  shows "\<exists>t'. update_percentage_and_split d tp ts obs t = Inr t'"
  using assms
proof (induction d arbitrary: t k)
  case 0
  then show ?case by simp
next
  case (Suc d)
  have pos: "0 < width (node_of t)" "0 < height (node_of t)"
    using Suc.prems(1) by (cases t; simp)+
  obtain n where n: "add_percentages (node_of t) obs = Inr n"
    using add_percentages_mono [OF pos] by blast
  obtain p where np: "n = (node_of t)\<lparr>percentage := p\<rparr>"
    using add_percentages_shape [OF n] by blast
  define t0 where "t0 = map_node (\<lambda>_. n) t"
  have wf0: "qt_wf t0" and w0: "width (node_of t0) = width (node_of t)"
    using Suc.prems(1) by (simp_all add: t0_def np)
  define t1 where "t1 = set_value tp ts t0"
  show ?case
  proof (cases "value (node_of t1) = -1")
    case False
    then show ?thesis by (simp add: n Let_def flip: t0_def t1_def)
  next
    case True
    then have t1: "t1 = map_node (\<lambda>m. m\<lparr>value := -1\<rparr>) t0" and big: "ts < width (node_of t0)"
      using set_value_mixed [of tp ts t0] by (auto simp: t1_def)
    obtain k' where k: "k = Suc k'"
      using Suc.prems(3,2) big w0 by (cases k) auto
    have half: "width (node_of t0) / 2 \<le> 2 ^ k' * ts" and kd: "k' < d"
      using Suc.prems(3,4) w0 k by auto
    have IH: "\<And>u. qt_wf u \<Longrightarrow> width (node_of u) = width (node_of t0) / 2 \<Longrightarrow>
        \<exists>u'. update_percentage_and_split d tp ts obs u = Inr u'"
      using Suc.IH [OF _ Suc.prems(2) _ kd] half by auto
    show ?thesis
    proof (cases t0)
      case (QLeaf m0)
      have sv: "set_value tp ts (map_node (\<lambda>_. n) t) = QLeaf (m0\<lparr>value := -1\<rparr>)"
        using t1 QLeaf by (simp add: t1_def t0_def)
      have "0 < width m0" "0 < height m0" using wf0 QLeaf by auto
      then have F: "\<And>x y. \<exists>u'. update_percentage_and_split d tp ts obs
          (QLeaf (new_node x y (width m0 / 2) (height m0 / 2))) = Inr u'"
        using IH QLeaf by (simp add: new_node_def)
      obtain a' b' c' e' where
        "update_percentage_and_split d tp ts obs
           (QLeaf (new_node (cx m0 - width m0 / 4) (cy m0 - height m0 / 4) (width m0 / 2) (height m0 / 2))) = Inr a'"
        "update_percentage_and_split d tp ts obs
           (QLeaf (new_node (cx m0 + width m0 / 4) (cy m0 - height m0 / 4) (width m0 / 2) (height m0 / 2))) = Inr b'"
        "update_percentage_and_split d tp ts obs
           (QLeaf (new_node (cx m0 - width m0 / 4) (cy m0 + height m0 / 4) (width m0 / 2) (height m0 / 2))) = Inr c'"
        "update_percentage_and_split d tp ts obs
           (QLeaf (new_node (cx m0 + width m0 / 4) (cy m0 + height m0 / 4) (width m0 / 2) (height m0 / 2))) = Inr e'"
        using F by meson
      then show ?thesis
        by (simp add: n sv Let_def split_def)
    next
      case (QNode m0 a b c e)
      have sv: "set_value tp ts (map_node (\<lambda>_. n) t) = QNode (m0\<lparr>value := -1\<rparr>) a b c e"
        using t1 QNode by (simp add: t1_def t0_def)
      have "\<And>u. u \<in> {a, b, c, e} \<Longrightarrow> qt_wf u \<and> width (node_of u) = width m0 / 2"
        using wf0 QNode by (auto simp: box_of_def child_box_def)
      then obtain a' b' c' e' where
        "update_percentage_and_split d tp ts obs a = Inr a'"
        "update_percentage_and_split d tp ts obs b = Inr b'"
        "update_percentage_and_split d tp ts obs c = Inr c'"
        "update_percentage_and_split d tp ts obs e = Inr e'"
        using IH QNode by (metis insertCI node_of.simps(2))
      then show ?thesis
        by (simp add: n sv Let_def)
    qed
  qed
qed

lemma get_area_box_of: "box_of m = box_of n \<Longrightarrow> get_area m = get_area n"
  by (simp add: box_of_def get_area_def)

lemma get_area_child_box [simp]: "get_area (child_box q n) = get_area n / 4"
  by (simp add: get_area_def child_box_def)

lemma get_area_child:
  assumes "box_of m = child_box q n"
  shows "get_area m = get_area n / 4"
proof -
  from assms have "width n = 2 * width m" "height n = 2 * height m"
    by (auto simp: box_of_def child_box_def)
  then show ?thesis by (simp add: get_area_def)
qed

text \<open>
  C4 (invariant). In a well-formed quadtree the areas of the leaves add up to the area of
  the root: the leaves returned by \<open>get_leaves\<close> cover the region exactly once by area.
\<close>

theorem leaves_area_sum:
  "qt_wf t \<Longrightarrow> sum_list (map get_area (get_leaves t)) = get_area (node_of t)"
proof (induction t)
  case (QLeaf n)
  then show ?case by simp
next
  case (QNode n a b c d)
  have "get_area (node_of a) = get_area n / 4" using QNode.prems by (intro get_area_child [of _ NW]) simp
  moreover have "get_area (node_of b) = get_area n / 4" using QNode.prems by (intro get_area_child [of _ NE]) simp
  moreover have "get_area (node_of c) = get_area n / 4" using QNode.prems by (intro get_area_child [of _ SW]) simp
  moreover have "get_area (node_of d) = get_area n / 4" using QNode.prems by (intro get_area_child [of _ SE]) simp
  ultimately show ?case using QNode by simp
qed


lemma child_split:
  "child q (split n) = Some (QLeaf (new_node (cx (child_box q n)) (cy (child_box q n)) (width n / 2) (height n / 2)))"
  by (cases q) (simp_all add: split_def child_box_def)

lemma child_boxes_disjoint:
  assumes "0 < width n" "0 < height n" "q1 \<noteq> q2"
  shows "get_intersect_area (child_box q1 n) (child_box q2 n) = 0"
  using assms
  by (cases q1; cases q2) (simp_all add: get_intersect_area_def return_coordinate_def child_box_def)

lemma get_quadrant_in_child_box:
  assumes "in_box n p"
  shows "in_box (child_box (get_quadrant n p) n) p"
proof -
  have "0 \<le> width n" "0 \<le> height n"
    using assms abs_ge_zero [of "fst p - cx n"] abs_ge_zero [of "snd p - cy n"]
    unfolding in_box_def by linarith+
  then show ?thesis
    using assms by (cases p) (auto simp: in_box_def get_quadrant_def child_box_def split: abs_split)
qed

text \<open>
  C3 (invariant). \<open>Node.split\<close> partitions its node: each of the four children is a
  leaf whose box is the quadrant's box, the four areas add up to the parent's area, two
  different quadrants overlap in area 0, and the child that \<open>get_quadrant\<close> names for a
  point of the parent contains that point.
\<close>

theorem split_partition:
  assumes "0 < width n" "0 < height n"
  shows "(\<forall>q. \<exists>m. child q (split n) = Some (QLeaf m) \<and> box_of m = child_box q n) \<and>
    (\<Sum>q\<leftarrow>[NW, NE, SW, SE]. get_area (child_box q n)) = get_area n \<and>
    (\<forall>q1 q2. q1 \<noteq> q2 \<longrightarrow> get_intersect_area (child_box q1 n) (child_box q2 n) = 0) \<and>
    (\<forall>p. in_box n p \<longrightarrow> in_box (child_box (get_quadrant n p) n) p)"
proof -
  have "(\<Sum>q\<leftarrow>[NW, NE, SW, SE]. get_area (child_box q n)) = get_area n"
    by (simp add: get_area_def child_box_def field_simps)
  then show ?thesis
    using assms child_boxes_disjoint get_quadrant_in_child_box
    by (auto simp: child_split new_node_def box_of_def child_box_def)
qed

text \<open>
  C1 (invariant). \<open>update_percentage_and_split\<close>, when it returns, keeps the tree
  well formed (positive sizes, children are the quadrants of their parent) and keeps
  every internal node mixed, above the low threshold and larger than the minimum size;
  every leaf of the result is free (0) or blocked (1), a leaf never keeps the value -1;
  the root keeps its box.
\<close>

theorem update_percentage_and_split_invariant:
  assumes "update_percentage_and_split d tp ts obs t = Inr t'" "qt_wf t" "qt_inv tp ts t"
  shows "qt_wf t' \<and> qt_inv tp ts t' \<and> leaves_classified t' \<and> box_of (node_of t') = box_of (node_of t)"
  using update_preserves_qt_inv [OF assms] update_percentage_and_split_box [OF assms(1)] by simp

theorem update_percentage_and_split_invariant_witness:
  "\<exists>t'. update_percentage_and_split 5 (1/200) 1 [make_obstacle (-3/2) (-3/2) 1 1 True (0, 0) (20, 20) (20, 20)]
      (QLeaf (new_node 0 0 4 4)) = Inr t' \<and>
    qt_wf t' \<and> qt_inv (1/200) 1 t' \<and> leaves_classified t' \<and> length (get_leaves t') = 7"
  using update_percentage_and_split_invariant
    [of 5 "1/200" 1 "[make_obstacle (-3/2) (-3/2) 1 1 True (0, 0) (20, 20) (20, 20)]" "QLeaf (new_node 0 0 4 4)"]
  by (simp add: make_obstacle_def new_node_def split_def set_value_def Let_def reset_children_def
      get_intersect_percentage_def get_intersect_area_def return_coordinate_def get_area_def
      numeral_eq_Suc leaves_classified_def box_of_def child_box_def)

theorem update_percentage_and_split_terminates_witness:
  "\<exists>t'. update_percentage_and_split 6 (1/200) 16 [make_obstacle 100 100 16 16 True (0, 0) (20, 20) (20, 20)]
      (QLeaf (new_node 286 286 512 512)) = Inr t'"
  using update_percentage_and_split_terminates
    [where t = "QLeaf (new_node 286 286 512 512)" and ts = 16 and k = 5 and d = 6 and tp = "1/200"
      and obs = "[make_obstacle 100 100 16 16 True (0, 0) (20, 20) (20, 20)]"]
  by (simp add: new_node_def)

theorem split_partition_witness:
  "get_intersect_area (child_box NW (new_node 0 0 4 2)) (child_box SE (new_node 0 0 4 2)) = 0 \<and>
   in_box (child_box (get_quadrant (new_node 0 0 4 2) (1, -1/2)) (new_node 0 0 4 2)) (1, -1/2)"
proof -
  have pos: "0 < width (new_node 0 0 4 2)" "0 < height (new_node 0 0 4 2)"
    by (simp_all add: new_node_def)
  have inb: "in_box (new_node 0 0 4 2) (1, -1/2)"
    by (simp add: in_box_def new_node_def)
  show ?thesis
    using split_partition [OF pos] inb by auto
qed

theorem leaves_area_sum_witness:
  "sum_list (map get_area (get_leaves (split (new_node 0 0 4 4)))) = 16"
  using leaves_area_sum [of "split (new_node 0 0 4 4)"]
  by (simp add: split_def new_node_def box_of_def child_box_def get_area_def)

text \<open>
  With the defaults of \<open>update_percentage_and_split\<close>
  (\<open>threshold_percentage = 0.005\<close>, \<open>threshold_size = 16\<close>) and the 512-pixel root of
  \<open>QuadTree.py\<close>, one 16-by-16 obstacle inside the region covers \<open>1/1024\<close> of the root,
  below the threshold: the root is classified free and is not split at all.
\<close>

theorem small_obstacle_root_unsplit:
  "update_percentage_and_split (Suc d) (1/200) 16 [make_obstacle 100 100 16 16 True (0, 0) (20, 20) (20, 20)]
     (QLeaf (new_node 286 286 512 512)) =
   Inr (QLeaf ((new_node 286 286 512 512)\<lparr>percentage := 1/1024, value := 0\<rparr>))"
  by (simp add: make_obstacle_def new_node_def set_value_def Let_def
      get_intersect_percentage_def get_intersect_area_def return_coordinate_def get_area_def)

end
