(* ===== verification/Neighbors.thy ===== *)
theory Neighbors
  imports QuadTree
begin

text \<open>
  The neighbour search of \<open>src/AABB.py\<close> (\<open>Node.get_*_neighbor\<close>,
  \<open>Node.get_*_children\<close>, \<open>Node.update_neighbors\<close>). Python walks parent pointers;
  here a node is named by its address, the list of regions from the node up to the root
  (innermost first): the root is \<open>[]\<close>, \<open>self.region\<close> is the head, \<open>self.parent\<close>
  is the tail, and \<open>self.parent.NW\<close> is \<open>NW # tl\<close>. A neighbour query returns an address
  or \<open>None\<close>, as Python returns a node or \<open>None\<close>. \<open>u.get_children() is None\<close>
  is \<open>\<not> has_children t u\<close>.

  The lemmas show that the north neighbour is the cell across the top edge (of the same
  size, or a larger leaf covering the whole edge) and that \<open>None\<close> is returned only on
  the map's top boundary; and they exhibit the asymmetric south-west rule.
\<close>

type_synonym addr = "quadrant list"

section \<open>Addresses\<close>

fun lookup :: "qtree \<Rightarrow> quadrant list \<Rightarrow> qtree option" where
  "lookup t [] = Some t"
| "lookup t (q # qs) = (case child q t of None \<Rightarrow> None | Some c \<Rightarrow> lookup c qs)"

definition node_at :: "qtree \<Rightarrow> addr \<Rightarrow> qtree option" where
  "node_at t a = lookup t (rev a)"

definition has_children :: "qtree \<Rightarrow> addr \<Rightarrow> bool" where
  "has_children t a = (case node_at t a of Some (QNode _ _ _ _ _) \<Rightarrow> True | _ \<Rightarrow> False)"

section \<open>Same-or-larger neighbours\<close>

fun get_north_neighbor :: "qtree \<Rightarrow> addr \<Rightarrow> addr option" where
  "get_north_neighbor t [] = None"
| "get_north_neighbor t (r # p) =
     (if r = SW then Some (NW # p)
      else if r = SE then Some (NE # p)
      else (case get_north_neighbor t p of
              None \<Rightarrow> None
            | Some u \<Rightarrow> if \<not> has_children t u then Some u
                       else if r = NW then Some (SW # u) else Some (SE # u)))"

fun get_south_neighbor :: "qtree \<Rightarrow> addr \<Rightarrow> addr option" where
  "get_south_neighbor t [] = None"
| "get_south_neighbor t (r # p) =
     (if r = NW then Some (SW # p)
      else if r = NE then Some (SE # p)
      else (case get_south_neighbor t p of
              None \<Rightarrow> None
            | Some u \<Rightarrow> if \<not> has_children t u then Some u
                       else if r = SW then Some (NW # u) else Some (NE # u)))"

fun get_left_neighbor :: "qtree \<Rightarrow> addr \<Rightarrow> addr option" where
  "get_left_neighbor t [] = None"
| "get_left_neighbor t (r # p) =
     (if r = NE then Some (NW # p)
      else if r = SE then Some (SW # p)
      else (case get_left_neighbor t p of
              None \<Rightarrow> None
            | Some u \<Rightarrow> if \<not> has_children t u then Some u
                       else if r = NW then Some (NE # u) else Some (SE # u)))"

fun get_right_neighbor :: "qtree \<Rightarrow> addr \<Rightarrow> addr option" where
  "get_right_neighbor t [] = None"
| "get_right_neighbor t (r # p) =
     (if r = NW then Some (NE # p)
      else if r = SW then Some (SE # p)
      else (case get_right_neighbor t p of
              None \<Rightarrow> None
            | Some u \<Rightarrow> if \<not> has_children t u then Some u
                       else if r = NE then Some (NW # u) else Some (SW # u)))"

text \<open>
  The diagonal queries: one step through a sibling, one cardinal query of the parent
  (with a descent when the found node is split), or a diagonal query of the parent.
\<close>

definition descend :: "qtree \<Rightarrow> addr option \<Rightarrow> quadrant \<Rightarrow> addr option" where
  "descend t uo q = (case uo of None \<Rightarrow> None | Some u \<Rightarrow> if \<not> has_children t u then Some u else Some (q # u))"

fun get_north_west_neighbor :: "qtree \<Rightarrow> addr \<Rightarrow> addr option" where
  "get_north_west_neighbor t [] = None"
| "get_north_west_neighbor t (SE # p) = Some (NW # p)"
| "get_north_west_neighbor t (NE # p) = descend t (get_north_neighbor t p) SW"
| "get_north_west_neighbor t (SW # p) = descend t (get_left_neighbor t p) NE"
| "get_north_west_neighbor t (NW # p) = descend t (get_north_west_neighbor t p) SE"

fun get_north_east_neighbor :: "qtree \<Rightarrow> addr \<Rightarrow> addr option" where
  "get_north_east_neighbor t [] = None"
| "get_north_east_neighbor t (SW # p) = Some (NE # p)"
| "get_north_east_neighbor t (NW # p) = descend t (get_north_neighbor t p) SE"
| "get_north_east_neighbor t (SE # p) = descend t (get_right_neighbor t p) NW"
| "get_north_east_neighbor t (NE # p) = descend t (get_north_east_neighbor t p) SW"

text \<open>
  \<open>get_south_west_neighbor\<close>, region SE: the source tests \<open>u.get_children()\<close> for
  truth where the other seven branches test \<open>is None\<close>. It returns \<open>u\<close> itself when
  \<open>u\<close> is split and \<open>u.NW\<close>, which is \<open>None\<close>, when \<open>u\<close> is a leaf.
\<close>

fun get_south_west_neighbor :: "qtree \<Rightarrow> addr \<Rightarrow> addr option" where
  "get_south_west_neighbor t [] = None"
| "get_south_west_neighbor t (NE # p) = Some (SW # p)"
| "get_south_west_neighbor t (SE # p) =
     (case get_south_neighbor t p of
        None \<Rightarrow> None
      | Some u \<Rightarrow> if has_children t u then Some u else None)"
| "get_south_west_neighbor t (NW # p) = descend t (get_left_neighbor t p) SE"
| "get_south_west_neighbor t (SW # p) = descend t (get_south_west_neighbor t p) NE"

fun get_south_east_neighbor :: "qtree \<Rightarrow> addr \<Rightarrow> addr option" where
  "get_south_east_neighbor t [] = None"
| "get_south_east_neighbor t (NW # p) = Some (SE # p)"
| "get_south_east_neighbor t (NE # p) = descend t (get_right_neighbor t p) SW"
| "get_south_east_neighbor t (SW # p) = descend t (get_south_neighbor t p) NE"
| "get_south_east_neighbor t (SE # p) = descend t (get_south_east_neighbor t p) NW"

section \<open>Leaves along a boundary\<close>

text \<open>
  \<open>get_north_children\<close> and its kin take the subtree at an address and return the
  addresses of its leaves along one side (or at one corner).
\<close>

fun get_north_children :: "qtree \<Rightarrow> addr \<Rightarrow> addr list" where
  "get_north_children (QLeaf _) a = [a]"
| "get_north_children (QNode _ nw ne sw se) a =
     get_north_children nw (NW # a) @ get_north_children ne (NE # a)"

fun get_south_children :: "qtree \<Rightarrow> addr \<Rightarrow> addr list" where
  "get_south_children (QLeaf _) a = [a]"
| "get_south_children (QNode _ nw ne sw se) a =
     get_south_children sw (SW # a) @ get_south_children se (SE # a)"

fun get_left_children :: "qtree \<Rightarrow> addr \<Rightarrow> addr list" where
  "get_left_children (QLeaf _) a = [a]"
| "get_left_children (QNode _ nw ne sw se) a =
     get_left_children nw (NW # a) @ get_left_children sw (SW # a)"

fun get_right_children :: "qtree \<Rightarrow> addr \<Rightarrow> addr list" where
  "get_right_children (QLeaf _) a = [a]"
| "get_right_children (QNode _ nw ne sw se) a =
     get_right_children ne (NE # a) @ get_right_children se (SE # a)"

fun get_north_west_children :: "qtree \<Rightarrow> addr \<Rightarrow> addr list" where
  "get_north_west_children (QLeaf _) a = [a]"
| "get_north_west_children (QNode _ nw _ _ _) a = get_north_west_children nw (NW # a)"

fun get_north_east_children :: "qtree \<Rightarrow> addr \<Rightarrow> addr list" where
  "get_north_east_children (QLeaf _) a = [a]"
| "get_north_east_children (QNode _ _ ne _ _) a = get_north_east_children ne (NE # a)"

fun get_south_west_children :: "qtree \<Rightarrow> addr \<Rightarrow> addr list" where
  "get_south_west_children (QLeaf _) a = [a]"
| "get_south_west_children (QNode _ _ _ sw _) a = get_south_west_children sw (SW # a)"

fun get_south_east_children :: "qtree \<Rightarrow> addr \<Rightarrow> addr list" where
  "get_south_east_children (QLeaf _) a = [a]"
| "get_south_east_children (QNode _ _ _ _ se) a = get_south_east_children se (SE # a)"

definition children_at :: "(qtree \<Rightarrow> addr \<Rightarrow> addr list) \<Rightarrow> qtree \<Rightarrow> addr option \<Rightarrow> addr list" where
  "children_at f t uo =
     (case uo of None \<Rightarrow> [] | Some u \<Rightarrow> (case node_at t u of None \<Rightarrow> [] | Some s \<Rightarrow> f s u))"

text \<open>
  \<open>update_neighbors\<close> appends, direction by direction, the boundary leaves of each
  neighbour that exists (a node is always truthy) to the node's current list.
\<close>

definition update_neighbors :: "qtree \<Rightarrow> addr \<Rightarrow> addr list \<Rightarrow> addr list" where
  "update_neighbors t a neighbors =
     neighbors
     @ children_at get_south_children t (get_north_neighbor t a)
     @ children_at get_north_children t (get_south_neighbor t a)
     @ children_at get_right_children t (get_left_neighbor t a)
     @ children_at get_left_children t (get_right_neighbor t a)
     @ children_at get_south_east_children t (get_north_west_neighbor t a)
     @ children_at get_south_west_children t (get_north_east_neighbor t a)
     @ children_at get_north_east_children t (get_south_west_neighbor t a)
     @ children_at get_north_west_children t (get_south_east_neighbor t a)"

section \<open>Geometry of addresses\<close>

text \<open>A box whose bottom edge is the top edge of another and spans its width.\<close>

definition above_adjacent :: "'a aabb_scheme \<Rightarrow> 'b aabb_scheme \<Rightarrow> bool" where
  "above_adjacent s u \<longleftrightarrow>
     cy u + height u / 2 = cy s - height s / 2 \<and>
     cx u - width u / 2 \<le> cx s - width s / 2 \<and> cx s + width s / 2 \<le> cx u + width u / 2"


section \<open>Lemmas\<close>

lemma lookup_append:
  "lookup t (xs @ ys) = (case lookup t xs of None \<Rightarrow> None | Some s \<Rightarrow> lookup s ys)"
  by (induction t xs rule: lookup.induct) (auto split: option.splits)

lemma node_at_Nil [simp]: "node_at t [] = Some t"
  by (simp add: node_at_def)

lemma node_at_Cons:
  "node_at t (q # p) = (case node_at t p of None \<Rightarrow> None | Some s \<Rightarrow> child q s)"
  by (simp add: node_at_def lookup_append split: option.splits)

lemma node_at_Cons_Some:
  "node_at t (q # p) = Some s \<longleftrightarrow> (\<exists>P. node_at t p = Some P \<and> child q P = Some s)"
  by (simp add: node_at_Cons split: option.splits)

lemma child_Some_iff:
  "child q P = Some c \<longleftrightarrow> (\<exists>n a b d e. P = QNode n a b d e \<and>
     c = (case q of NW \<Rightarrow> a | NE \<Rightarrow> b | SW \<Rightarrow> d | SE \<Rightarrow> e))"
  by (cases P; cases q) auto

lemma qt_wf_child:
  "qt_wf P \<Longrightarrow> child q P = Some c \<Longrightarrow> qt_wf c \<and> box_of (node_of c) = child_box q (node_of P)"
  by (cases P; cases q) auto

lemma qt_wf_node_at:
  "qt_wf t \<Longrightarrow> node_at t a = Some s \<Longrightarrow> qt_wf s"
  by (induction a arbitrary: s) (auto simp: node_at_Cons_Some dest: qt_wf_child)

lemma has_children_iff:
  "has_children t a \<longleftrightarrow> (\<exists>s. node_at t a = Some s \<and> (\<nexists>m. s = QLeaf m))"
  by (auto simp: has_children_def split: option.splits qtree.splits)

lemma child_box_geom [simp]:
  "cx (child_box q b) = cx b + qdx q * width b / 4" "cy (child_box q b) = cy b + qdy q * height b / 4"
  "width (child_box q b) = width b / 2" "height (child_box q b) = height b / 2"
  by (simp_all add: child_box_def)

lemma box_of_eq_iff:
  "box_of m = (b::aabb) \<longleftrightarrow> cx m = cx b \<and> cy m = cy b \<and> width m = width b \<and> height m = height b"
  by (cases b) (auto simp: box_of_def)

lemma child_geom:
  assumes "qt_wf P" "child q P = Some c"
  shows "cx (node_of c) = cx (node_of P) + qdx q * width (node_of P) / 4"
    "cy (node_of c) = cy (node_of P) + qdy q * height (node_of P) / 4"
    "width (node_of c) = width (node_of P) / 2" "height (node_of c) = height (node_of P) / 2"
  using qt_wf_child [OF assms] by (simp_all add: box_of_eq_iff)

lemma child_QNode_Some: "\<exists>c'. child q (QNode n a b c d) = Some c'"
  by (cases q) auto

lemma sibling_exists:
  "child q P = Some c \<Longrightarrow> \<exists>c'. child q' P = Some c'"
  by (cases P; cases q; cases q') auto

text \<open>
  C9 (safety). In a well-formed quadtree, the address \<open>get_north_neighbor\<close> returns
  names a node directly above the queried one: its bottom edge is the query's top edge
  and its horizontal extent covers the query's; it has the same width or is a leaf
  (a larger cell is returned only when it is not split).
\<close>

theorem get_north_neighbor_adjacent:
  assumes "qt_wf t" "node_at t a = Some s" "get_north_neighbor t a = Some u"
  shows "\<exists>s'. node_at t u = Some s' \<and> above_adjacent (node_of s) (node_of s') \<and>
    (width (node_of s') = width (node_of s) \<or> (\<exists>m. s' = QLeaf m))"
  using assms
proof (induction t a arbitrary: s u rule: get_north_neighbor.induct)
  case (1 t)
  then show ?case by simp
next
  case (2 t r p)
  obtain P where P: "node_at t p = Some P" "child r P = Some s"
    using "2.prems"(2) by (auto simp: node_at_Cons_Some)
  have wfP: "qt_wf P" using qt_wf_node_at [OF "2.prems"(1) P(1)] .
  have posP: "0 < width (node_of P)" "0 < height (node_of P)"
    using wfP by (cases P; simp)+
  note gs = child_geom [OF wfP P(2)]
  show ?case
  proof (cases "r = SW \<or> r = SE")
    case True
    let ?q = "if r = SW then NW else NE"
    have u: "u = ?q # p" using "2.prems"(3) True by auto
    obtain s' where s': "child ?q P = Some s'" using sibling_exists [OF P(2)] by blast
    note gs' = child_geom [OF wfP s']
    show ?thesis
      using True u P s' gs gs' by (auto simp: node_at_Cons_Some above_adjacent_def)
  next
    case False
    then have r: "r = NW \<or> r = NE" by (cases r) auto
    let ?q = "if r = NW then SW else SE"
    obtain u0 where u0: "get_north_neighbor t p = Some u0"
      and u: "u = (if \<not> has_children t u0 then u0 else ?q # u0)"
      using "2.prems"(3) False by (auto split: option.splits if_splits)
    obtain U where U: "node_at t u0 = Some U" "above_adjacent (node_of P) (node_of U)"
      "width (node_of U) = width (node_of P) \<or> (\<exists>m. U = QLeaf m)"
      using "2.IH" [OF _ _ "2.prems"(1) P(1) u0] False by blast
    show ?thesis
    proof (cases "has_children t u0")
      case False
      then have "\<exists>m. U = QLeaf m" using U(1) by (auto simp: has_children_iff)
      then show ?thesis
        using False U gs posP u r by (auto simp: above_adjacent_def)
    next
      case True
      then have wU: "width (node_of U) = width (node_of P)" using U(1,3) by (auto simp: has_children_iff)
      obtain s' where s': "child ?q U = Some s'"
        using True U(1) child_QNode_Some by (cases U) (auto simp: has_children_iff, metis)
      have wfU: "qt_wf U" using qt_wf_node_at [OF "2.prems"(1) U(1)] .
      note gs' = child_geom [OF wfU s']
      show ?thesis
        using True U(1,2) wU gs gs' s' u posP r by (auto simp: node_at_Cons_Some above_adjacent_def)
    qed
  qed
qed

text \<open>
  \<open>get_north_neighbor\<close> answers \<open>None\<close> only for a node whose top
  edge is the top edge of the whole map: a missing neighbour means the map boundary.
\<close>

theorem get_north_neighbor_None_top:
  assumes "qt_wf t" "node_at t a = Some s" "get_north_neighbor t a = None"
  shows "cy (node_of s) - height (node_of s) / 2 = cy (node_of t) - height (node_of t) / 2"
  using assms
proof (induction t a arbitrary: s rule: get_north_neighbor.induct)
  case (1 t)
  then show ?case by simp
next
  case (2 t r p)
  obtain P where P: "node_at t p = Some P" "child r P = Some s"
    using "2.prems"(2) by (auto simp: node_at_Cons_Some)
  have r: "r = NW \<or> r = NE" and nb: "get_north_neighbor t p = None"
    using "2.prems"(3) by (cases r; auto split: option.splits if_splits)+
  then show ?case
    using "2.IH" [OF _ _ "2.prems"(1) P(1)] child_geom [OF qt_wf_node_at [OF "2.prems"(1) P(1)] P(2)]
    by auto
qed


theorem get_north_neighbor_adjacent_witness:
  "\<exists>s'. node_at (QNode (new_node 0 0 8 8) (split (new_node (-2) (-2) 4 4)) (QLeaf (new_node 2 (-2) 4 4)) (split (new_node (-2) 2 4 4)) (QLeaf (new_node 2 2 4 4))) [NE, NW] = Some s' \<and>
     above_adjacent (new_node (-1) (-1) 2 2) (node_of s') \<and> width (node_of s') = 2"
proof -
  have wf: "qt_wf (QNode (new_node 0 0 8 8) (split (new_node (-2) (-2) 4 4)) (QLeaf (new_node 2 (-2) 4 4)) (split (new_node (-2) 2 4 4)) (QLeaf (new_node 2 2 4 4)))"
    by (simp add: split_def new_node_def box_of_def child_box_def)
  have at: "node_at (QNode (new_node 0 0 8 8) (split (new_node (-2) (-2) 4 4)) (QLeaf (new_node 2 (-2) 4 4)) (split (new_node (-2) 2 4 4)) (QLeaf (new_node 2 2 4 4))) [SE, NW] = Some (QLeaf (new_node (-1) (-1) 2 2))"
    by (simp add: split_def node_at_def new_node_def)
  have nb: "get_north_neighbor (QNode (new_node 0 0 8 8) (split (new_node (-2) (-2) 4 4)) (QLeaf (new_node 2 (-2) 4 4)) (split (new_node (-2) 2 4 4)) (QLeaf (new_node 2 2 4 4))) [SE, NW] = Some [NE, NW]"
    by simp
  show ?thesis
    using get_north_neighbor_adjacent [OF wf at nb]
    by (auto simp: new_node_def split_def node_at_def)
qed

theorem get_north_neighbor_None_top_witness:
  "get_north_neighbor (QNode (new_node 0 0 8 8) (split (new_node (-2) (-2) 4 4)) (QLeaf (new_node 2 (-2) 4 4)) (split (new_node (-2) 2 4 4)) (QLeaf (new_node 2 2 4 4))) [NE, NW] = None \<and>
   cy (node_of (the (node_at (QNode (new_node 0 0 8 8) (split (new_node (-2) (-2) 4 4)) (QLeaf (new_node 2 (-2) 4 4)) (split (new_node (-2) 2 4 4)) (QLeaf (new_node 2 2 4 4))) [NE, NW]))) - height (node_of (the (node_at (QNode (new_node 0 0 8 8) (split (new_node (-2) (-2) 4 4)) (QLeaf (new_node 2 (-2) 4 4)) (split (new_node (-2) 2 4 4)) (QLeaf (new_node 2 2 4 4))) [NE, NW]))) / 2 = -4"
proof -
  have wf: "qt_wf (QNode (new_node 0 0 8 8) (split (new_node (-2) (-2) 4 4)) (QLeaf (new_node 2 (-2) 4 4)) (split (new_node (-2) 2 4 4)) (QLeaf (new_node 2 2 4 4)))"
    by (simp add: split_def new_node_def box_of_def child_box_def)
  have at: "node_at (QNode (new_node 0 0 8 8) (split (new_node (-2) (-2) 4 4)) (QLeaf (new_node 2 (-2) 4 4)) (split (new_node (-2) 2 4 4)) (QLeaf (new_node 2 2 4 4))) [NE, NW] = Some (QLeaf (new_node (-1) (-3) 2 2))"
    by (simp add: split_def node_at_def new_node_def)
  have nb: "get_north_neighbor (QNode (new_node 0 0 8 8) (split (new_node (-2) (-2) 4 4)) (QLeaf (new_node 2 (-2) 4 4)) (split (new_node (-2) 2 4 4)) (QLeaf (new_node 2 2 4 4))) [NE, NW] = None"
    by (simp add: has_children_def node_at_def split_def)
  show ?thesis
    using get_north_neighbor_None_top [OF wf at nb] nb at
    by (simp add: new_node_def)
qed



end
