(* ===== verification/Solver.thy ===== *)
theory Solver
  imports Geometry
begin

text \<open>
  The planners of \<open>src/Solver.py\<close> (\<open>DStarLiteSolver\<close>, \<open>AStarSolver\<close>) and the
  search fields and edge cost of \<open>src/AABB.py\<close> (\<open>Node.calculate_key\<close>,
  \<open>Node.calculate_rhs\<close>, \<open>distance\<close>, \<open>cost\<close>), over a graph given as an interface:
  a record \<open>'v graph\<close> with the vertex list, each vertex's neighbour list (the
  \<open>neighbors\<close> attribute), its centre and its box. The environments of theory
  \<open>Env\<close> instantiate it with quadtree leaves.

  The mutable vertex fields \<open>g\<close>, \<open>rhs\<close>, \<open>h\<close>, \<open>key\<close>, \<open>value\<close> are maps in the
  record \<open>'v dstar\<close>, together with the queue and the environment's \<open>current\<close> and
  \<open>goal\<close>. The queue is a \<open>sortedcontainers.SortedList(key=lambda x: x.key)\<close>: it keeps,
  for every entry, the key it was added with, in ascending order; \<open>add\<close> inserts after
  the entries with an equal key (\<open>bisect_right\<close>), \<open>discard(v)\<close> removes the entry of
  \<open>v\<close> stored under \<open>v\<close>'s current \<open>key\<close> attribute and does nothing when there is
  none, \<open>pop(0)\<close> removes the first entry and raises \<open>IndexError\<close> on an empty queue.
  The entries are the pairs (stored key, vertex).

  \<open>compute_path\<close> and the greedy path extraction are loops without a termination
  argument in the source; they carry fuel, and running out of fuel is \<open>None\<close> (the
  Python loop would go on). An exception is \<open>Some (Inl e)\<close>, a result \<open>Some (Inr _)\<close>.
\<close>

section \<open>Graph interface and state\<close>

record 'v graph =
  vertices :: "'v list"
  neighbors :: "'v \<Rightarrow> 'v list"
  pos :: "'v \<Rightarrow> real \<times> real"
  box_at :: "'v \<Rightarrow> aabb"

record 'v dstar =
  g_of :: "'v \<Rightarrow> ext"
  rhs_of :: "'v \<Rightarrow> ext"
  h_of :: "'v \<Rightarrow> real"
  key_of :: "'v \<Rightarrow> key"
  value_of :: "'v \<Rightarrow> int"
  queue :: "(key \<times> 'v) list"
  current :: 'v
  goal :: 'v

section \<open>Edge cost (\<open>src/AABB.py\<close>, module functions)\<close>

definition distance :: "real \<times> real \<Rightarrow> real \<times> real \<Rightarrow> real" where
  "distance p1 p2 = sqrt ((fst p1 - fst p2)\<^sup>2 + (snd p1 - snd p2)\<^sup>2)"

text \<open>
  \<open>cost(node1, node2) = distance(node1, node2) / (1 + 1e-6 - min(1, node1.value * 100))
  * (1 + 1e-6 - min(1, 100 * node2.value))\<close>: by operator precedence the second factor
  multiplies the quotient.
\<close>

definition cost :: "real \<times> real \<Rightarrow> int \<Rightarrow> real \<times> real \<Rightarrow> int \<Rightarrow> real" where
  "cost p1 v1 p2 v2 =
     distance p1 p2 / (1 + 1/1000000 - min 1 (of_int v1 * 100)) * (1 + 1/1000000 - min 1 (100 * of_int v2))"

definition edge_cost :: "'v graph \<Rightarrow> 'v dstar \<Rightarrow> 'v \<Rightarrow> 'v \<Rightarrow> real" where
  "edge_cost G st u v = cost (pos G u) (value_of st u) (pos G v) (value_of st v)"

section \<open>The sorted queue\<close>

definition sl_add :: "key \<Rightarrow> 'v \<Rightarrow> (key \<times> 'v) list \<Rightarrow> (key \<times> 'v) list" where
  "sl_add k v q = insert_at (length (takeWhile (\<lambda>e. fst e \<le> k) q)) (k, v) q"

definition sl_discard :: "key \<Rightarrow> 'v \<Rightarrow> (key \<times> 'v) list \<Rightarrow> (key \<times> 'v) list" where
  "sl_discard k v q = remove1 (k, v) q"

section \<open>Vertex operations\<close>

text \<open>\<open>Node.calculate_key\<close>: stores and returns \<open>[min(g, rhs) + h, min(g, rhs)]\<close>.\<close>

definition calculate_key :: "'v dstar \<Rightarrow> 'v \<Rightarrow> 'v dstar \<times> key" where
  "calculate_key st v =
     (let k = calc_key (g_of st v) (rhs_of st v) (h_of st v)
      in (st\<lparr>key_of := (key_of st)(v := k)\<rparr>, k))"

text \<open>\<open>Node.calculate_rhs\<close>: the minimum over the neighbours; \<open>min\<close> of an empty list raises.\<close>

definition calculate_rhs :: "'v graph \<Rightarrow> 'v dstar \<Rightarrow> 'v \<Rightarrow> 'v dstar result" where
  "calculate_rhs G st v =
     (case neighbors G v of
        [] \<Rightarrow> Inl ValueError
      | ns \<Rightarrow> Inr (st\<lparr>rhs_of := (rhs_of st)(v :=
                min_list (map (\<lambda>n. Fin (edge_cost G st v n) + g_of st n) ns))\<rparr>))"

text \<open>
  The queue part of \<open>update_vertex\<close>: \<open>self.queue.discard(vertex)\<close>, then, if
  \<open>vertex.g != vertex.rhs\<close>, \<open>vertex.calculate_key()\<close> and \<open>self.queue.add(vertex)\<close>.
\<close>

definition requeue :: "'v dstar \<Rightarrow> 'v \<Rightarrow> 'v dstar" where
  "requeue st1 vertex =
     (let st2 = st1\<lparr>queue := sl_discard (key_of st1 vertex) vertex (queue st1)\<rparr> in
      if g_of st2 vertex \<noteq> rhs_of st2 vertex then
        (let (st3, k) = calculate_key st2 vertex in st3\<lparr>queue := sl_add k vertex (queue st3)\<rparr>)
      else st2)"

definition update_vertex :: "'v graph \<Rightarrow> 'v dstar \<Rightarrow> 'v \<Rightarrow> 'v dstar result" where
  "update_vertex G st vertex =
     rbind (if vertex \<noteq> goal st then calculate_rhs G st vertex else Inr st)
       (\<lambda>st1. Inr (requeue st1 vertex))"

fun update_vertices :: "'v graph \<Rightarrow> 'v dstar \<Rightarrow> 'v list \<Rightarrow> 'v dstar result" where
  "update_vertices G st [] = Inr st"
| "update_vertices G st (u # us) = rbind (update_vertex G st u) (\<lambda>st'. update_vertices G st' us)"

section \<open>\<open>DStarLiteSolver.compute_path\<close>\<close>

text \<open>
  The loop condition \<open>(self.queue and self.queue[0].key < current.calculate_key())
  or current.g != current.rhs\<close>: the left operand reads the top vertex's \<open>key\<close>
  attribute, and \<open>calculate_key\<close> (which stores the current vertex's key) runs only when
  the queue is not empty.
\<close>

definition loop_test :: "'v dstar \<Rightarrow> 'v dstar \<times> bool" where
  "loop_test st =
     (if queue st \<noteq> [] then
        (let top = key_of st (snd (hd (queue st)));
             (st', kc) = calculate_key st (current st)
         in (st', top < kc \<or> g_of st' (current st') \<noteq> rhs_of st' (current st')))
      else (st, g_of st (current st) \<noteq> rhs_of st (current st)))"

text \<open>One iteration of the loop body, after the test.\<close>

definition compute_step :: "'v graph \<Rightarrow> 'v dstar \<Rightarrow> 'v dstar result" where
  "compute_step G st =
     (case queue st of
        [] \<Rightarrow> Inl IndexError
      | e # q \<Rightarrow>
          (let v = snd e; st1 = st\<lparr>queue := q\<rparr> in
           if g_of st1 v > rhs_of st1 v then
             update_vertices G (st1\<lparr>g_of := (g_of st1)(v := rhs_of st1 v)\<rparr>) (neighbors G v)
           else
             rbind (update_vertex G (st1\<lparr>g_of := (g_of st1)(v := Inf)\<rparr>) v)
               (\<lambda>st2. update_vertices G st2 (neighbors G v))))"

fun compute_path :: "nat \<Rightarrow> 'v graph \<Rightarrow> 'v dstar \<Rightarrow> 'v dstar result option" where
  "compute_path 0 G st = None"
| "compute_path (Suc n) G st =
     (let (st', c) = loop_test st in
      if c then (case compute_step G st' of Inl e \<Rightarrow> Some (Inl e) | Inr st'' \<Rightarrow> compute_path n G st'')
      else Some (Inr st'))"

section \<open>Invariants\<close>

text \<open>
  The queue invariant: stored keys ascend, no vertex is queued twice, every entry is
  stored under its vertex's \<open>key\<close> attribute and that attribute is the key of the
  vertex's current \<open>g\<close>, \<open>rhs\<close>, \<open>h\<close>; the queued vertices are vertices of the
  graph, and a vertex of the graph is queued exactly when it is locally inconsistent
  (\<open>g \<noteq> rhs\<close>).
\<close>

definition queue_inv :: "'v graph \<Rightarrow> 'v dstar \<Rightarrow> bool" where
  "queue_inv G st \<longleftrightarrow>
     sorted (map fst (queue st)) \<and> distinct (map snd (queue st)) \<and>
     (\<forall>e \<in> set (queue st). fst e = key_of st (snd e) \<and>
        fst e = calc_key (g_of st (snd e)) (rhs_of st (snd e)) (h_of st (snd e)) \<and>
        snd e \<in> set (vertices G)) \<and>
     (\<forall>v \<in> set (vertices G). v \<in> snd ` set (queue st) \<longleftrightarrow> g_of st v \<noteq> rhs_of st v)"

text \<open>The neighbour lists stay inside the vertex list.\<close>

definition graph_closed :: "'v graph \<Rightarrow> bool" where
  "graph_closed G \<longleftrightarrow> (\<forall>v \<in> set (vertices G). set (neighbors G v) \<subseteq> set (vertices G))"

text \<open>
  The queue invariant with one vertex \<open>v\<close> exempt: \<open>v\<close> is not queued and its
  consistency is unconstrained. It holds between \<open>queue.pop(0)\<close> or
  \<open>queue.discard(v)\<close> and the re-insertion of \<open>v\<close>.
\<close>

definition qi_but :: "'v graph \<Rightarrow> 'v dstar \<Rightarrow> 'v \<Rightarrow> bool" where
  "qi_but G st v \<longleftrightarrow>
     sorted (map fst (queue st)) \<and> distinct (map snd (queue st)) \<and>
     (\<forall>e \<in> set (queue st). snd e \<noteq> v \<and> fst e = key_of st (snd e) \<and>
        fst e = calc_key (g_of st (snd e)) (rhs_of st (snd e)) (h_of st (snd e)) \<and>
        snd e \<in> set (vertices G)) \<and>
     (\<forall>w \<in> set (vertices G). w \<noteq> v \<longrightarrow> (w \<in> snd ` set (queue st) \<longleftrightarrow> g_of st w \<noteq> rhs_of st w))"


section \<open>A two-cell example\<close>

text \<open>
  Two cells of width 1 side by side, the goal on the left and the robot on the right, in
  the initial state that \<open>QuadTreeEnvironment\<close> builds: \<open>g = rhs = inf\<close> except
  \<open>goal.rhs = 0\<close>, the goal queued with its key.
\<close>

definition ex_graph :: "nat graph" where
  "ex_graph = \<lparr>vertices = [0, 1], neighbors = (\<lambda>v. if v = 0 then [1] else [0]),
               pos = (\<lambda>v. if v = 0 then (0, 0) else (1, 0)),
               box_at = (\<lambda>v. \<lparr>cx = if v = 0 then 0 else 1, cy = 0, width = 1, height = 1\<rparr>)\<rparr>"

definition ex_start :: "nat dstar" where
  "ex_start = \<lparr>g_of = (\<lambda>_. Inf), rhs_of = (\<lambda>v. if v = 0 then Fin 0 else Inf),
     h_of = (\<lambda>v. if v = 0 then 1 else 0),
     key_of = (\<lambda>v. if v = 0 then (Fin 1, Fin 0) else (Inf, Inf)), value_of = (\<lambda>_. 0),
     queue = [((Fin 1, Fin 0), 0)], current = 1, goal = 0\<rparr>"

definition ex_final :: "nat dstar" where
  "ex_final = \<lparr>g_of = (\<lambda>v. if v = 0 then Fin 0 else if v = 1 then Fin 1 else Inf),
     rhs_of = (\<lambda>v. if v = 0 then Fin 0 else if v = 1 then Fin 1 else Inf),
     h_of = (\<lambda>v. if v = 0 then 1 else 0),
     key_of = (\<lambda>v. if v = 0 then (Fin 1, Fin 0) else if v = 1 then (Fin 1, Fin 1) else (Inf, Inf)),
     value_of = (\<lambda>_. 0), queue = [], current = 1, goal = 0\<rparr>"

section \<open>The sorted queue: lemmas\<close>

lemma sl_add_eq:
  "sl_add k v q = takeWhile (\<lambda>e. fst e \<le> k) q @ (k, v) # dropWhile (\<lambda>e. fst e \<le> k) q"
  by (simp add: sl_add_def insert_at_def flip: takeWhile_eq_take dropWhile_eq_drop)

lemma set_sl_add [simp]: "set (sl_add k v q) = insert (k, v) (set q)"
proof -
  have "set q = set (takeWhile (\<lambda>e. fst e \<le> k) q) \<union> set (dropWhile (\<lambda>e. fst e \<le> k) q)"
    by (metis set_append takeWhile_dropWhile_id)
  then show ?thesis by (auto simp: sl_add_eq)
qed

lemma distinct_sl_add:
  "distinct (map snd q) \<Longrightarrow> v \<notin> snd ` set q \<Longrightarrow> distinct (map snd (sl_add k v q))"
proof -
  assume d: "distinct (map snd q)" and v: "v \<notin> snd ` set q"
  let ?A = "takeWhile (\<lambda>e. fst e \<le> k) q" and ?B = "dropWhile (\<lambda>e. fst e \<le> k) q"
  have "distinct (map snd ?A @ map snd ?B)"
    using d by (metis map_append takeWhile_dropWhile_id)
  moreover have "set ?A \<subseteq> set q" "set ?B \<subseteq> set q"
    by (auto dest: set_takeWhileD set_dropWhileD)
  ultimately show ?thesis using v
    by (auto simp: sl_add_eq simp del: takeWhile_dropWhile_id)
qed

lemma sorted_sl_add:
  assumes "sorted (map fst q)"
  shows "sorted (map fst (sl_add k v q))"
proof -
  let ?P = "\<lambda>e. fst e \<le> k"
  have sq: "sorted (map fst (takeWhile ?P q @ dropWhile ?P q))" using assms by simp
  have A: "\<forall>e \<in> set (takeWhile ?P q). fst e \<le> k"
    by (auto dest: set_takeWhileD)
  have B: "\<forall>e \<in> set (dropWhile ?P q). k \<le> fst e"
  proof (cases "dropWhile ?P q")
    case Nil
    show ?thesis unfolding Nil by simp
  next
    case (Cons e0 rest)
    then have q: "q = takeWhile ?P q @ e0 # rest" and "\<not> ?P e0"
      by (simp_all add: dropWhile_eq_Cons_conv)
    then have "k < fst e0" by simp
    moreover have "\<forall>z \<in> set rest. fst e0 \<le> fst z"
      using assms q by (metis (no_types, lifting) list.simps(9) sorted_append sorted_simps(2) map_append
        image_eqI list.set_map)
    ultimately show ?thesis using Cons by force
  qed
  show ?thesis
    using sq A B by (auto simp: sl_add_eq sorted_append simp del: takeWhile_dropWhile_id)
qed

section \<open>Queue invariant\<close>

lemma qi_but_fields:
  assumes "qi_but G st v"
    "\<forall>w. w \<noteq> v \<longrightarrow> g' w = g_of st w \<and> rhs' w = rhs_of st w \<and> key' w = key_of st w"
  shows "qi_but G (st\<lparr>g_of := g', rhs_of := rhs', key_of := key'\<rparr>) v"
proof -
  have eq: "\<And>w. w \<noteq> v \<Longrightarrow> g' w = g_of st w" "\<And>w. w \<noteq> v \<Longrightarrow> rhs' w = rhs_of st w"
    "\<And>w. w \<noteq> v \<Longrightarrow> key' w = key_of st w"
    using assms(2) by auto
  show ?thesis using assms(1) unfolding qi_but_def by (auto simp: eq)
qed

lemma distinct_map_remove1:
  "distinct (map f xs) \<Longrightarrow> distinct (map f (remove1 x xs))"
  by (induction xs) (auto dest: subsetD [OF set_remove1_subset])

lemma remove1_snd_notin:
  "v \<notin> snd ` set q \<Longrightarrow> remove1 (k, v) q = q"
  by (induction q) auto

lemma qi_but_discard:
  "qi_but G st v \<Longrightarrow> qi_but G (st\<lparr>queue := sl_discard k v (queue st)\<rparr>) v"
proof -
  assume a: "qi_but G st v"
  then have "v \<notin> snd ` set (queue st)" by (auto simp: qi_but_def)
  then show ?thesis using a by (simp add: sl_discard_def remove1_snd_notin)
qed

lemma queue_inv_discard:
  assumes "queue_inv G st"
  shows "qi_but G (st\<lparr>queue := sl_discard (key_of st v) v (queue st)\<rparr>) v"
proof -
  let ?q = "queue st"
  have d: "distinct (map snd ?q)" and s: "sorted (map fst ?q)"
    using assms by (auto simp: queue_inv_def)
  have dq: "distinct ?q" using d by (simp add: distinct_map)
  have notv: "\<forall>e \<in> set (remove1 (key_of st v, v) ?q). snd e \<noteq> v"
  proof
    fix e assume e: "e \<in> set (remove1 (key_of st v, v) ?q)"
    show "snd e \<noteq> v"
    proof
      assume sv: "snd e = v"
      have "e \<in> set ?q" "e \<noteq> (key_of st v, v)" using e dq by auto
      moreover have "fst e = key_of st (snd e)" using assms \<open>e \<in> set ?q\<close> by (auto simp: queue_inv_def)
      ultimately show False using sv by (metis prod.collapse)
    qed
  qed
  have ent: "\<forall>e \<in> set (remove1 (key_of st v, v) ?q). fst e = key_of st (snd e) \<and>
        fst e = calc_key (g_of st (snd e)) (rhs_of st (snd e)) (h_of st (snd e)) \<and>
        snd e \<in> set (vertices G)"
    using assms dq by (auto simp: queue_inv_def)
  have mem: "\<forall>w \<in> set (vertices G). w \<noteq> v \<longrightarrow>
      (w \<in> snd ` set (remove1 (key_of st v, v) ?q) \<longleftrightarrow> g_of st w \<noteq> rhs_of st w)"
  proof (intro ballI impI)
    fix w assume w: "w \<in> set (vertices G)" "w \<noteq> v"
    have "w \<in> snd ` set (remove1 (key_of st v, v) ?q) \<longleftrightarrow> w \<in> snd ` set ?q"
      using dq w(2) by force
    then show "w \<in> snd ` set (remove1 (key_of st v, v) ?q) \<longleftrightarrow> g_of st w \<noteq> rhs_of st w"
      using assms w(1) by (simp add: queue_inv_def)
  qed
  show ?thesis
    unfolding qi_but_def sl_discard_def
    using notv ent mem s d by (auto simp: sorted_map_remove1 distinct_map_remove1)
qed

lemma qi_but_rhs:
  "qi_but G st v \<Longrightarrow> qi_but G (st\<lparr>rhs_of := (rhs_of st)(v := r)\<rparr>) v"
  using qi_but_fields [of G st v "g_of st" "(rhs_of st)(v := r)" "key_of st"] by simp

lemma qi_but_g:
  "qi_but G st v \<Longrightarrow> qi_but G (st\<lparr>g_of := (g_of st)(v := r)\<rparr>) v"
  using qi_but_fields [of G st v "(g_of st)(v := r)" "rhs_of st" "key_of st"] by simp

lemma qi_but_key:
  "qi_but G st v \<Longrightarrow> qi_but G (st\<lparr>key_of := (key_of st)(v := k)\<rparr>) v"
  using qi_but_fields [of G st v "g_of st" "rhs_of st" "(key_of st)(v := k)"] by simp

lemma requeue_inv:
  assumes "qi_but G (st\<lparr>queue := sl_discard (key_of st v) v (queue st)\<rparr>) v" "v \<in> set (vertices G)"
  shows "queue_inv G (requeue st v)"
proof -
  let ?st2 = "st\<lparr>queue := sl_discard (key_of st v) v (queue st)\<rparr>"
  show ?thesis
  proof (cases "g_of st v \<noteq> rhs_of st v")
    case True
    let ?k = "calc_key (g_of st v) (rhs_of st v) (h_of st v)"
    let ?st3 = "?st2\<lparr>key_of := (key_of ?st2)(v := ?k)\<rparr>"
    have qb: "qi_but G ?st3 v" using qi_but_key [OF assms(1)] by simp
    then have notin: "v \<notin> snd ` set (queue ?st3)" by (auto simp: qi_but_def)
    have so: "sorted (map fst (sl_add ?k v (queue ?st3)))"
      using qb by (intro sorted_sl_add) (simp add: qi_but_def)
    have di: "distinct (map snd (sl_add ?k v (queue ?st3)))"
      using qb notin by (intro distinct_sl_add) (simp_all add: qi_but_def)
    have eq: "requeue st v = ?st3\<lparr>queue := sl_add ?k v (queue ?st3)\<rparr>"
      using True by (simp add: requeue_def calculate_key_def Let_def)
    have ent: "\<forall>e \<in> set (sl_add ?k v (queue ?st3)). fst e = ((key_of st)(v := ?k)) (snd e) \<and>
          fst e = calc_key (g_of st (snd e)) (rhs_of st (snd e)) (h_of st (snd e)) \<and> snd e \<in> set (vertices G)"
      using qb assms(2) by (auto simp: qi_but_def)
    have mem: "\<forall>w \<in> set (vertices G). w \<in> snd ` set (sl_add ?k v (queue ?st3)) \<longleftrightarrow> g_of st w \<noteq> rhs_of st w"
      using qb True by (auto simp: qi_but_def)
    show ?thesis
      unfolding eq queue_inv_def using so di ent mem by auto
  next
    case False
    then have "requeue st v = ?st2" by (simp add: requeue_def)
    then show ?thesis
      using assms False by (auto simp: queue_inv_def qi_but_def)
  qed
qed

lemma calculate_rhs_Inr:
  "calculate_rhs G st v = Inr st1 \<Longrightarrow> \<exists>r. st1 = st\<lparr>rhs_of := (rhs_of st)(v := r)\<rparr>"
  unfolding calculate_rhs_def by (cases "neighbors G v") auto

lemma qi_but_discard_same:
  assumes "queue_inv G st \<or> qi_but G st v"
  shows "qi_but G (st\<lparr>queue := sl_discard (key_of st v) v (queue st)\<rparr>) v"
  using assms
proof
  assume "queue_inv G st"
  then show ?thesis by (rule queue_inv_discard)
next
  assume "qi_but G st v"
  then show ?thesis by (rule qi_but_discard)
qed

lemma qi_but_discard_rhs:
  assumes "queue_inv G st \<or> qi_but G st v"
  shows "qi_but G (st\<lparr>rhs_of := (rhs_of st)(v := r), queue := sl_discard (key_of st v) v (queue st)\<rparr>) v"
proof -
  have eq: "st\<lparr>rhs_of := (rhs_of st)(v := r), queue := sl_discard (key_of st v) v (queue st)\<rparr> =
      st\<lparr>queue := sl_discard (key_of st v) v (queue st), rhs_of := (rhs_of st)(v := r)\<rparr>"
    by (cases st) simp
  show ?thesis unfolding eq using qi_but_rhs [OF qi_but_discard_same [OF assms], of r] by simp
qed

lemma update_vertex_inv:
  assumes "queue_inv G st \<or> qi_but G st v" "v \<in> set (vertices G)" "update_vertex G st v = Inr st'"
  shows "queue_inv G st'"
proof (cases "v \<noteq> goal st")
  case True
  then obtain st1 where st1: "calculate_rhs G st v = Inr st1" and st': "st' = requeue st1 v"
    using assms(3) by (auto simp: update_vertex_def rbind_eq_Inr)
  obtain r where r: "st1 = st\<lparr>rhs_of := (rhs_of st)(v := r)\<rparr>"
    using calculate_rhs_Inr [OF st1] by blast
  have "qi_but G (st1\<lparr>queue := sl_discard (key_of st1 v) v (queue st1)\<rparr>) v"
    using qi_but_discard_rhs [OF assms(1), of r] unfolding r by simp
  then show ?thesis
    unfolding st' by (rule requeue_inv [OF _ assms(2)])
next
  case False
  then have st': "st' = requeue st v"
    using assms(3) by (simp add: update_vertex_def)
  show ?thesis
    unfolding st' using requeue_inv [OF qi_but_discard_same [OF assms(1)] assms(2)] .
qed

lemma update_vertices_inv:
  "queue_inv G st \<Longrightarrow> set us \<subseteq> set (vertices G) \<Longrightarrow> update_vertices G st us = Inr st' \<Longrightarrow>
   queue_inv G st'"
proof (induction us arbitrary: st)
  case Nil
  then show ?case by simp
next
  case (Cons u us)
  then obtain st1 where st1: "update_vertex G st u = Inr st1" and rest: "update_vertices G st1 us = Inr st'"
    by (auto simp: rbind_eq_Inr)
  have "queue_inv G st1"
    using update_vertex_inv [OF _ _ st1] Cons.prems(1,2) by simp
  then show ?case using Cons.IH Cons.prems(2) rest by simp
qed

lemma qi_but_consistent:
  "qi_but G st v \<Longrightarrow> g_of st v = rhs_of st v \<Longrightarrow> queue_inv G st"
  unfolding qi_but_def queue_inv_def by fastforce

lemma queue_inv_key_current:
  assumes "queue_inv G st"
  shows "queue_inv G (fst (calculate_key st v))"
  using assms unfolding queue_inv_def calculate_key_def Let_def by auto

lemma loop_test_inv:
  "queue_inv G st \<Longrightarrow> queue_inv G (fst (loop_test st))"
  using queue_inv_key_current [of G st "current st"]
  by (auto simp: loop_test_def Let_def split: prod.splits)

lemma loop_test_fields:
  "queue (fst (loop_test st)) = queue st \<and> current (fst (loop_test st)) = current st \<and>
   g_of (fst (loop_test st)) = g_of st \<and> rhs_of (fst (loop_test st)) = rhs_of st \<and>
   h_of (fst (loop_test st)) = h_of st \<and> goal (fst (loop_test st)) = goal st"
  by (auto simp: loop_test_def calculate_key_def Let_def)

lemma queue_inv_pop:
  assumes "queue_inv G st" "queue st = e # q"
  shows "qi_but G (st\<lparr>queue := q\<rparr>) (snd e)" "snd e \<in> set (vertices G)"
proof -
  have "sorted (map fst (queue st))" "distinct (map snd (queue st))"
    using assms(1) unfolding queue_inv_def by blast+
  then have s: "sorted (map fst q)" and d: "distinct (map snd (e # q))"
    unfolding assms(2) by simp_all
  have ent: "\<forall>x \<in> set q. fst x = key_of st (snd x) \<and>
      fst x = calc_key (g_of st (snd x)) (rhs_of st (snd x)) (h_of st (snd x)) \<and> snd x \<in> set (vertices G)"
    using assms by (auto simp: queue_inv_def)
  have mem: "\<forall>w \<in> set (vertices G). w \<noteq> snd e \<longrightarrow> (w \<in> snd ` set q \<longleftrightarrow> g_of st w \<noteq> rhs_of st w)"
    using assms by (auto simp: queue_inv_def)
  show "qi_but G (st\<lparr>queue := q\<rparr>) (snd e)"
    unfolding qi_but_def using d s ent mem by (auto intro: rev_image_eqI)
  show "snd e \<in> set (vertices G)" using assms by (auto simp: queue_inv_def)
qed

lemma neighbors_closed:
  "graph_closed G \<Longrightarrow> v \<in> set (vertices G) \<Longrightarrow> set (neighbors G v) \<subseteq> set (vertices G)"
  by (simp add: graph_closed_def)

lemma compute_step_inv:
  assumes "queue_inv G st" "graph_closed G" "compute_step G st = Inr st'"
  shows "queue_inv G st'"
proof -
  obtain e q where eq: "queue st = e # q"
    using assms(3) by (cases "queue st") (auto simp: compute_step_def)
  let ?v = "snd e" and ?st1 = "st\<lparr>queue := q\<rparr>"
  have qb: "qi_but G ?st1 ?v" and vV: "?v \<in> set (vertices G)"
    using queue_inv_pop [OF assms(1) eq] by simp_all
  have ns: "set (neighbors G ?v) \<subseteq> set (vertices G)"
    using neighbors_closed [OF assms(2) vV] .
  show ?thesis
  proof (cases "g_of st ?v > rhs_of st ?v")
    case True
    let ?st2 = "?st1\<lparr>g_of := (g_of ?st1)(?v := rhs_of ?st1 ?v)\<rparr>"
    have "queue_inv G ?st2"
      using qi_but_consistent [OF qi_but_g [OF qb]] by simp
    moreover have "update_vertices G ?st2 (neighbors G ?v) = Inr st'"
      using assms(3) True by (simp add: compute_step_def eq Let_def)
    ultimately show ?thesis using update_vertices_inv ns by blast
  next
    case False
    let ?st2 = "?st1\<lparr>g_of := (g_of ?st1)(?v := Inf)\<rparr>"
    obtain st3 where st3: "update_vertex G ?st2 ?v = Inr st3"
      and rest: "update_vertices G st3 (neighbors G ?v) = Inr st'"
      using assms(3) False by (auto simp: compute_step_def eq Let_def rbind_eq_Inr)
    have "queue_inv G st3"
      using update_vertex_inv [OF _ vV st3] qi_but_g [OF qb] by simp
    then show ?thesis using update_vertices_inv ns rest by blast
  qed
qed

lemma loop_test_false_post:
  assumes "queue_inv G st" "\<not> snd (loop_test st)"
  shows "g_of st (current st) = rhs_of st (current st) \<and>
    (\<forall>e \<in> set (queue st). calc_key (g_of st (current st)) (rhs_of st (current st)) (h_of st (current st)) \<le> fst e)"
proof (cases "queue st")
  case Nil
  then show ?thesis using assms(2) by (simp add: loop_test_def)
next
  case (Cons e0 q)
  let ?kc = "calc_key (g_of st (current st)) (rhs_of st (current st)) (h_of st (current st))"
  have "snd (loop_test st) = (key_of st (snd e0) < ?kc \<or> g_of st (current st) \<noteq> rhs_of st (current st))"
    using Cons by (simp add: loop_test_def calculate_key_def Let_def)
  then have "\<not> (key_of st (snd e0) < ?kc \<or> g_of st (current st) \<noteq> rhs_of st (current st))"
    using assms(2) by metis
  then have top: "\<not> key_of st (snd e0) < ?kc" and gr: "g_of st (current st) = rhs_of st (current st)"
    by blast+
  have "sorted (map fst (queue st))" "\<forall>e \<in> set (queue st). fst e = key_of st (snd e)"
    using assms(1) unfolding queue_inv_def by blast+
  then have so: "\<forall>e \<in> set q. fst e0 \<le> fst e" and k0: "fst e0 = key_of st (snd e0)"
    unfolding Cons by simp_all
  have "?kc \<le> fst e0" using top unfolding k0 by simp
  moreover note so
  ultimately show ?thesis using gr Cons by auto
qed

lemma compute_path_Suc_cases:
  assumes "compute_path (Suc n) G st = Some (Inr st')"
  shows "(snd (loop_test st) \<and> (\<exists>st2. compute_step G (fst (loop_test st)) = Inr st2 \<and>
            compute_path n G st2 = Some (Inr st'))) \<or>
         (\<not> snd (loop_test st) \<and> st' = fst (loop_test st))"
  using assms by (auto simp: split_beta split: if_splits sum.splits)

lemma loop_test_idem:
  "\<not> snd (loop_test s) \<Longrightarrow> loop_test (fst (loop_test s)) = (fst (loop_test s), False)"
  by (auto simp: loop_test_def calculate_key_def Let_def split: if_splits)


section \<open>Example run\<close>

lemma ex_run: "compute_path 3 ex_graph ex_start = Some (Inr ex_final)"
  by (simp add: ex_graph_def ex_start_def ex_final_def loop_test_def compute_step_def calculate_key_def
      update_vertex_def requeue_def calculate_rhs_def edge_cost_def cost_def distance_def sl_add_def
      sl_discard_def insert_at_def calc_key_def numeral_eq_Suc fun_eq_iff Let_def)

lemma ex_inv: "queue_inv ex_graph ex_start \<and> graph_closed ex_graph"
  by (simp add: queue_inv_def graph_closed_def ex_graph_def ex_start_def calc_key_def)

section \<open>Properties of \<open>compute_path\<close>\<close>

lemma distance_pos: "p1 \<noteq> p2 \<Longrightarrow> 0 < distance p1 p2"
  by (cases p1, cases p2) (auto simp: distance_def sum_power2_gt_zero_iff)

lemma cost_free: "cost p1 0 p2 0 = distance p1 p2"
  by (simp add: cost_def)

text \<open>
  C12. Partial correctness of \<open>DStarLiteSolver.compute_path\<close>: from a state satisfying
  the queue invariant over a graph whose neighbour lists stay in the graph, a normal
  return leaves the invariant in place, the robot's cell locally consistent
  (\<open>g = rhs\<close>), and its key no greater than any queued key: the D* Lite exit condition.
\<close>

lemma compute_path_correct:
  "compute_path n G st = Some (Inr st') \<Longrightarrow> queue_inv G st \<Longrightarrow> graph_closed G \<Longrightarrow>
   queue_inv G st' \<and> g_of st' (current st') = rhs_of st' (current st') \<and>
   (\<forall>e \<in> set (queue st'). calc_key (g_of st' (current st')) (rhs_of st' (current st'))
                                    (h_of st' (current st')) \<le> fst e)"
proof (induction n G st rule: compute_path.induct)
  case (1 G st)
  then show ?case by simp
next
  case (2 n G st)
  have inv1: "queue_inv G (fst (loop_test st))" using loop_test_inv [OF "2.prems"(2)] .
  from compute_path_Suc_cases [OF "2.prems"(1)] show ?case
  proof
    assume "snd (loop_test st) \<and> (\<exists>st2. compute_step G (fst (loop_test st)) = Inr st2 \<and>
            compute_path n G st2 = Some (Inr st'))"
    then obtain st2 where c: "snd (loop_test st)" and s: "compute_step G (fst (loop_test st)) = Inr st2"
      and p: "compute_path n G st2 = Some (Inr st')" by blast
    have inv2: "queue_inv G st2" using compute_step_inv [OF inv1 "2.prems"(3) s] .
    show ?case using "2.IH" [OF refl prod.collapse c s p inv2 "2.prems"(3)] .
  next
    assume a: "\<not> snd (loop_test st) \<and> st' = fst (loop_test st)"
    then have post: "g_of st (current st) = rhs_of st (current st) \<and>
      (\<forall>e \<in> set (queue st). calc_key (g_of st (current st)) (rhs_of st (current st)) (h_of st (current st)) \<le> fst e)"
      using loop_test_false_post [OF "2.prems"(2)] a by blast
    from a have st': "st' = fst (loop_test st)" by blast
    have f: "queue st' = queue st" "current st' = current st" "g_of st' = g_of st"
      "rhs_of st' = rhs_of st" "h_of st' = h_of st"
      using loop_test_fields [of st] unfolding st' by simp_all
    show ?case unfolding f using inv1 st' post by blast
  qed
qed

lemma compute_path_correct_witness:
  "g_of ex_final (current ex_final) = rhs_of ex_final (current ex_final)"
  using compute_path_correct [OF ex_run ex_inv [THEN conjunct1] ex_inv [THEN conjunct2]] by blast

text \<open>
  \<open>self.queue.pop(0)\<close> in the loop body never meets an empty queue: under the
  queue invariant, when the loop test holds and the robot's cell is a vertex, the queue is
  not empty, so the \<open>IndexError\<close> of an empty queue cannot arise from a well-formed state.
\<close>

lemma loop_test_queue_nonempty:
  assumes "queue_inv G st" "current st \<in> set (vertices G)" "snd (loop_test st)"
  shows "queue st \<noteq> []"
proof
  assume e: "queue st = []"
  then have "g_of st (current st) \<noteq> rhs_of st (current st)"
    using assms(3) by (simp add: loop_test_def)
  then have "current st \<in> snd ` set (queue st)"
    using assms(1,2) by (simp add: queue_inv_def)
  then show False using e by simp
qed

lemma loop_test_queue_nonempty_witness: "queue ex_start \<noteq> []"
  using loop_test_queue_nonempty [of ex_graph ex_start]
  by (simp add: ex_inv [THEN conjunct1] ex_graph_def ex_start_def loop_test_def calculate_key_def calc_key_def Let_def)

text \<open>
  Idempotence: once \<open>compute_path\<close> has returned, calling it again on its result
  stops at the first loop test and returns the same state (no queue operation, no
  change of \<open>g\<close> or \<open>rhs\<close>).
\<close>

lemma compute_path_idem:
  "compute_path n G st = Some (Inr st') \<Longrightarrow> compute_path (Suc m) G st' = Some (Inr st')"
proof (induction n G st rule: compute_path.induct)
  case (1 G st)
  then show ?case by simp
next
  case (2 n G st)
  from compute_path_Suc_cases [OF "2.prems"] show ?case
  proof
    assume "snd (loop_test st) \<and> (\<exists>st2. compute_step G (fst (loop_test st)) = Inr st2 \<and>
            compute_path n G st2 = Some (Inr st'))"
    then obtain st2 where c: "snd (loop_test st)" and s: "compute_step G (fst (loop_test st)) = Inr st2"
      and p: "compute_path n G st2 = Some (Inr st')" by blast
    show ?case using "2.IH" [OF refl prod.collapse c s p] .
  next
    assume a: "\<not> snd (loop_test st) \<and> st' = fst (loop_test st)"
    then show ?case using loop_test_idem [of st] by (simp add: split_beta)
  qed
qed

lemma compute_path_idem_witness: "compute_path (Suc 0) ex_graph ex_final = Some (Inr ex_final)"
  using compute_path_idem [OF ex_run, of 0] .

text \<open>
  C13. Error path: with an empty queue and an inconsistent robot cell the loop test holds
  and \<open>self.queue.pop(0)\<close> raises \<open>IndexError\<close>; no \<open>PlanningFailure\<close> value is
  produced.
\<close>

lemma compute_path_empty_queue:
  "queue st = [] \<Longrightarrow> g_of st (current st) \<noteq> rhs_of st (current st) \<Longrightarrow>
   compute_path (Suc n) G st = Some (Inl IndexError)"
  by (simp add: loop_test_def compute_step_def)

lemma compute_path_empty_queue_witness:
  "compute_path (Suc 0) ex_graph (ex_final\<lparr>g_of := (g_of ex_final)(1 := Inf)\<rparr>) = Some (Inl IndexError)"
  by (rule compute_path_empty_queue) (simp_all add: ex_final_def)

text \<open>
  C14. The edge cost \<open>cost(node1, node2)\<close> is not monotone in the occupancy of its
  target: entering a blocked cell (\<open>value = 1\<close>) from a free one costs less than entering
  a free one, while leaving a blocked cell costs more; by operator precedence the factor
  of \<open>node2\<close> multiplies the quotient instead of dividing.
\<close>

lemma cost_blocked_asymmetry:
  assumes "p1 \<noteq> p2"
  shows "cost p1 0 p2 1 < cost p1 0 p2 0 \<and> cost p1 0 p2 0 < cost p1 1 p2 0"
proof -
  have d: "0 < distance p1 p2" using distance_pos [OF assms] .
  have "cost p1 0 p2 1 = distance p1 p2 / (1 + 1/1000000) * (1/1000000)" by (simp add: cost_def)
  moreover have "cost p1 1 p2 0 = distance p1 p2 / (1/1000000) * (1 + 1/1000000)" by (simp add: cost_def)
  ultimately show ?thesis using d by (simp add: cost_free)
qed

lemma cost_blocked_asymmetry_witness:
  "cost (0, 0) 0 (1, 0) 1 < cost (0, 0) 0 (1, 0) 0 \<and> cost (0, 0) 0 (1, 0) 0 < cost (0, 0) 1 (1, 0) 0"
  using cost_blocked_asymmetry [of "(0, 0)" "(1, 0)"] by simp

end
