(* ===== verification/SolverPath.thy ===== *)
theory SolverPath
  imports Solver
begin

text \<open>
  The rest of \<open>src/Solver.py\<close>: the greedy path extraction of both solvers
  (\<open>show_path\<close>: from the robot's cell, step to the neighbour of least \<open>g\<close>, or of least
  \<open>rhs\<close> for A*, until the goal), \<open>DStarLiteSolver.replan_path\<close> (re-classify the
  robot's neighbours against the detected obstacles, update the changed vertices and their
  neighbours, extract a new path) and \<open>AStarSolver.compute_path\<close> (a best-first search
  from the goal with a set of visited positions, stopping when the robot's cell is popped).

  All three loops are \<open>while\<close> loops of the source; they carry fuel, \<open>None\<close> being a
  loop that has not finished. The lemmas show how much fuel is enough: the A* search ends
  within one pop per vertex, and a greedy walk along a strictly descending landscape ends
  within one step per vertex; the replanning loop is characterised cell by cell.
\<close>

section \<open>Greedy path extraction\<close>

text \<open>
  \<open>path = [current]; while current != goal: current = min(current.neighbors, key=f);
  path.append(current)\<close>. \<open>min\<close> of an empty neighbour list raises \<open>ValueError\<close>.
\<close>

fun greedy_walk :: "nat \<Rightarrow> ('v \<Rightarrow> 'v list) \<Rightarrow> ('v \<Rightarrow> ext) \<Rightarrow> 'v \<Rightarrow> 'v \<Rightarrow> 'v list outcome" where
  "greedy_walk 0 nb f gl cur = None"
| "greedy_walk (Suc n) nb f gl cur =
     (if cur = gl then Some (Inr [cur])
      else (case nb cur of
              [] \<Rightarrow> Some (Inl ValueError)
            | m # ms \<Rightarrow> map_option (map_sum id ((#) cur)) (greedy_walk n nb f gl (min_by f m ms))))"

text \<open>\<open>DStarLiteSolver.show_path\<close>: \<open>compute_path\<close>, then the walk along \<open>g\<close>.\<close>

definition ds_show_path :: "nat \<Rightarrow> 'v graph \<Rightarrow> 'v dstar \<Rightarrow> ('v dstar \<times> 'v list) outcome" where
  "ds_show_path n G st =
     obind (compute_path n G st) (\<lambda>st'.
       obind (greedy_walk n (neighbors G) (g_of st') (goal st') (current st')) (\<lambda>p. Some (Inr (st', p))))"

section \<open>\<open>DStarLiteSolver.replan_path\<close>\<close>

definition threshold :: real where
  "threshold = 1/1000"

text \<open>
  The inner loop over the obstacles for one neighbour \<open>n\<close>: add
  \<open>n.get_intersect_percentage(obstacle)\<close> and stop (\<open>break\<close>) as soon as the sum
  reaches the threshold. The result is the sum and whether the loop broke.
\<close>

fun pct_loop :: "'a aabb_scheme \<Rightarrow> 'b aabb_scheme list \<Rightarrow> real \<Rightarrow> (real \<times> bool) result" where
  "pct_loop b [] percentage = Inr (percentage, False)"
| "pct_loop b (ob # obs) percentage =
     rbind (get_intersect_percentage b ob) (\<lambda>p.
       if threshold \<le> percentage + p then Inr (percentage + p, True)
       else pct_loop b obs (percentage + p))"

text \<open>
  One iteration of the outer loop: after a \<open>break\<close> the cell becomes blocked, and a
  cell whose sum stayed below the threshold becomes free; the cell is appended to
  \<open>changes\<close> when its value was not already the new one (\<open>if n.value:\<close> is true for
  -1 and 1).
\<close>

definition mark_neighbor ::
  "'v graph \<Rightarrow> 'b aabb_scheme list \<Rightarrow> 'v dstar \<times> 'v list \<Rightarrow> 'v \<Rightarrow> ('v dstar \<times> 'v list) result" where
  "mark_neighbor G obstacles acc n =
     (let (st, changes) = acc in
      rbind (pct_loop (box_at G n) obstacles 0) (\<lambda>(percentage, broke).
        let (st1, ch1) =
              (if broke \<and> value_of st n \<noteq> 1
               then (st\<lparr>value_of := (value_of st)(n := 1)\<rparr>, changes @ [n]) else (st, changes))
        in Inr (if percentage < threshold
                then (st1\<lparr>value_of := (value_of st1)(n := 0)\<rparr>,
                      if value_of st1 n \<noteq> 0 then ch1 @ [n] else ch1)
                else (st1, ch1))))"

fun mark_loop ::
  "'v graph \<Rightarrow> 'b aabb_scheme list \<Rightarrow> 'v list \<Rightarrow> 'v dstar \<times> 'v list \<Rightarrow> ('v dstar \<times> 'v list) result" where
  "mark_loop G obstacles [] acc = Inr acc"
| "mark_loop G obstacles (n # ns) acc = rbind (mark_neighbor G obstacles acc n) (mark_loop G obstacles ns)"

text \<open>\<open>for change in changes: update_vertex(change); for n in change.neighbors: update_vertex(n)\<close>.\<close>

fun apply_changes :: "'v graph \<Rightarrow> 'v dstar \<Rightarrow> 'v list \<Rightarrow> 'v dstar result" where
  "apply_changes G st [] = Inr st"
| "apply_changes G st (c # cs) =
     rbind (update_vertex G st c) (\<lambda>st1.
       rbind (update_vertices G st1 (neighbors G c)) (\<lambda>st2. apply_changes G st2 cs))"

definition ds_replan_path ::
  "nat \<Rightarrow> 'v graph \<Rightarrow> 'v dstar \<Rightarrow> 'b aabb_scheme list \<Rightarrow> ('v dstar \<times> 'v list) outcome" where
  "ds_replan_path n G st obstacles =
     obind (Some (mark_loop G obstacles (neighbors G (current st)) (st, []))) (\<lambda>(st1, changes).
       obind (Some (apply_changes G st1 changes)) (\<lambda>st2. ds_show_path n G st2))"

section \<open>\<open>AStarSolver\<close>\<close>

text \<open>
  The relaxation of a neighbour \<open>u\<close> of the popped vertex \<open>v\<close> whose position is
  not visited: \<open>queue.discard(u)\<close>, \<open>u.rhs = min(u.rhs, v.rhs + cost(u, v))\<close>,
  \<open>u.calculate_key()\<close>, \<open>queue.add(u)\<close>.
\<close>

definition astar_relax :: "'v graph \<Rightarrow> 'v \<Rightarrow> (real \<times> real) set \<Rightarrow> 'v dstar \<Rightarrow> 'v \<Rightarrow> 'v dstar" where
  "astar_relax G v visited st u =
     (if pos G u \<notin> visited then
        (let st1 = st\<lparr>queue := sl_discard (key_of st u) u (queue st)\<rparr>;
             st2 = st1\<lparr>rhs_of := (rhs_of st1)(u := min (rhs_of st1 u) (rhs_of st1 v + Fin (edge_cost G st1 u v)))\<rparr>;
             (st3, k) = calculate_key st2 u
         in st3\<lparr>queue := sl_add k u (queue st3)\<rparr>)
      else st)"

text \<open>
  \<open>while self.queue: v = self.queue.pop(0); if v == current: break;
  visited.add((v.x, v.y)); for u in v.neighbors: ...\<close>.
\<close>

fun astar_loop :: "nat \<Rightarrow> 'v graph \<Rightarrow> (real \<times> real) set \<Rightarrow> 'v dstar \<Rightarrow> 'v dstar option" where
  "astar_loop 0 G visited st = None"
| "astar_loop (Suc n) G visited st =
     (case queue st of
        [] \<Rightarrow> Some st
      | e # q \<Rightarrow>
          (let v = snd e; st1 = st\<lparr>queue := q\<rparr> in
           if v = current st1 then Some st1
           else (let visited' = insert (pos G v) visited
                 in astar_loop n G visited' (fold (\<lambda>u s. astar_relax G v visited' s u) (neighbors G v) st1))))"

definition astar_compute_path :: "nat \<Rightarrow> 'v graph \<Rightarrow> 'v dstar \<Rightarrow> 'v dstar option" where
  "astar_compute_path n G st = astar_loop n G {} st"

text \<open>\<open>AStarSolver.show_path\<close> (and \<open>replan_path\<close>, which only calls it): the walk along \<open>rhs\<close>.\<close>

definition astar_show_path :: "nat \<Rightarrow> 'v graph \<Rightarrow> 'v dstar \<Rightarrow> ('v dstar \<times> 'v list) outcome" where
  "astar_show_path n G st =
     (case astar_compute_path n G st of
        None \<Rightarrow> None
      | Some st' \<Rightarrow> obind (greedy_walk n (neighbors G) (rhs_of st') (goal st') (current st'))
                     (\<lambda>p. Some (Inr (st', p))))"

definition astar_replan_path :: "nat \<Rightarrow> 'v graph \<Rightarrow> 'v dstar \<Rightarrow> 'b aabb_scheme list \<Rightarrow> ('v dstar \<times> 'v list) outcome" where
  "astar_replan_path n G st obstacles = astar_show_path n G st"

section \<open>Specifications\<close>

text \<open>
  The A* search state: queued vertices are distinct vertices of the graph, stored under
  their \<open>key\<close> attribute, at positions not yet visited.
\<close>

definition astar_inv :: "'v graph \<Rightarrow> (real \<times> real) set \<Rightarrow> 'v dstar \<Rightarrow> bool" where
  "astar_inv G visited st \<longleftrightarrow>
     distinct (map snd (queue st)) \<and>
     (\<forall>e \<in> set (queue st). fst e = key_of st (snd e) \<and> snd e \<in> set (vertices G) \<and> pos G (snd e) \<notin> visited)"


text \<open>A landscape in which every non-goal vertex has a neighbour of strictly smaller value.\<close>

definition descending :: "'v graph \<Rightarrow> ('v \<Rightarrow> ext) \<Rightarrow> 'v \<Rightarrow> bool" where
  "descending G f gl \<longleftrightarrow>
     (\<forall>v \<in> set (vertices G). v \<noteq> gl \<longrightarrow>
        neighbors G v \<noteq> [] \<and> set (neighbors G v) \<subseteq> set (vertices G) \<and>
        f (min_by f (hd (neighbors G v)) (tl (neighbors G v))) < f v)"


text \<open>
  The sum of the shares of a cell covered by the obstacles, and the value
  \<open>replan_path\<close> should give the cell: blocked when the sum reaches the threshold.
\<close>

definition pct_sum :: "'v graph \<Rightarrow> 'b aabb_scheme list \<Rightarrow> 'v \<Rightarrow> real" where
  "pct_sum G obstacles n =
     sum_list (map (\<lambda>ob. get_intersect_area (box_at G n) ob / get_area (box_at G n)) obstacles)"

definition new_value :: "'v graph \<Rightarrow> 'b aabb_scheme list \<Rightarrow> 'v \<Rightarrow> int" where
  "new_value G obstacles n = (if threshold \<le> pct_sum G obstacles n then 1 else 0)"


section \<open>\<open>AStarSolver.compute_path\<close> returns\<close>

lemma remove1_key_notin:
  "distinct (map snd q) \<Longrightarrow> \<forall>e \<in> set q. snd e = u \<longrightarrow> fst e = k \<Longrightarrow> u \<notin> snd ` set (remove1 (k, u) q)"
proof (induction q)
  case Nil
  then show ?case by simp
next
  case (Cons e q)
  have IH: "u \<notin> snd ` set (remove1 (k, u) q)" using Cons by simp
  show ?case
  proof (cases "e = (k, u)")
    case True
    then show ?thesis using Cons.prems(1) by simp
  next
    case False
    then have "snd e \<noteq> u" using Cons.prems(2) by (cases e) auto
    then show ?thesis using IH False by simp
  qed
qed

lemma astar_relax_inv:
  assumes "astar_inv G vis st" "u \<in> set (vertices G)"
  shows "astar_inv G vis (astar_relax G v vis st u)"
proof (cases "pos G u \<in> vis")
  case True
  then show ?thesis using assms(1) by (simp add: astar_relax_def)
next
  case False
  let ?q1 = "remove1 (key_of st u, u) (queue st)"
  have d: "distinct (map snd (queue st))" and k: "\<forall>e \<in> set (queue st). snd e = u \<longrightarrow> fst e = key_of st u"
    using assms(1) by (auto simp: astar_inv_def)
  have d1: "distinct (map snd ?q1)" using d by (rule distinct_map_remove1)
  have u1: "u \<notin> snd ` set ?q1" using remove1_key_notin [OF d k] .
  have sub: "set ?q1 \<subseteq> set (queue st)" by (rule set_remove1_subset)
  let ?R = "(rhs_of st)(u := min (rhs_of st u) (rhs_of st v + Fin (edge_cost G st u v)))"
  let ?k = "calc_key (g_of st u) (?R u) (h_of st u)"
  have eq: "astar_relax G v vis st u =
      st\<lparr>queue := sl_add ?k u ?q1, rhs_of := ?R, key_of := (key_of st)(u := ?k)\<rparr>"
    using False unfolding astar_relax_def sl_discard_def calculate_key_def edge_cost_def Let_def by simp
  have d2: "distinct (map snd (sl_add ?k u ?q1))" using d1 u1 by (rule distinct_sl_add)
  have rest: "fst e = key_of st (snd e) \<and> snd e \<in> set (vertices G) \<and> pos G (snd e) \<notin> vis \<and> snd e \<noteq> u"
    if e: "e \<in> set ?q1" for e
  proof -
    have "e \<in> set (queue st)" using sub e by blast
    moreover have "snd e \<noteq> u" using e u1 by (metis imageI)
    ultimately show ?thesis using assms(1) by (simp add: astar_inv_def)
  qed
  define st' where "st' = st\<lparr>queue := sl_add ?k u ?q1, rhs_of := ?R, key_of := (key_of st)(u := ?k)\<rparr>"
  have "fst e = key_of st' (snd e) \<and> snd e \<in> set (vertices G) \<and> pos G (snd e) \<notin> vis"
    if "e \<in> set (queue st')" for e
  proof -
    have "e = (?k, u) \<or> e \<in> set ?q1" using that by (simp add: st'_def)
    then show ?thesis
    proof
      assume "e = (?k, u)"
      then show ?thesis using False assms(2) by (simp add: st'_def)
    next
      assume "e \<in> set ?q1"
      then show ?thesis using rest [of e] by (simp add: st'_def)
    qed
  qed
  moreover have "distinct (map snd (queue st'))" using d2 by (simp add: st'_def)
  ultimately show ?thesis unfolding eq st'_def [symmetric] astar_inv_def by blast
qed

lemma fold_astar_relax_inv:
  "astar_inv G vis st \<Longrightarrow> set us \<subseteq> set (vertices G) \<Longrightarrow>
   astar_inv G vis (fold (\<lambda>u s. astar_relax G v vis s u) us st)"
  by (induction us arbitrary: st) (auto intro: astar_relax_inv)

lemma astar_pop_inv:
  assumes "astar_inv G vis st" "queue st = e # q" "inj_on (pos G) (set (vertices G))"
  shows "astar_inv G (insert (pos G (snd e)) vis) (st\<lparr>queue := q\<rparr>)"
proof -
  have "pos G (snd e') \<noteq> pos G (snd e)" if "e' \<in> set q" for e'
  proof
    assume "pos G (snd e') = pos G (snd e)"
    moreover have "snd e' \<in> set (vertices G)" "snd e \<in> set (vertices G)"
      using assms(1,2) that by (auto simp: astar_inv_def)
    moreover have "snd e' \<noteq> snd e"
    proof -
      have "snd e \<notin> snd ` set q" using assms(1,2) by (simp add: astar_inv_def)
      then show ?thesis using that by (metis imageI)
    qed
    ultimately show False using assms(3) by (auto dest: inj_onD)
  qed
  then show ?thesis using assms(1,2) by (auto simp: astar_inv_def)
qed

lemma card_insert_less:
  assumes "x \<in> A" "x \<notin> B" "finite A"
  shows "card (A - insert x B) < card (A - B)"
proof -
  have "A - insert x B = (A - B) - {x}" by blast
  moreover have "card ((A - B) - {x}) < card (A - B)"
    using assms by (intro card_Diff1_less) auto
  ultimately show ?thesis by simp
qed

lemma card_pos_vertices_le: "card (pos G ` set (vertices G) - {}) \<le> length (vertices G)"
  by (metis Diff_empty List.finite_set card_image_le card_length order_trans)

lemma astar_loop_returns:
  assumes "astar_inv G vis st" "graph_closed G" "inj_on (pos G) (set (vertices G))"
    "card (pos G ` set (vertices G) - vis) < n"
  shows "\<exists>st'. astar_loop n G vis st = Some st'"
  using assms(1,4)
proof (induction n arbitrary: vis st)
  case 0
  then show ?case by simp
next
  case (Suc n)
  show ?case
  proof (cases "queue st")
    case Nil
    then show ?thesis by simp
  next
    case (Cons e q)
    let ?v = "snd e" and ?vis = "insert (pos G (snd e)) vis"
    have v: "?v \<in> set (vertices G)" "pos G ?v \<notin> vis" using Suc.prems(1) Cons by (auto simp: astar_inv_def)
    have inv: "astar_inv G ?vis (fold (\<lambda>u s. astar_relax G ?v ?vis s u) (neighbors G ?v) (st\<lparr>queue := q\<rparr>))"
      using assms(2) v(1)
      by (intro fold_astar_relax_inv astar_pop_inv [OF Suc.prems(1) Cons assms(3)]) (auto simp: graph_closed_def)
    have "card (pos G ` set (vertices G) - ?vis) < card (pos G ` set (vertices G) - vis)"
      using v by (intro card_insert_less) auto
    then have "card (pos G ` set (vertices G) - ?vis) < n" using Suc.prems(2) by simp
    then show ?thesis using Suc.IH [OF inv] Cons by (simp add: Let_def)
  qed
qed

text \<open>
  C26. \<open>AStarSolver.compute_path\<close> returns: started with a queue of distinct, unvisited
  vertices of a graph whose neighbour lists stay in the graph and whose cells have distinct
  centres, the loop stops within one iteration per vertex, plus one. Each popped vertex
  that is not the robot's cell adds a new position to \<open>visited\<close>, and relaxed vertices
  are re-queued only at unvisited positions.
\<close>

theorem astar_compute_path_terminates:
  assumes "astar_inv G {} st" "graph_closed G" "inj_on (pos G) (set (vertices G))"
  shows "\<exists>st'. astar_compute_path (Suc (length (vertices G))) G st = Some st'"
proof -
  have "card (pos G ` set (vertices G) - {}) \<le> length (vertices G)"
    by (rule card_pos_vertices_le)
  then show ?thesis unfolding astar_compute_path_def
    by (intro astar_loop_returns [OF assms]) simp
qed

theorem astar_compute_path_terminates_witness: "\<exists>st'. astar_compute_path 3 ex_graph ex_start = Some st'"
  using astar_compute_path_terminates [of ex_graph ex_start]
  by (simp add: astar_inv_def graph_closed_def ex_graph_def ex_start_def numeral_3_eq_3)

section \<open>The greedy walk reaches the goal\<close>

lemma greedy_walk_returns:
  assumes "descending G f gl" "cur \<in> set (vertices G)"
    "card {w \<in> set (vertices G). f w < f cur} < n"
  shows "\<exists>p. greedy_walk n (neighbors G) f gl cur = Some (Inr p) \<and> p \<noteq> [] \<and> hd p = cur \<and> last p = gl"
  using assms(2,3)
proof (induction n arbitrary: cur)
  case 0
  then show ?case by simp
next
  case (Suc n)
  show ?case
  proof (cases "cur = gl")
    case True
    then show ?thesis by simp
  next
    case False
    have d: "neighbors G cur \<noteq> [] \<and> set (neighbors G cur) \<subseteq> set (vertices G) \<and>
        f (min_by f (hd (neighbors G cur)) (tl (neighbors G cur))) < f cur"
      using assms(1) Suc.prems(1) False unfolding descending_def by blast
    then obtain m ms where nb: "neighbors G cur = m # ms" by (cases "neighbors G cur") auto
    let ?nx = "min_by f m ms"
    have lt: "f ?nx < f cur" and sub: "set (m # ms) \<subseteq> set (vertices G)"
      using d nb by simp_all
    have nxv: "?nx \<in> set (vertices G)" using min_by_in [of f m ms] sub by blast
    have "{w \<in> set (vertices G). f w < f ?nx} \<subset> {w \<in> set (vertices G). f w < f cur}"
      using lt nxv by auto
    then have "card {w \<in> set (vertices G). f w < f ?nx} < card {w \<in> set (vertices G). f w < f cur}"
      by (intro psubset_card_mono) auto
    then obtain p where "greedy_walk n (neighbors G) f gl ?nx = Some (Inr p)" "p \<noteq> []" "last p = gl"
      using Suc.IH [OF nxv] Suc.prems(2) by auto
    then show ?thesis using False nb by simp
  qed
qed

text \<open>
  C19. The greedy extraction of \<open>show_path\<close> reaches the goal: on a landscape where
  every cell but the goal has a neighbour of strictly smaller value (\<open>descending\<close>),
  \<open>min(current.neighbors, key=...)\<close> strictly decreases the value, no cell repeats, and
  fuel of one more than the number of vertices gives a path from the robot's cell to the goal.
\<close>

theorem greedy_walk_reaches_goal:
  assumes "descending G f gl" "cur \<in> set (vertices G)"
  shows "\<exists>p. greedy_walk (Suc (length (vertices G))) (neighbors G) f gl cur = Some (Inr p) \<and>
           p \<noteq> [] \<and> hd p = cur \<and> last p = gl"
proof -
  have "card {w \<in> set (vertices G). f w < f cur} \<le> length (vertices G)"
    by (metis (no_types, lifting) List.finite_set card_length card_mono mem_Collect_eq order_trans subsetI)
  then show ?thesis by (intro greedy_walk_returns [OF assms]) simp
qed

theorem greedy_walk_reaches_goal_witness:
  "\<exists>p. greedy_walk 3 (neighbors ex_graph) (g_of ex_final) 0 1 = Some (Inr p) \<and> p \<noteq> [] \<and> hd p = 1 \<and> last p = 0"
  using greedy_walk_reaches_goal [of ex_graph "g_of ex_final" 0 1]
  by (simp add: descending_def ex_graph_def ex_final_def numeral_3_eq_3)

section \<open>Re-classification of the neighbours in \<open>replan_path\<close>\<close>

lemma share_nonneg: "0 < get_area b \<Longrightarrow> 0 \<le> get_intersect_area b ob / get_area b"
  using get_intersect_area_nonneg [of b ob] by simp

lemma pct_loop_sum:
  assumes "0 < width b" "0 < height b" "p0 < threshold"
  shows "\<exists>p. pct_loop b obs p0 =
      Inr (p, threshold \<le> p0 + sum_list (map (\<lambda>ob. get_intersect_area b ob / get_area b) obs)) \<and>
      (p < threshold \<longleftrightarrow> \<not> threshold \<le> p0 + sum_list (map (\<lambda>ob. get_intersect_area b ob / get_area b) obs))"
  using assms(3)
proof (induction obs arbitrary: p0)
  case Nil
  then show ?case by auto
next
  case (Cons ob obs)
  have a: "0 < get_area b" using assms by (simp add: get_area_def)
  let ?q = "get_intersect_area b ob / get_area b"
  let ?S = "sum_list (map (\<lambda>ob. get_intersect_area b ob / get_area b) obs)"
  have q: "get_intersect_percentage b ob = Inr ?q" using assms(1,2) by (simp add: get_intersect_percentage_ok)
  have S: "0 \<le> ?S" by (rule sum_list_nonneg) (auto intro: share_nonneg [OF a])
  show ?case
  proof (cases "threshold \<le> p0 + ?q")
    case True
    then show ?thesis using q S by simp
  next
    case False
    then show ?thesis using q Cons.IH [of "p0 + ?q"] by (simp add: add.assoc not_le)
  qed
qed

lemma mark_neighbor_eq:
  assumes "0 < width (box_at G n)" "0 < height (box_at G n)"
  shows "mark_neighbor G obstacles (st, ch) n =
    Inr (st\<lparr>value_of := (value_of st)(n := new_value G obstacles n)\<rparr>,
         if value_of st n \<noteq> new_value G obstacles n then ch @ [n] else ch)"
proof -
  obtain p where p: "pct_loop (box_at G n) obstacles 0 = Inr (p, threshold \<le> pct_sum G obstacles n)"
    "p < threshold \<longleftrightarrow> \<not> threshold \<le> pct_sum G obstacles n"
    using pct_loop_sum [OF assms, of 0 obstacles] by (auto simp: pct_sum_def threshold_def)
  show ?thesis
    using p by (cases "threshold \<le> pct_sum G obstacles n")
      (simp_all add: mark_neighbor_def new_value_def Let_def fun_upd_idem)
qed

lemma mark_loop_eq:
  assumes "distinct ch" "\<forall>x \<in> set ch. value_of st x = new_value G obstacles x"
    "\<forall>n \<in> set ns. 0 < width (box_at G n) \<and> 0 < height (box_at G n)"
  shows "\<exists>ch'. mark_loop G obstacles ns (st, ch) =
      Inr (st\<lparr>value_of := (\<lambda>w. if w \<in> set ns then new_value G obstacles w else value_of st w)\<rparr>, ch') \<and>
      distinct ch' \<and> set ch' = set ch \<union> {n \<in> set ns. value_of st n \<noteq> new_value G obstacles n}"
  using assms
proof (induction ns arbitrary: st ch)
  case Nil
  then show ?case by simp
next
  case (Cons n ns)
  let ?nv = "new_value G obstacles"
  let ?st1 = "st\<lparr>value_of := (value_of st)(n := ?nv n)\<rparr>"
  let ?ch1 = "if value_of st n \<noteq> ?nv n then ch @ [n] else ch"
  have step: "mark_neighbor G obstacles (st, ch) n = Inr (?st1, ?ch1)"
    using Cons.prems(3) by (intro mark_neighbor_eq) auto
  have d1: "distinct ?ch1" using Cons.prems(1,2) by auto
  have i1: "\<forall>x \<in> set ?ch1. value_of ?st1 x = ?nv x" using Cons.prems(2) by auto
  obtain ch' where ch': "mark_loop G obstacles ns (?st1, ?ch1) =
      Inr (?st1\<lparr>value_of := (\<lambda>w. if w \<in> set ns then ?nv w else value_of ?st1 w)\<rparr>, ch')"
    "distinct ch'" "set ch' = set ?ch1 \<union> {m \<in> set ns. value_of ?st1 m \<noteq> ?nv m}"
    using Cons.IH [OF d1 i1] Cons.prems(3) by auto
  have "?st1\<lparr>value_of := (\<lambda>w. if w \<in> set ns then ?nv w else value_of ?st1 w)\<rparr> =
        st\<lparr>value_of := (\<lambda>w. if w \<in> set (n # ns) then ?nv w else value_of st w)\<rparr>"
    by (simp add: fun_eq_iff)
  moreover have "set ch' = set ch \<union> {m \<in> set (n # ns). value_of st m \<noteq> ?nv m}"
    using ch'(3) by auto
  ultimately show ?case using step ch' by auto
qed

text \<open>
  C34. The first half of \<open>DStarLiteSolver.replan_path\<close>: for neighbours of positive
  size, it raises nothing, sets each neighbour of the robot's cell to blocked exactly when
  the obstacles cover at least the threshold share of it (to free otherwise), leaves every
  other cell, and lists in \<open>changes\<close> each neighbour whose value changed, once, even
  when the neighbour list repeats a cell.
\<close>

theorem replan_marks_neighbors:
  assumes "\<forall>n \<in> set (neighbors G (current st)). 0 < width (box_at G n) \<and> 0 < height (box_at G n)"
  shows "\<exists>changes. mark_loop G obstacles (neighbors G (current st)) (st, []) =
      Inr (st\<lparr>value_of := (\<lambda>w. if w \<in> set (neighbors G (current st)) then new_value G obstacles w
                                else value_of st w)\<rparr>, changes) \<and>
      distinct changes \<and>
      set changes = {n \<in> set (neighbors G (current st)). value_of st n \<noteq> new_value G obstacles n}"
  using mark_loop_eq [of "[]" st G obstacles, OF _ _ assms] by simp

theorem replan_marks_neighbors_witness:
  "\<exists>changes. mark_loop ex_graph [\<lparr>cx = 0, cy = 0, width = 1, height = 1\<rparr>] (neighbors ex_graph (current ex_final)) (ex_final, []) =
      Inr (ex_final\<lparr>value_of := (\<lambda>w. if w \<in> set (neighbors ex_graph (current ex_final))
                                     then new_value ex_graph [\<lparr>cx = 0, cy = 0, width = 1, height = (1::real)\<rparr>] w
                                     else value_of ex_final w)\<rparr>, changes) \<and>
      distinct changes \<and>
      set changes = {n \<in> set (neighbors ex_graph (current ex_final)).
                       value_of ex_final n \<noteq> new_value ex_graph [\<lparr>cx = 0, cy = 0, width = 1, height = (1::real)\<rparr>] n}"
  by (rule replan_marks_neighbors) (simp add: ex_graph_def ex_final_def)

text \<open>
  C27. No-op replan stability (property 5 of the specification): when no neighbour of the
  robot's cell changes its occupancy, \<open>replan_path\<close> marks nothing, updates no vertex
  and returns exactly what \<open>show_path\<close> returns on the same state.
\<close>

theorem replan_path_noop:
  assumes "\<forall>n \<in> set (neighbors G (current st)).
             0 < width (box_at G n) \<and> 0 < height (box_at G n) \<and> value_of st n = new_value G obstacles n"
  shows "ds_replan_path k G st obstacles = ds_show_path k G st"
proof -
  let ?ns = "neighbors G (current st)"
  obtain ch where ch: "mark_loop G obstacles ?ns (st, []) =
      Inr (st\<lparr>value_of := (\<lambda>w. if w \<in> set ?ns then new_value G obstacles w else value_of st w)\<rparr>, ch)"
    "set ch = {n \<in> set ?ns. value_of st n \<noteq> new_value G obstacles n}"
    using mark_loop_eq [of "[]" st G obstacles ?ns] assms by auto
  have "set ch = {}" using ch(2) assms by auto
  then have "ch = []" by simp
  moreover have "st\<lparr>value_of := (\<lambda>w. if w \<in> set ?ns then new_value G obstacles w else value_of st w)\<rparr> = st"
    using assms by (simp add: fun_eq_iff)
  ultimately show ?thesis using ch(1) by (simp add: ds_replan_path_def)
qed

theorem replan_path_noop_witness:
  "ds_replan_path 3 ex_graph ex_final ([] :: aabb list) = ds_show_path 3 ex_graph ex_final"
  by (rule replan_path_noop)
    (simp add: ex_graph_def ex_final_def new_value_def pct_sum_def threshold_def)

end
