(* ===== verification/DstarGrid.thy ===== *)
theory DstarGrid
  imports Prelude "HOL-Library.Multiset"
begin

text \<open>
  The stand-alone grid planner \<open>src/DstarLite.py\<close>: a \<open>size \<times> size\<close> grid of
  vertices with 8-connectivity (\<open>Graph.succ\<close>, \<open>Graph.pred\<close>), an occupancy grid
  (1 free, 0 blocked), the edge cost \<open>Graph.cost\<close>, and D* Lite over a hand-written
  \<open>PriorityQueue\<close>: a Python list of vertices kept in key order by \<open>binary_search\<close>,
  whose keys are recomputed from the vertices' current \<open>g\<close>, \<open>rhs\<close>, \<open>h\<close> at every
  call. The loop test compares keys with \<open>compare_array\<close>.

  The state is the record \<open>dl_state\<close>: the grid size, the occupancy grid, the vertex
  fields \<open>g\<close>, \<open>rhs\<close>, \<open>h\<close>, \<open>in_queue\<close> as maps over coordinates, the current and
  goal vertices and the queue. A vertex is its coordinate. \<open>binary_search\<close> recurses
  without a decreasing argument when \<open>start > end\<close>; it is a \<open>partial_function\<close>, so
  a recursion that does not stop (Python's \<open>RecursionError\<close>) is \<open>None\<close>. The loops
  of \<open>compute_path\<close> and \<open>show_path\<close> carry fuel.
\<close>

section \<open>State\<close>

type_synonym coord = "int \<times> int"

record dl_state =
  gsize :: int
  grid :: "coord \<Rightarrow> int"
  vg :: "coord \<Rightarrow> ext"
  vrhs :: "coord \<Rightarrow> ext"
  vh :: "coord \<Rightarrow> real"
  in_queue :: "coord \<Rightarrow> bool"
  gcurrent :: coord
  ggoal :: coord
  pq :: "coord list"

text \<open>A coordinate of the grid, \<open>0 \<le> i, j < size\<close>.\<close>

definition in_grid :: "int \<Rightarrow> coord \<Rightarrow> bool" where
  "in_grid sz v \<longleftrightarrow> 0 \<le> fst v \<and> fst v < sz \<and> 0 \<le> snd v \<and> snd v < sz"

section \<open>\<open>Graph\<close>: neighbourhood and cost\<close>

text \<open>
  \<open>Graph.succ\<close>: the window \<open>[x-1, x+1] \<times> [y-1, y+1]\<close>, clipped where \<open>x - 1 = -1\<close>
  or \<open>x + 1 = size\<close>, without the vertex itself, in the order of the two loops.
\<close>

definition succ :: "int \<Rightarrow> coord \<Rightarrow> coord list" where
  "succ sz v =
     (let (x, y) = v;
          x_low = (if x - 1 = -1 then 0 else x - 1);
          x_high = (if x + 1 = sz then sz - 1 else x + 1);
          y_low = (if y - 1 = -1 then 0 else y - 1);
          y_high = (if y + 1 = sz then sz - 1 else y + 1)
      in [(i, j). i \<leftarrow> [x_low..x_high], j \<leftarrow> [y_low..y_high], (i, j) \<noteq> (x, y)])"

text \<open>\<open>Graph.pred\<close> has the same body as \<open>Graph.succ\<close>.\<close>

definition pred :: "int \<Rightarrow> coord \<Rightarrow> coord list" where
  "pred sz v =
     (let (x, y) = v;
          x_low = (if x - 1 = -1 then 0 else x - 1);
          x_high = (if x + 1 = sz then sz - 1 else x + 1);
          y_low = (if y - 1 = -1 then 0 else y - 1);
          y_high = (if y + 1 = sz then sz - 1 else y + 1)
      in [(i, j). i \<leftarrow> [x_low..x_high], j \<leftarrow> [y_low..y_high], (i, j) \<noteq> (x, y)])"

definition distance_dl :: "coord \<Rightarrow> coord \<Rightarrow> real" where
  "distance_dl u v = sqrt ((of_int (fst u) - of_int (fst v))\<^sup>2 + (of_int (snd u) - of_int (snd v))\<^sup>2)"

text \<open>
  \<open>Graph.cost\<close>: for vertices more than one step apart it prints \<open>Error\<close> and returns
  \<open>None\<close>; otherwise the distance divided by the product of the two occupancy values,
  each shifted by \<open>1e-6\<close>.
\<close>

definition cost_dl :: "dl_state \<Rightarrow> coord \<Rightarrow> coord \<Rightarrow> real option" where
  "cost_dl st u v =
     (if \<bar>fst u - fst v\<bar> > 1 \<or> \<bar>snd u - snd v\<bar> > 1 then None
      else Some (distance_dl u v /
        ((of_int (grid st u) + 1/1000000) * (of_int (grid st v) + 1/1000000))))"

text \<open>\<open>Graph.update_grid\<close>.\<close>

definition update_grid :: "dl_state \<Rightarrow> coord \<Rightarrow> int \<Rightarrow> dl_state" where
  "update_grid st c p = st\<lparr>grid := (grid st)(c := p)\<rparr>"

text \<open>\<open>Vertex.calculate_key\<close>: returns the key, stores nothing.\<close>

definition calculate_key_dl :: "dl_state \<Rightarrow> coord \<Rightarrow> key" where
  "calculate_key_dl st v = calc_key (vg st v) (vrhs st v) (vh st v)"

text \<open>
  The loop of \<open>Graph.calculate_rhs\<close>: \<open>tmp = succ.g + self.cost(succ, vertex)\<close>, kept
  when strictly smaller; adding the \<open>None\<close> of a non-adjacent cost raises
  \<open>TypeError\<close>.
\<close>

fun rhs_loop :: "dl_state \<Rightarrow> coord \<Rightarrow> coord list \<Rightarrow> ext \<Rightarrow> ext result" where
  "rhs_loop st v [] ans = Inr ans"
| "rhs_loop st v (s # ss) ans =
     (case cost_dl st s v of
        None \<Rightarrow> Inl TypeError
      | Some c \<Rightarrow> (let tmp = vg st s + Fin c in rhs_loop st v ss (if tmp < ans then tmp else ans)))"

definition calculate_rhs_dl :: "dl_state \<Rightarrow> coord \<Rightarrow> dl_state result" where
  "calculate_rhs_dl st v =
     rbind (rhs_loop st v (succ (gsize st) v) Inf) (\<lambda>ans. Inr (st\<lparr>vrhs := (vrhs st)(v := ans)\<rparr>))"

section \<open>Key comparison and search\<close>

text \<open>
  \<open>compare_array(a, b)\<close>: the loop over \<open>range(max(len(a), len(b)))\<close>. Its guard
  \<open>i > len(b)\<close> lets \<open>i = len(b)\<close> through to \<open>b[i]\<close>, which raises; a loop that
  finds the lists equal falls off the end and returns \<open>None\<close>, which the caller reads
  as false.
\<close>

function compare_from :: "nat \<Rightarrow> ext list \<Rightarrow> ext list \<Rightarrow> bool result" where
  "compare_from i a b =
     (if max (length a) (length b) \<le> i then Inr False
      else if i > length b then Inr False
      else if length a \<le> i \<or> length b \<le> i then Inl IndexError
      else if a ! i < b ! i then Inr True
      else if a ! i > b ! i then Inr False
      else compare_from (Suc i) a b)"
  by pat_completeness auto
termination
  by (relation "measure (\<lambda>(i, a, b). max (length a) (length b) - i)") auto

declare compare_from.simps [simp del]

definition compare_array :: "ext list \<Rightarrow> ext list \<Rightarrow> bool result" where
  "compare_array a b = compare_from 0 a b"

text \<open>A key as the Python list \<open>[k0, k1]\<close>.\<close>

definition key_list :: "key \<Rightarrow> ext list" where
  "key_list k = [fst k, snd k]"

text \<open>
  \<open>binary_search(key, keys, start, end)\<close>. Python compares the lists \<open>key\<close> and
  \<open>keys[middle]\<close> lexicographically, as the pair order does; \<open>keys[middle]\<close> out of
  range raises \<open>IndexError\<close>.
\<close>

partial_function (option) binary_search :: "key \<Rightarrow> key list \<Rightarrow> nat \<Rightarrow> nat \<Rightarrow> nat result option" where
  "binary_search key keys start stop =
     (if start = stop then Some (Inr start)
      else
        (let middle = (stop + start) div 2 in
         if length keys \<le> middle then Some (Inl IndexError)
         else if fst key = fst (keys ! middle) then
           (if snd key = snd (keys ! middle) then Some (Inr middle)
            else if snd key < snd (keys ! middle) then binary_search key keys start middle
            else binary_search key keys (middle + 1) stop)
         else if key < keys ! middle then binary_search key keys start middle
         else binary_search key keys (middle + 1) stop))"

section \<open>\<open>PriorityQueue\<close>\<close>

definition pq_pop :: "dl_state \<Rightarrow> (coord \<times> dl_state) result" where
  "pq_pop st =
     (case pq st of
        [] \<Rightarrow> Inl IndexError
      | v # q \<Rightarrow> Inr (v, st\<lparr>pq := q, in_queue := (in_queue st)(v := False)\<rparr>))"

text \<open>\<open>list.remove\<close> raises \<open>ValueError\<close> on an absent element.\<close>

definition pq_remove :: "dl_state \<Rightarrow> coord \<Rightarrow> dl_state result" where
  "pq_remove st v =
     (if v \<in> set (pq st) then Inr (st\<lparr>pq := remove1 v (pq st), in_queue := (in_queue st)(v := False)\<rparr>)
      else Inl ValueError)"

definition pq_insert :: "dl_state \<Rightarrow> coord \<Rightarrow> dl_state outcome" where
  "pq_insert st v =
     (let key = calculate_key_dl st v;
          keys = map (calculate_key_dl st) (pq st)
      in obind (binary_search key keys 0 (length (pq st)))
           (\<lambda>i. Some (Inr (st\<lparr>pq := insert_at i v (pq st), in_queue := (in_queue st)(v := True)\<rparr>))))"

definition top_key :: "dl_state \<Rightarrow> key result" where
  "top_key st = (case pq st of [] \<Rightarrow> Inl IndexError | v # _ \<Rightarrow> Inr (calculate_key_dl st v))"

section \<open>D* Lite\<close>

text \<open>
  \<open>update_vertex(queue, graph, vertex)\<close>: recompute \<open>rhs\<close> unless the vertex is the
  goal, take it out of the queue if its \<open>in_queue\<close> flag is set, and insert it again if it
  is inconsistent.
\<close>

definition update_vertex_dl :: "dl_state \<Rightarrow> coord \<Rightarrow> dl_state outcome" where
  "update_vertex_dl st vertex =
     obind (Some (if vertex \<noteq> ggoal st then calculate_rhs_dl st vertex else Inr st)) (\<lambda>st1.
     obind (Some (if in_queue st1 vertex then pq_remove st1 vertex else Inr st1)) (\<lambda>st2.
       if vg st2 vertex \<noteq> vrhs st2 vertex then pq_insert st2 vertex else Some (Inr st2)))"

fun update_vertices_dl :: "dl_state \<Rightarrow> coord list \<Rightarrow> dl_state outcome" where
  "update_vertices_dl st [] = Some (Inr st)"
| "update_vertices_dl st (u # us) = obind (update_vertex_dl st u) (\<lambda>st'. update_vertices_dl st' us)"

text \<open>
  The heuristic update at the start of \<open>compute_path\<close>: every vertex of the grid gets
  \<open>h = (1 - alpha) * h + alpha * distance(v, current)\<close> with \<open>alpha = 0.1\<close>.
\<close>

definition alpha :: real where
  "alpha = 1/10"

definition update_h :: "dl_state \<Rightarrow> dl_state" where
  "update_h st = st\<lparr>vh := (\<lambda>v. if in_grid (gsize st) v
       then (1 - alpha) * vh st v + alpha * distance_dl v (gcurrent st) else vh st v)\<rparr>"

text \<open>
  The loop test \<open>compare_array(queue.top_key(), current.calculate_key()) or
  current.g != current.rhs\<close>: \<open>top_key\<close> is evaluated first and raises on an empty
  queue.
\<close>

definition loop_test_dl :: "dl_state \<Rightarrow> bool result" where
  "loop_test_dl st =
     rbind (top_key st) (\<lambda>tk.
     rbind (compare_array (key_list tk) (key_list (calculate_key_dl st (gcurrent st)))) (\<lambda>c.
       Inr (c \<or> vg st (gcurrent st) \<noteq> vrhs st (gcurrent st))))"

text \<open>The loop body after \<open>v = queue.pop()\<close>.\<close>

definition expand_dl :: "dl_state \<Rightarrow> coord \<Rightarrow> dl_state outcome" where
  "expand_dl st v =
     (if vg st v > vrhs st v then
        update_vertices_dl (st\<lparr>vg := (vg st)(v := vrhs st v)\<rparr>) (succ (gsize st) v)
      else
        obind (update_vertex_dl (st\<lparr>vg := (vg st)(v := Inf)\<rparr>) v) (\<lambda>st1.
          update_vertices_dl st1 (succ (gsize st) v)))"

text \<open>The \<open>while\<close> loop with fuel; \<open>if queue.is_empty(): break\<close> ends the body.\<close>

fun dl_loop :: "nat \<Rightarrow> dl_state \<Rightarrow> dl_state outcome" where
  "dl_loop 0 st = None"
| "dl_loop (Suc n) st =
     obind (Some (loop_test_dl st)) (\<lambda>c.
       if c then
         obind (Some (pq_pop st)) (\<lambda>(v, st1).
         obind (expand_dl st1 v) (\<lambda>st2.
           if pq st2 = [] then Some (Inr st2) else dl_loop n st2))
       else Some (Inr st))"

definition compute_path_dl :: "nat \<Rightarrow> dl_state \<Rightarrow> dl_state outcome" where
  "compute_path_dl n st = dl_loop n (update_h st)"

text \<open>
  \<open>np.argmin\<close>: the index of the first minimum; it raises \<open>ValueError\<close> on an empty
  sequence.
\<close>

fun argmin_from :: "nat \<Rightarrow> 'a::linorder \<Rightarrow> nat \<Rightarrow> 'a list \<Rightarrow> nat" where
  "argmin_from best bv i [] = best"
| "argmin_from best bv i (x # xs) = (if x < bv then argmin_from i x (Suc i) xs else argmin_from best bv (Suc i) xs)"

definition argmin :: "'a::linorder list \<Rightarrow> nat result" where
  "argmin xs = (case xs of [] \<Rightarrow> Inl ValueError | x # rest \<Rightarrow> Inr (argmin_from 0 x 1 rest))"

text \<open>The \<open>while current != graph.goal\<close> loop of \<open>show_path\<close>, with fuel.\<close>

fun show_loop :: "nat \<Rightarrow> dl_state \<Rightarrow> coord \<Rightarrow> coord list outcome" where
  "show_loop 0 st cur = None"
| "show_loop (Suc n) st cur =
     (if cur = ggoal st then Some (Inr [])
      else
        (let cur_succ = succ (gsize st) cur in
         obind (Some (argmin (map (vg st) cur_succ))) (\<lambda>min_idx.
           let nxt = cur_succ ! min_idx in
           obind (show_loop n st nxt) (\<lambda>p. Some (Inr (nxt # p))))))"

definition show_path_dl :: "nat \<Rightarrow> dl_state \<Rightarrow> coord list outcome" where
  "show_path_dl n st = obind (show_loop n st (gcurrent st)) (\<lambda>p. Some (Inr (gcurrent st # p)))"

text \<open>The specification of one \<open>binary_search\<close> answer: inside \<open>[start, end]\<close>, and for
  sorted keys every key before it is at most the searched key and every key from it on at least.\<close>
definition bs_spec :: "key \<Rightarrow> key list \<Rightarrow> nat \<Rightarrow> nat \<Rightarrow> nat \<Rightarrow> bool" where
  "bs_spec key keys start stop i \<longleftrightarrow> start \<le> i \<and> i \<le> stop \<and>
     (sorted keys \<longrightarrow> (\<forall>j. start \<le> j \<and> j < i \<longrightarrow> keys ! j \<le> key) \<and>
                      (\<forall>j. i \<le> j \<and> j < stop \<longrightarrow> key \<le> keys ! j))"

text \<open>Two distinct cells touching by a side or a corner.\<close>
definition adjacent :: "coord \<Rightarrow> coord \<Rightarrow> bool" where
  "adjacent u v \<longleftrightarrow> u \<noteq> v \<and> \<bar>fst u - fst v\<bar> \<le> 1 \<and> \<bar>snd u - snd v\<bar> \<le> 1"

text \<open>A walk of grid cells, each adjacent to the next.\<close>
fun is_walk :: "int \<Rightarrow> coord list \<Rightarrow> bool" where
  "is_walk n [] = False"
| "is_walk n [x] = in_grid n x"
| "is_walk n (x # y # r) = (in_grid n x \<and> adjacent x y \<and> is_walk n (y # r))"

section \<open>Example grids\<close>

text \<open>
  \<open>dl_ex1\<close>: a 1-by-1 grid whose only cell is start and goal, as the main loop of
  \<open>DstarLite.py\<close> sets it up (goal \<open>rhs = 0\<close>, goal inserted). \<open>dl_ex2\<close>: a 3-by-3
  grid with two queued cells in key order. \<open>dl_ex3\<close>: a 2-by-2 grid before any
  planning, all \<open>g = inf\<close>; \<open>dl_ex4\<close>: the same with the goal's \<open>g = 0\<close>.
\<close>
definition dl_ex1 :: dl_state where
  "dl_ex1 = \<lparr>gsize = 1, grid = (\<lambda>_. 1), vg = (\<lambda>_. Inf), vrhs = (\<lambda>_. Inf)((0, 0) := Fin 0),
     vh = (\<lambda>_. 0), in_queue = (\<lambda>_. False)((0, 0) := True), gcurrent = (0, 0), ggoal = (0, 0),
     pq = [(0, 0)]\<rparr>"

definition dl_ex2 :: dl_state where
  "dl_ex2 = \<lparr>gsize = 3, grid = (\<lambda>_. 1), vg = (\<lambda>_. Inf),
     vrhs = ((\<lambda>_. Inf)((2, 0) := Fin 1))((0, 1) := Fin (21/20)),
     vh = (\<lambda>_. 0), in_queue = ((\<lambda>_. False)((2, 0) := True))((0, 1) := True),
     gcurrent = (0, 0), ggoal = (2, 2), pq = [(2, 0), (0, 1)]\<rparr>"

definition dl_ex3 :: dl_state where
  "dl_ex3 = \<lparr>gsize = 2, grid = (\<lambda>_. 1), vg = (\<lambda>_. Inf), vrhs = (\<lambda>_. Inf)((1, 1) := Fin 0),
     vh = (\<lambda>_. 0), in_queue = (\<lambda>_. False), gcurrent = (0, 0), ggoal = (1, 1), pq = []\<rparr>"

definition dl_ex4 :: dl_state where
  "dl_ex4 = dl_ex3\<lparr>vg := (\<lambda>_. Inf)((1, 1) := Fin 0)\<rparr>"

section \<open>Key comparison\<close>

lemma compare_from_step:
  "i < length a \<Longrightarrow> i < length b \<Longrightarrow>
   compare_from i a b = (if a ! i < b ! i then Inr True else if a ! i > b ! i then Inr False
                         else compare_from (Suc i) a b)"
  by (subst compare_from.simps) simp

lemma compare_from_stop:
  "max (length a) (length b) \<le> i \<Longrightarrow> compare_from i a b = Inr False"
  by (subst compare_from.simps) simp

text \<open>
  C17. \<open>compare_array\<close> on two keys written as Python lists \<open>[k0, k1]\<close> returns the lexicographic
  comparison \<open>k1 < k2\<close> of the keys: it agrees with the key order of the planners.
\<close>

lemma compare_array_key_list:
  "compare_array (key_list k1) (key_list k2) = Inr (k1 < k2)"
  by (cases k1; cases k2)
     (auto simp: compare_array_def key_list_def compare_from_step compare_from_stop less_prod_def)

lemma compare_from_prefix:
  "length b < length a \<Longrightarrow> take (length b) a = b \<Longrightarrow> i \<le> length b \<Longrightarrow>
   compare_from i a b = Inl IndexError"
proof (induction "length b - i" arbitrary: i)
  case 0
  then have "i = length b" by simp
  then show ?case using "0.prems"(1) by (subst compare_from.simps) simp
next
  case (Suc k)
  then have i: "i < length b" by simp
  have "a ! i = b ! i" using Suc.prems(2) i by (metis nth_take)
  then show ?case
    using Suc i by (simp add: compare_from_step)
qed

text \<open>
  C18. Off-by-one in \<open>compare_array\<close>: when \<open>b\<close> is a proper prefix of \<open>a\<close>, the guard
  \<open>i > len(b)\<close> does not stop the loop at \<open>i = len(b)\<close> and \<open>b[i]\<close> raises \<open>IndexError\<close>.
\<close>

lemma compare_array_prefix_IndexError:
  "length b < length a \<Longrightarrow> take (length b) a = b \<Longrightarrow> compare_array a b = Inl IndexError"
  unfolding compare_array_def by (rule compare_from_prefix) simp_all

theorem compare_array_prefix_witness:
  "compare_array [Fin 0, Fin 0, Fin 0] [Fin 0, Fin 0] = Inl IndexError"
  by (rule compare_array_prefix_IndexError) simp_all

section \<open>Binary search\<close>

lemma binary_search_step:
  assumes "start \<noteq> stop" "(stop + start) div 2 < length keys"
  shows "binary_search key keys start stop =
     (let m = (stop + start) div 2 in
      if key = keys ! m then Some (Inr m)
      else if key < keys ! m then binary_search key keys start m
      else binary_search key keys (m + 1) stop)"
proof -
  have "binary_search key keys start stop =
     (let m = (stop + start) div 2 in
      if fst key = fst (keys ! m) then
           (if snd key = snd (keys ! m) then Some (Inr m)
            else if snd key < snd (keys ! m) then binary_search key keys start m
            else binary_search key keys (m + 1) stop)
      else if key < keys ! m then binary_search key keys start m
      else binary_search key keys (m + 1) stop)"
    using assms by (subst binary_search.simps) (simp add: Let_def)
  then show ?thesis by (simp add: Let_def prod_eq_iff less_prod_def)
qed

lemma binary_search_base: "binary_search key keys start start = Some (Inr start)"
  by (subst binary_search.simps) simp

lemma sorted_nth_le:
  "sorted xs \<Longrightarrow> i \<le> j \<Longrightarrow> j < length xs \<Longrightarrow> xs ! i \<le> xs ! j"
  by (simp add: sorted_iff_nth_mono)

lemma bs_spec_left:
  assumes "bs_spec key keys start m i" "m < stop"
    "sorted keys \<Longrightarrow> \<forall>j. m \<le> j \<and> j < stop \<longrightarrow> key \<le> keys ! j"
  shows "bs_spec key keys start stop i"
  unfolding bs_spec_def
proof (intro conjI impI allI)
  show "start \<le> i" "i \<le> stop" using assms(1,2) by (auto simp: bs_spec_def)
next
  fix j assume "sorted keys" "start \<le> j \<and> j < i"
  then show "keys ! j \<le> key" using assms(1) by (auto simp: bs_spec_def)
next
  fix j assume s: "sorted keys" and j: "i \<le> j \<and> j < stop"
  show "key \<le> keys ! j"
  proof (cases "j < m")
    case True
    then show ?thesis using assms(1) s j by (auto simp: bs_spec_def)
  next
    case False
    then show ?thesis using assms(3) [OF s] j by simp
  qed
qed

lemma bs_spec_right:
  assumes "bs_spec key keys (Suc m) stop i" "start \<le> m"
    "sorted keys \<Longrightarrow> \<forall>j. start \<le> j \<and> j \<le> m \<longrightarrow> keys ! j \<le> key"
  shows "bs_spec key keys start stop i"
  unfolding bs_spec_def
proof (intro conjI impI allI)
  show "start \<le> i" "i \<le> stop" using assms(1,2) by (auto simp: bs_spec_def)
next
  fix j assume s: "sorted keys" and j: "start \<le> j \<and> j < i"
  show "keys ! j \<le> key"
  proof (cases "j \<le> m")
    case True
    then show ?thesis using assms(3) [OF s] j by simp
  next
    case False
    then show ?thesis using assms(1) s j by (auto simp: bs_spec_def)
  qed
next
  fix j assume "sorted keys" "i \<le> j \<and> j < stop"
  then show "key \<le> keys ! j" using assms(1) by (auto simp: bs_spec_def)
qed

lemma binary_search_correct:
  "start \<le> stop \<Longrightarrow> stop \<le> length keys \<Longrightarrow>
   \<exists>i. binary_search key keys start stop = Some (Inr i) \<and> bs_spec key keys start stop i"
proof (induction "stop - start" arbitrary: start stop rule: less_induct)
  case less
  show ?case
  proof (cases "start = stop")
    case True
    then show ?thesis by (auto simp: binary_search_base bs_spec_def)
  next
    case False
    define m where "m = (stop + start) div 2"
    have m: "start \<le> m" "m < stop" "m < length keys" using False less.prems unfolding m_def by auto
    have step: "binary_search key keys start stop =
      (if key = keys ! m then Some (Inr m)
       else if key < keys ! m then binary_search key keys start m
       else binary_search key keys (m + 1) stop)"
      using binary_search_step [OF False] m(3) unfolding m_def by (simp add: Let_def)
    have "key = keys ! m \<or> key < keys ! m \<or> keys ! m < key"
      using linorder_less_linear by blast
    moreover
    { assume eq: "key = keys ! m"
      have "bs_spec key keys start stop m"
        unfolding bs_spec_def eq using m less.prems(2) by (auto intro: sorted_nth_le)
      then have ?thesis using step eq by simp }
    moreover
    { assume lt: "key < keys ! m"
      have h: "m - start < stop - start" "m \<le> length keys" using m by simp_all
      obtain i where i: "binary_search key keys start m = Some (Inr i)" "bs_spec key keys start m i"
        using less.hyps [OF h(1) m(1) h(2)] by (elim exE conjE)
      have "\<forall>j. m \<le> j \<and> j < stop \<longrightarrow> key \<le> keys ! j" if s: "sorted keys"
        using sorted_nth_le [OF s] less.prems(2) lt by (meson less_imp_le order.trans order.strict_trans2)
      then have "bs_spec key keys start stop i" using bs_spec_left [OF i(2) m(2)] by blast
      then have ?thesis using step lt i(1) by auto }
    moreover
    { assume gt: "keys ! m < key"
      have h: "stop - Suc m < stop - start" "Suc m \<le> stop" using m by simp_all
      obtain i where i: "binary_search key keys (Suc m) stop = Some (Inr i)" "bs_spec key keys (Suc m) stop i"
        using less.hyps [OF h less.prems(2)] by (elim exE conjE)
      have "\<forall>j. start \<le> j \<and> j \<le> m \<longrightarrow> keys ! j \<le> key" if s: "sorted keys"
        using sorted_nth_le [OF s _ m(3)] gt by (meson less_imp_le order.trans)
      then have "bs_spec key keys start stop i" using bs_spec_right [OF i(2) m(1)] by blast
      then have ?thesis using step gt i(1) by auto }
    ultimately show ?thesis by blast
  qed
qed

text \<open>
  C16. \<open>binary_search\<close> returns, without recursing forever or indexing out of range, whenever
  \<open>start \<le> end \<le> len(keys)\<close>, as in \<open>PriorityQueue.insert\<close>; the index lies in
  \<open>[start, end]\<close>.
\<close>

theorem binary_search_terminates:
  "start \<le> stop \<Longrightarrow> stop \<le> length keys \<Longrightarrow>
   \<exists>i. binary_search key keys start stop = Some (Inr i) \<and> start \<le> i \<and> i \<le> stop"
  using binary_search_correct unfolding bs_spec_def by blast

theorem binary_search_terminates_witness:
  "\<exists>i. binary_search (Fin 1, Fin 1) [(Fin 0, Fin 0), (Fin 2, Fin 2)] 0 2 = Some (Inr i) \<and> i \<le> 2"
  using binary_search_terminates [of 0 2 "[(Fin 0, Fin 0), (Fin 2, Fin 2)]" "(Fin 1, Fin 1)"] by auto

section \<open>The priority queue\<close>

lemma map_insert_at: "map f (insert_at i v xs) = insert_at i (f v) (map f xs)"
  by (simp add: insert_at_def take_map drop_map)

lemma mset_insert_at: "mset (insert_at i v xs) = add_mset v (mset xs)"
  by (simp add: insert_at_def) (metis append_take_drop_id mset_append union_mset_add_mset_right)

lemma calculate_key_dl_pq [simp]:
  "calculate_key_dl (st\<lparr>pq := q, in_queue := f\<rparr>) = calculate_key_dl st"
  by (simp add: calculate_key_dl_def fun_eq_iff)

lemma pq_insert_sorted:
  assumes "sorted (map (calculate_key_dl st) (pq st))"
  shows "\<exists>st'. pq_insert st v = Some (Inr st') \<and>
    sorted (map (calculate_key_dl st') (pq st')) \<and> mset (pq st') = add_mset v (mset (pq st)) \<and>
    st' = st\<lparr>pq := pq st', in_queue := (in_queue st)(v := True)\<rparr>"
proof -
  let ?k = "calculate_key_dl st" and ?q = "pq st"
  have "\<exists>i. binary_search (?k v) (map ?k ?q) 0 (length ?q) = Some (Inr i) \<and>
      bs_spec (?k v) (map ?k ?q) 0 (length ?q) i"
    by (rule binary_search_correct) simp_all
  then obtain i where i: "binary_search (?k v) (map ?k ?q) 0 (length ?q) = Some (Inr i)"
    "bs_spec (?k v) (map ?k ?q) 0 (length ?q) i"
    by blast
  have "sorted (insert_at i (?k v) (map ?k ?q))"
    using i(2) assms by (intro sorted_insert_at) (auto simp: bs_spec_def)
  then show ?thesis
    using i(1) by (simp add: pq_insert_def map_insert_at mset_insert_at)
qed

lemma pq_pop_min:
  assumes "sorted (map (calculate_key_dl st) (pq st))" "pq st \<noteq> []"
  shows "\<exists>u st'. pq_pop st = Inr (u, st') \<and> mset (pq st') = mset (pq st) - {#u#} \<and>
    (\<forall>w \<in> set (pq st). calculate_key_dl st u \<le> calculate_key_dl st w) \<and>
    sorted (map (calculate_key_dl st') (pq st'))"
proof -
  obtain u q where q: "pq st = u # q" using assms(2) by (cases "pq st") auto
  then have "sorted (map (calculate_key_dl st) q)" "\<forall>w \<in> set q. calculate_key_dl st u \<le> calculate_key_dl st w"
    using assms(1) by simp_all
  moreover have "calculate_key_dl (st\<lparr>pq := q, in_queue := (in_queue st)(u := False)\<rparr>) = calculate_key_dl st"
    by simp
  ultimately show ?thesis by (simp add: pq_pop_def q)
qed

lemma dl_ex2_sorted: "sorted (map (calculate_key_dl dl_ex2) (pq dl_ex2))"
  by (simp add: dl_ex2_def calculate_key_dl_def calc_key_def)

text \<open>
  C15. \<open>PriorityQueue\<close> refines a priority queue over the multiset of its vertices: on a queue
  sorted by the vertices' current keys, \<open>insert\<close> adds the vertex to the multiset and keeps the
  list sorted, and \<open>pop\<close> removes a vertex of least key and keeps the rest sorted.
\<close>

theorem priority_queue_refines:
  assumes "sorted (map (calculate_key_dl st) (pq st))"
  shows "(\<exists>st'. pq_insert st v = Some (Inr st') \<and> mset (pq st') = add_mset v (mset (pq st)) \<and>
            sorted (map (calculate_key_dl st') (pq st'))) \<and>
         (pq st \<noteq> [] \<longrightarrow> (\<exists>u st'. pq_pop st = Inr (u, st') \<and> mset (pq st') = mset (pq st) - {#u#} \<and>
            (\<forall>w \<in> set (pq st). calculate_key_dl st u \<le> calculate_key_dl st w) \<and>
            sorted (map (calculate_key_dl st') (pq st'))))"
  using pq_insert_sorted [OF assms, of v] pq_pop_min [OF assms] by blast

theorem priority_queue_refines_witness:
  "\<exists>st'. pq_insert dl_ex2 (2, 2) = Some (Inr st') \<and> mset (pq st') = {#(2, 2), (2, 0), (0, 1)#}"
  using priority_queue_refines [OF dl_ex2_sorted, of "(2, 2)"] by (auto simp: dl_ex2_def)

section \<open>Neighbourhood, cost and \<open>rhs\<close>\<close>

lemma succ_window:
  assumes "in_grid n v"
  obtains x y where "v = (x, y)" "0 \<le> x" "x < n" "0 \<le> y" "y < n"
  using assms by (cases v) (auto simp: in_grid_def)

lemma succ_subset:
  "in_grid n v \<Longrightarrow> u \<in> set (succ n v) \<Longrightarrow> in_grid n u \<and> adjacent u v"
  by (erule succ_window) (auto simp: succ_def in_grid_def adjacent_def Let_def split: if_splits)

lemma succ_complete:
  assumes "in_grid n v" "in_grid n u" "adjacent u v"
  shows "u \<in> set (succ n v)"
proof -
  obtain x y where v: "v = (x, y)" "0 \<le> x" "x < n" "0 \<le> y" "y < n"
    using assms(1) by (rule succ_window)
  obtain a b where u: "u = (a, b)" by (cases u)
  show ?thesis
    using assms(2,3) unfolding v u by (auto simp: succ_def in_grid_def adjacent_def Let_def)
qed

text \<open>
  For a cell of the grid, \<open>Graph.succ\<close> returns exactly the cells of the grid adjacent to
  it (the clipped 8-neighbourhood).
\<close>

lemma set_succ:
  assumes "in_grid n v"
  shows "set (succ n v) = {u. in_grid n u \<and> adjacent u v}"
proof -
  obtain x y where v: "v = (x, y)" by (cases v)
  have "0 \<le> x" "x < n" "0 \<le> y" "y < n" using assms v by (auto simp: in_grid_def)
  then show ?thesis
    unfolding v by (auto simp: succ_def in_grid_def adjacent_def Let_def)
qed

theorem succ_witness: "set (succ 3 (0, 0)) = {u. in_grid 3 u \<and> adjacent u (0, 0)}"
  by (rule set_succ) (simp add: in_grid_def)

lemma pred_eq_succ: "pred = succ"
  by (simp add: fun_eq_iff pred_def succ_def)

lemma adjacent_sym: "adjacent u v \<longleftrightarrow> adjacent v u"
  by (auto simp: adjacent_def abs_minus_commute)

lemma cost_dl_sym: "cost_dl st u v = cost_dl st v u"
  by (simp add: cost_dl_def distance_dl_def abs_minus_commute power2_commute mult.commute)

text \<open>
  \<open>Graph.cost\<close> between adjacent cells with occupancy 0 or 1 is defined, positive and
  symmetric.
\<close>

lemma cost_dl_adjacent:
  assumes "adjacent u v" "grid st u \<in> {0, 1}" "grid st v \<in> {0, 1}"
  shows "\<exists>c. cost_dl st u v = Some c \<and> cost_dl st v u = Some c \<and> 0 < c"
proof -
  have "0 < distance_dl u v"
    using assms(1) by (cases u, cases v) (auto simp: adjacent_def distance_dl_def sum_power2_gt_zero_iff)
  moreover have "0 < (of_int (grid st u) + 1/1000000) * (of_int (grid st v) + (1/1000000::real))"
    using assms(2,3) by auto
  ultimately have pos: "0 < distance_dl u v /
      ((of_int (grid st u) + 1/1000000) * (of_int (grid st v) + 1/1000000))"
    by (rule divide_pos_pos)
  have uv: "cost_dl st u v = Some (distance_dl u v /
      ((of_int (grid st u) + 1/1000000) * (of_int (grid st v) + 1/1000000)))"
    using assms(1) by (auto simp: cost_dl_def adjacent_def)
  show ?thesis using uv pos cost_dl_sym [of st u v] by auto
qed

theorem cost_witness: "\<exists>c. cost_dl dl_ex2 (0, 0) (1, 1) = Some c \<and> cost_dl dl_ex2 (1, 1) (0, 0) = Some c \<and> 0 < c"
  by (rule cost_dl_adjacent) (simp_all add: adjacent_def dl_ex2_def)

text \<open>
  The loop of \<open>Graph.calculate_rhs\<close> (keep \<open>tmp\<close> when strictly smaller) is a fold of
  \<open>min\<close>, the minimum of the start value and the values \<open>g + cost\<close>.
\<close>

lemma rhs_loop_fold:
  "\<forall>s \<in> set ss. adjacent s v \<Longrightarrow>
   rhs_loop st v ss ans = Inr (fold (\<lambda>s a. min (vg st s + Fin (the (cost_dl st s v))) a) ss ans)"
proof (induction ss arbitrary: ans)
  case Nil
  then show ?case by simp
next
  case (Cons s ss)
  then have "cost_dl st s v = Some (the (cost_dl st s v))"
    by (auto simp: cost_dl_def adjacent_def)
  then show ?case using Cons by (auto simp: min_def Let_def split: option.splits)
qed

lemma fold_min_Min:
  "fold (\<lambda>s a. min (f s) a) ss ans = Min (insert ans (f ` set ss))"
proof -
  have "fold (\<lambda>s a. min (f s) a) ss ans = fold min (map f ss) ans"
    by (simp add: fold_map comp_def)
  also have "\<dots> = Min (set (ans # map f ss))"
    by (rule Min.set_eq_fold [symmetric])
  finally show ?thesis by simp
qed

text \<open>
  C22. \<open>Graph.calculate_rhs\<close> on a cell of the grid never raises and sets its \<open>rhs\<close>,
  and nothing else, to the minimum over the cells of the grid adjacent to it (the eight
  neighbours, clipped at the border) of \<open>g + cost\<close>, starting from \<open>inf\<close>:
  the right-hand side of the D* Lite equation \<open>rhs(v) = min (g(s') + c(s', v))\<close>.
\<close>

theorem calculate_rhs_min:
  assumes "in_grid (gsize st) v"
  shows "calculate_rhs_dl st v =
           Inr (st\<lparr>vrhs := (vrhs st)(v := Min (insert Inf
              ((\<lambda>u. vg st u + Fin (the (cost_dl st u v))) ` {u. in_grid (gsize st) u \<and> adjacent u v})))\<rparr>)"
proof -
  have adj: "\<forall>s \<in> set (succ (gsize st) v). adjacent s v"
    using succ_subset [OF assms] by blast
  show ?thesis
    unfolding calculate_rhs_dl_def rhs_loop_fold [OF adj] fold_min_Min set_succ [OF assms]
    by simp
qed

theorem calculate_rhs_min_witness:
  "calculate_rhs_dl dl_ex2 (0, 0) =
     Inr (dl_ex2\<lparr>vrhs := (vrhs dl_ex2)((0, 0) := Min (insert Inf
        ((\<lambda>u. vg dl_ex2 u + Fin (the (cost_dl dl_ex2 u (0, 0)))) ` {u. in_grid (gsize dl_ex2) u \<and> adjacent u (0, 0)})))\<rparr>)"
  using calculate_rhs_min [of dl_ex2 "(0, 0)"] by (simp add: dl_ex2_def in_grid_def)

section \<open>Planning and path extraction\<close>

lemma argmin_from_bound: "best < i \<Longrightarrow> argmin_from best bv i xs < i + length xs"
proof (induction xs arbitrary: best bv i)
  case Nil
  then show ?case by simp
next
  case (Cons x xs)
  then show ?case using Cons.IH [of i "Suc i"] Cons.IH [of best "Suc i"] by auto
qed

lemma argmin_bound: "argmin xs = Inr i \<Longrightarrow> i < length xs"
  using argmin_from_bound [of 0 1] by (auto simp: argmin_def split: list.splits)

lemma show_loop_walk:
  "show_loop k st cur = Some (Inr p) \<Longrightarrow> in_grid (gsize st) cur \<Longrightarrow>
   is_walk (gsize st) (cur # p) \<and> last (cur # p) = ggoal st"
proof (induction k st cur arbitrary: p rule: show_loop.induct)
  case (1 st cur)
  then show ?case by simp
next
  case (2 n st cur)
  show ?case
  proof (cases "cur = ggoal st")
    case True
    then show ?thesis using "2.prems" by simp
  next
    case False
    let ?cs = "succ (gsize st) cur"
    obtain i where i: "argmin (map (vg st) ?cs) = Inr i"
      using "2.prems"(1) False by (auto simp: Let_def obind_def split: option.splits sum.splits)
    let ?nxt = "?cs ! i"
    have il: "i < length ?cs" using argmin_bound [OF i] by simp
    have nx: "?nxt \<in> set (succ (gsize st) cur)" using il by simp
    then have ad: "in_grid (gsize st) ?nxt" "adjacent ?nxt cur"
      using succ_subset [OF "2.prems"(2)] by auto
    obtain p' where p': "show_loop n st ?nxt = Some (Inr p')" "p = ?nxt # p'"
      using "2.prems"(1) False i by (auto simp: Let_def obind_eq_Some_Inr)
    have "is_walk (gsize st) (?nxt # p') \<and> last (?nxt # p') = ggoal st"
      using "2.IH" [OF False refl refl p'(1) ad(1)] by simp
    then show ?thesis using p'(2) ad adjacent_sym "2.prems"(2) by auto
  qed
qed


lemma dl_ex1_run:
  "compute_path_dl 1 dl_ex1 = Some (Inr (dl_ex1\<lparr>vg := (vg dl_ex1)((0, 0) := Fin 0),
      in_queue := (in_queue dl_ex1)((0, 0) := False), pq := []\<rparr>))"
  by (simp add: compute_path_dl_def dl_ex1_def update_h_def in_grid_def distance_dl_def alpha_def
      loop_test_dl_def top_key_def calculate_key_dl_def calc_key_def compare_array_def key_list_def
      compare_from.simps pq_pop_def expand_dl_def succ_def fun_eq_iff)

lemma sqrt_four: "sqrt 4 = (2::real)"
  using real_sqrt_abs [of 2] by simp

lemma succ_2_00: "succ 2 (0, 0) = [(0, 1), (1, 0), (1, 1)]"
  by (simp add: succ_def upto.simps)

lemma succ_2_01: "succ 2 (0, 1) = [(0, 0), (1, 0), (1, 1)]"
  by (simp add: succ_def upto.simps)

lemma show_loop_dl_ex3: "show_loop n dl_ex3 (0, 0) = None \<and> show_loop n dl_ex3 (0, 1) = None"
proof (induction n)
  case 0
  then show ?case by simp
next
  case (Suc n)
  then show ?case
    by (simp add: dl_ex3_def succ_2_00 succ_2_01 argmin_def Let_def)
qed

lemma dl_ex4_path: "show_path_dl 2 dl_ex4 = Some (Inr [(0, 0), (1, 1)])"
  by (simp add: show_path_dl_def dl_ex4_def dl_ex3_def succ_2_00 argmin_def numeral_eq_Suc)

text \<open>
  \<open>compute_path\<close> on an empty queue raises \<open>IndexError\<close> from \<open>queue.top_key()\<close>,
  whatever the state of the robot's cell: the loop test reads the queue before the
  consistency check.
\<close>

theorem compute_path_dl_empty_queue:
  "pq st = [] \<Longrightarrow> compute_path_dl (Suc n) st = Some (Inl IndexError)"
  by (simp add: compute_path_dl_def update_h_def loop_test_dl_def top_key_def)

text \<open>
  On the single-cell grid, the first \<open>compute_path\<close> pops the goal, makes it consistent and
  leaves the queue empty; calling it again raises.
\<close>

theorem compute_path_dl_empty_queue_witness:
  "compute_path_dl 1 dl_ex1 = Some (Inr (dl_ex1\<lparr>vg := (vg dl_ex1)((0, 0) := Fin 0),
      in_queue := (in_queue dl_ex1)((0, 0) := False), pq := []\<rparr>)) \<and>
   compute_path_dl 1 (dl_ex1\<lparr>vg := (vg dl_ex1)((0, 0) := Fin 0),
      in_queue := (in_queue dl_ex1)((0, 0) := False), pq := []\<rparr>) = Some (Inl IndexError)"
  using dl_ex1_run compute_path_dl_empty_queue [of "dl_ex1\<lparr>vg := (vg dl_ex1)((0, 0) := Fin 0),
      in_queue := (in_queue dl_ex1)((0, 0) := False), pq := []\<rparr>" 0] by simp

text \<open>
  C23. A path returned by \<open>show_path\<close> from a cell of the grid starts at the robot's cell,
  ends at the goal, and each step goes to an adjacent cell of the grid.
\<close>

theorem show_path_walk:
  assumes "show_path_dl n st = Some (Inr p)" "in_grid (gsize st) (gcurrent st)"
  shows "hd p = gcurrent st \<and> last p = ggoal st \<and> is_walk (gsize st) p"
proof -
  obtain p' where "show_loop n st (gcurrent st) = Some (Inr p')" "p = gcurrent st # p'"
    using assms(1) by (auto simp: show_path_dl_def obind_eq_Some_Inr)
  then show ?thesis using show_loop_walk assms(2) by auto
qed

theorem show_path_walk_witness: "last [(0::int, 0::int), (1, 1)] = ggoal dl_ex4 \<and> is_walk 2 [(0, 0), (1, 1)]"
  using show_path_walk [OF dl_ex4_path] by (simp add: dl_ex4_def dl_ex3_def in_grid_def)

text \<open>
  C24. \<open>show_path\<close> has no guard against a \<open>g\<close> landscape without descent: on \<open>dl_ex3\<close>
  (all \<open>g = inf\<close>) \<open>np.argmin\<close> picks the first neighbour each time and the walk
  alternates between two cells, so no amount of fuel makes it return.
\<close>

theorem show_path_diverges: "show_path_dl n dl_ex3 = None"
  using show_loop_dl_ex3 [of n] by (simp add: show_path_dl_def dl_ex3_def)

end
