(* ===== verification/DstarMain.thy ===== *)
theory DstarMain
  imports DstarGrid
begin

text \<open>
  The running mode of the main loop of \<open>src/DstarLite.py\<close>: the robot knows the map
  \<open>graph\<close> and the world is the map \<open>real\<close>. Each step senses the cells around the
  robot where the two maps differ, copies the real value into the robot's map, updates the
  changed vertex and its predecessors and recomputes the path after each change, extracts
  the path and moves the robot to its second cell. The set-up events (start, goal,
  obstacles) are the graph operations they call.
\<close>

section \<open>Set-up\<close>

text \<open>
  \<open>Graph(size)\<close>: every cell free (\<open>grid = np.ones\<close>), \<open>g = rhs = inf\<close>, \<open>h = 0\<close>,
  no vertex queued; then the events \<open>update_start((i, j), update_current=True)\<close>,
  \<open>update_goal((i, j))\<close> (\<open>goal.rhs = 0\<close>) and \<open>priority_queue.insert(graph.goal)\<close>.
  Python's \<open>None\<close> for a start or goal not yet chosen has no counterpart: the set-up takes
  both.
\<close>

definition setup_dl :: "int \<Rightarrow> coord \<Rightarrow> coord \<Rightarrow> dl_state outcome" where
  "setup_dl sz start goal_c =
     pq_insert \<lparr>gsize = sz, grid = (\<lambda>_. 1), vg = (\<lambda>_. Inf), vrhs = (\<lambda>_. Inf)(goal_c := Fin 0),
                vh = (\<lambda>_. 0), in_queue = (\<lambda>_. False), gcurrent = start, ggoal = goal_c, pq = []\<rparr> goal_c"

section \<open>The running step\<close>

text \<open>\<open>changes\<close>: the successors of the robot's cell whose value differs in the real map.\<close>

definition sense_changes :: "dl_state \<Rightarrow> (coord \<Rightarrow> int) \<Rightarrow> coord list" where
  "sense_changes st real_grid = filter (\<lambda>v. grid st v \<noteq> real_grid v) (succ (gsize st) (gcurrent st))"

text \<open>
  \<open>for change in changes: graph.update_grid(change, real.grid[i][j]); update_vertex(...);
  for pred in graph.pred(...): update_vertex(...); compute_path(...)\<close>: \<open>compute_path\<close>
  is inside the loop, once per change.
\<close>

fun apply_dl_changes :: "nat \<Rightarrow> (coord \<Rightarrow> int) \<Rightarrow> dl_state \<Rightarrow> coord list \<Rightarrow> dl_state outcome" where
  "apply_dl_changes n real_grid st [] = Some (Inr st)"
| "apply_dl_changes n real_grid st (c # cs) =
     obind (update_vertex_dl (update_grid st c (real_grid c)) c) (\<lambda>st1.
     obind (update_vertices_dl st1 (pred (gsize st1) c)) (\<lambda>st2.
     obind (compute_path_dl n st2) (\<lambda>st3. apply_dl_changes n real_grid st3 cs)))"

text \<open>
  One step of the running mode: sense and repair, \<open>path = show_path(graph)\<close>, then
  \<open>graph.current = path[1]\<close> unless the robot is at the goal (\<open>running = False\<close>). The
  result carries the new state, the path and the flag \<open>running\<close>.
\<close>

definition running_step :: "nat \<Rightarrow> (coord \<Rightarrow> int) \<Rightarrow> dl_state \<Rightarrow> (dl_state \<times> coord list \<times> bool) outcome" where
  "running_step n real_grid st =
     obind (apply_dl_changes n real_grid st (sense_changes st real_grid)) (\<lambda>st1.
     obind (show_path_dl n st1) (\<lambda>path.
       if gcurrent st1 \<noteq> ggoal st1 then
         (if 1 < length path then Some (Inr (st1\<lparr>gcurrent := path ! 1\<rparr>, path, True))
          else Some (Inl IndexError))
       else Some (Inr (st1, path, False))))"

section \<open>Frame\<close>

text \<open>The search operations change neither the maps, the size, nor the robot's and goal's cells.\<close>

definition dl_frame :: "dl_state \<Rightarrow> dl_state \<Rightarrow> bool" where
  "dl_frame st st' \<longleftrightarrow> gsize st' = gsize st \<and> grid st' = grid st \<and> gcurrent st' = gcurrent st \<and> ggoal st' = ggoal st"

lemma dl_frame_refl [simp]: "dl_frame st st"
  by (simp add: dl_frame_def)

lemma dl_frame_trans: "dl_frame st1 st2 \<Longrightarrow> dl_frame st2 st3 \<Longrightarrow> dl_frame st1 st3"
  by (simp add: dl_frame_def)

lemma calculate_rhs_dl_frame: "calculate_rhs_dl st v = Inr st' \<Longrightarrow> dl_frame st st'"
  by (auto simp: calculate_rhs_dl_def rbind_eq_Inr dl_frame_def)

lemma pq_remove_frame: "pq_remove st v = Inr st' \<Longrightarrow> dl_frame st st'"
  by (auto simp: pq_remove_def dl_frame_def split: if_splits)

lemma pq_insert_frame: "pq_insert st v = Some (Inr st') \<Longrightarrow> dl_frame st st'"
  by (auto simp: pq_insert_def Let_def obind_eq_Some_Inr dl_frame_def)

lemma update_vertex_dl_frame: "update_vertex_dl st v = Some (Inr st') \<Longrightarrow> dl_frame st st'"
  unfolding update_vertex_dl_def
  by (auto simp: obind_eq_Some_Inr split: if_splits
      dest!: calculate_rhs_dl_frame pq_remove_frame pq_insert_frame intro: dl_frame_trans)

lemma update_vertices_dl_frame: "update_vertices_dl st vs = Some (Inr st') \<Longrightarrow> dl_frame st st'"
proof (induction vs arbitrary: st)
  case Nil
  then show ?case by simp
next
  case (Cons v vs)
  then obtain st1 where "update_vertex_dl st v = Some (Inr st1)" "update_vertices_dl st1 vs = Some (Inr st')"
    by (auto simp: obind_eq_Some_Inr)
  then show ?case using Cons.IH update_vertex_dl_frame dl_frame_trans by blast
qed

lemma expand_dl_frame: "expand_dl st v = Some (Inr st') \<Longrightarrow> dl_frame st st'"
  unfolding expand_dl_def
  by (auto simp: obind_eq_Some_Inr dl_frame_def split: if_splits
      dest!: update_vertices_dl_frame update_vertex_dl_frame)

lemma dl_loop_frame: "dl_loop n st = Some (Inr st') \<Longrightarrow> dl_frame st st'"
proof (induction n arbitrary: st)
  case 0
  then show ?case by simp
next
  case (Suc n)
  show ?case
  proof (cases "loop_test_dl st")
    case (Inl e)
    then show ?thesis using Suc.prems by simp
  next
    case (Inr c)
    show ?thesis
    proof (cases c)
      case False
      then show ?thesis using Suc.prems Inr by simp
    next
      case True
      then obtain v st1 st2 where p: "pq_pop st = Inr (v, st1)" "expand_dl st1 v = Some (Inr st2)"
        "(if pq st2 = [] then Some (Inr st2) else dl_loop n st2) = Some (Inr st')"
        using Suc.prems Inr by (auto simp: obind_eq_Some_Inr split: prod.splits)
      have f1: "dl_frame st st1" using p(1) by (auto simp: pq_pop_def dl_frame_def split: list.splits)
      have f2: "dl_frame st1 st2" using expand_dl_frame [OF p(2)] .
      have f3: "dl_frame st2 st'" using p(3) Suc.IH by (auto split: if_splits)
      show ?thesis using f1 f2 f3 dl_frame_trans by blast
    qed
  qed
qed

lemma compute_path_dl_frame: "compute_path_dl n st = Some (Inr st') \<Longrightarrow> dl_frame st st'"
  unfolding compute_path_dl_def
  using dl_loop_frame dl_frame_trans [of st "update_h st" st'] by (simp add: update_h_def dl_frame_def)

lemma is_walk_hd: "is_walk n (x # r) \<Longrightarrow> in_grid n x"
  by (cases r) auto

lemma apply_dl_changes_grid:
  "apply_dl_changes n rg st cs = Some (Inr st') \<Longrightarrow>
   gsize st' = gsize st \<and> gcurrent st' = gcurrent st \<and> ggoal st' = ggoal st \<and>
   grid st' = (\<lambda>v. if v \<in> set cs then rg v else grid st v)"
proof (induction cs arbitrary: st)
  case Nil
  then show ?case by simp
next
  case (Cons c cs)
  then obtain st1 st2 st3 where p: "update_vertex_dl (update_grid st c (rg c)) c = Some (Inr st1)"
    "update_vertices_dl st1 (pred (gsize st1) c) = Some (Inr st2)" "compute_path_dl n st2 = Some (Inr st3)"
    "apply_dl_changes n rg st3 cs = Some (Inr st')"
    by (auto simp: obind_eq_Some_Inr)
  have "dl_frame (update_grid st c (rg c)) st3"
    using update_vertex_dl_frame [OF p(1)] update_vertices_dl_frame [OF p(2)] compute_path_dl_frame [OF p(3)]
      dl_frame_trans by blast
  then have f: "gsize st3 = gsize st" "gcurrent st3 = gcurrent st" "ggoal st3 = ggoal st"
    "grid st3 = (grid st)(c := rg c)"
    by (simp_all add: dl_frame_def update_grid_def)
  show ?case using Cons.IH [OF p(4)] f by (auto simp: fun_eq_iff)
qed

text \<open>
  C21. One step of the running mode senses and moves: when it returns with the robot still
  running, the robot's map agrees with the real map on every neighbour of the robot's
  former cell, and the robot has moved to an adjacent cell of the grid.
\<close>

theorem running_step_senses_and_moves:
  assumes "running_step n rg st = Some (Inr (st', path, True))" "in_grid (gsize st) (gcurrent st)"
  shows "(\<forall>v \<in> set (succ (gsize st) (gcurrent st)). grid st' v = rg v) \<and>
         in_grid (gsize st) (gcurrent st') \<and> adjacent (gcurrent st) (gcurrent st')"
proof -
  obtain st1 where a: "apply_dl_changes n rg st (sense_changes st rg) = Some (Inr st1)"
    and r: "obind (show_path_dl n st1) (\<lambda>path.
       if gcurrent st1 \<noteq> ggoal st1 then
         (if 1 < length path then Some (Inr (st1\<lparr>gcurrent := path ! 1\<rparr>, path, True))
          else Some (Inl IndexError))
       else Some (Inr (st1, path, False))) = Some (Inr (st', path, True))"
    using assms(1) unfolding running_step_def by (auto simp: obind_eq_Some_Inr)
  have g: "gsize st1 = gsize st" "gcurrent st1 = gcurrent st"
    "grid st1 = (\<lambda>v. if v \<in> set (sense_changes st rg) then rg v else grid st v)"
    using apply_dl_changes_grid [OF a] by simp_all
  obtain p where p: "show_path_dl n st1 = Some (Inr p)" "p = path" "gcurrent st1 \<noteq> ggoal st1"
    "1 < length path" "st' = st1\<lparr>gcurrent := path ! 1\<rparr>"
    using r by (auto simp: obind_eq_Some_Inr split: if_splits)
  obtain p' where p': "show_loop n st1 (gcurrent st1) = Some (Inr p')" "path = gcurrent st1 # p'"
    using p(1,2) by (auto simp: show_path_dl_def obind_eq_Some_Inr)
  have w: "is_walk (gsize st1) (gcurrent st1 # p')"
    using show_loop_walk [OF p'(1)] assms(2) g(1,2) by simp
  obtain y r' where y: "p' = y # r'" using p(4) p'(2) by (cases p') auto
  have "in_grid (gsize st) y \<and> adjacent (gcurrent st) y" using w y g(1,2) is_walk_hd [of "gsize st" y r'] by simp
  moreover have "gcurrent st' = y" using p(5) p'(2) y by simp
  moreover have "\<forall>v \<in> set (succ (gsize st) (gcurrent st)). grid st' v = rg v"
    using p(5) g(3) by (simp add: sense_changes_def)
  ultimately show ?thesis by simp
qed

lemma setup_dl_ex1: "setup_dl 1 (0, 0) (0, 0) = Some (Inr dl_ex1)"
  by (simp add: setup_dl_def pq_insert_def binary_search_base dl_ex1_def insert_at_def)

lemma dl_ex4_fields: "gsize dl_ex4 = 2" "gcurrent dl_ex4 = (0, 0)" "ggoal dl_ex4 = (1, 1)"
  by (simp_all add: dl_ex4_def dl_ex3_def)

lemma dl_ex4_running: "running_step 2 (grid dl_ex4) dl_ex4 = Some (Inr (dl_ex4\<lparr>gcurrent := (1, 1)\<rparr>, [(0, 0), (1, 1)], True))"
  by (simp add: running_step_def sense_changes_def dl_ex4_path dl_ex4_fields)

theorem running_step_senses_and_moves_witness: "in_grid 2 (1, 1) \<and> adjacent (0, 0) (1, 1)"
  using running_step_senses_and_moves [OF dl_ex4_running] by (simp add: dl_ex4_fields in_grid_def)

end
