(* ===== verification/DstarUI.thy ===== *)
theory DstarUI
  imports DstarMain
begin

text \<open>
  The event loop of \<open>src/DstarLite.py\<close> (lines 254-359): the maps \<open>real\<close> (the world)
  and \<open>graph\<close> (the robot's knowledge), the global \<open>mode\<close> set by four buttons, mouse
  clicks on the left grid that place the start and the goal and draw known and unknown
  obstacles, and, once the mode is \<open>"running"\<close>, one running step per frame
  (\<open>running_step\<close> of theory \<open>DstarMain\<close>).

  The state is the record \<open>ui_state\<close>. Of \<open>real\<close> only the occupancy grid is read by
  the loop, so it is the map \<open>real_grid\<close>; \<open>graph\<close> and the queue are the solver state
  \<open>robot_map\<close>. Python's \<open>None\<close> for a start or goal not yet chosen is the flags
  \<open>has_current\<close> and \<open>has_goal\<close>. A click position is turned into a cell by
  \<open>int((mx - 50) / 30)\<close> (\<open>py_int\<close>) and indexes the maps with Python's negative
  indices (\<open>py_index\<close>). Drawing, fonts and the one-second wait are not modelled.
\<close>

section \<open>Screen layout\<close>

definition GRID_SIZE :: int where
  "GRID_SIZE = 30"

text \<open>\<open>MIDDLE = SCREEN_WIDTH // 2\<close> with \<open>SCREEN_WIDTH = 2 * GRID_SIZE * size + 150\<close>.\<close>

definition middle :: "int \<Rightarrow> int" where
  "middle sz = (2 * (GRID_SIZE * sz) + 150) div 2"

type_synonym rect = "int \<times> int \<times> int \<times> int"

text \<open>\<open>Rect.collidepoint(x, y)\<close>: the left and top edges are inside, the right and bottom ones not.\<close>

definition collidepoint :: "rect \<Rightarrow> int \<times> int \<Rightarrow> bool" where
  "collidepoint r p =
     (let (left, top, w, h) = r; (x, y) = p in left \<le> x \<and> x < left + w \<and> top \<le> y \<and> y < top + h)"

definition start_goal_rect :: "int \<Rightarrow> rect" where
  "start_goal_rect sz = (middle sz - 450, 30, 150, 40)"

definition obstacles_rect :: "int \<Rightarrow> rect" where
  "obstacles_rect sz = (middle sz - 200, 30, 150, 40)"

definition unknown_obstacles_rect :: "int \<Rightarrow> rect" where
  "unknown_obstacles_rect sz = (middle sz + 50, 30, 150, 40)"

definition running_rect :: "int \<Rightarrow> rect" where
  "running_rect sz = (middle sz + 300, 30, 150, 40)"

text \<open>\<open>i = int((mx - top_lefts[0][0]) / GRID_SIZE)\<close>, \<open>j\<close> likewise with the top edge 100.\<close>

definition cell_of :: "int \<times> int \<Rightarrow> int \<times> int" where
  "cell_of p = (py_int (of_int (fst p - 50) / of_int GRID_SIZE), py_int (of_int (snd p - 100) / of_int GRID_SIZE))"

section \<open>State\<close>

text \<open>The values of \<open>mode\<close>: \<open>""\<close>, the three of \<open>MODE\<close>, and \<open>"running"\<close>.\<close>

datatype ui_mode = ModeNone | ModeStartGoal | ModeObstacles | ModeUnknown | ModeRunning

definition in_MODE :: "ui_mode \<Rightarrow> bool" where
  "in_MODE m \<longleftrightarrow> m = ModeStartGoal \<or> m = ModeObstacles \<or> m = ModeUnknown"

record ui_state =
  umode :: ui_mode
  real_grid :: "coord \<Rightarrow> int"
  robot_map :: dl_state
  has_current :: bool
  has_goal :: bool
  is_running :: bool

text \<open>
  \<open>real = Graph(size); graph = Graph(size); priority_queue = PriorityQueue()\<close>: every cell
  free, \<open>g = rhs = inf\<close>, no start, no goal, an empty queue, \<open>mode = ""\<close>.
\<close>

definition ui_init :: "int \<Rightarrow> ui_state" where
  "ui_init sz =
     \<lparr>umode = ModeNone, real_grid = (\<lambda>_. 1),
      robot_map = \<lparr>gsize = sz, grid = (\<lambda>_. 1), vg = (\<lambda>_. Inf), vrhs = (\<lambda>_. Inf), vh = (\<lambda>_. 0),
                   in_queue = (\<lambda>_. False), gcurrent = (0, 0), ggoal = (0, 0), pq = []\<rparr>,
      has_current = False, has_goal = False, is_running = True\<rparr>"

section \<open>Events\<close>

datatype ui_event = Quit | MouseDown "int \<times> int" nat | OtherEvent

text \<open>\<open>graph.graph[i][j]\<close> (and \<open>grid[i][j]\<close>): both indices checked, negative ones wrapped.\<close>

definition grid_index :: "int \<Rightarrow> int \<times> int \<Rightarrow> coord result" where
  "grid_index sz ij = rbind (py_index sz (fst ij)) (\<lambda>i. rbind (py_index sz (snd ij)) (\<lambda>j. Inr (i, j)))"

text \<open>
  A click on the grid in mode \<open>"start_goal"\<close>: button 1 sets the start and the robot's
  current cell (\<open>update_start(..., update_current=True)\<close>); button 3 sets the goal with
  \<open>rhs = 0\<close> and inserts it into the queue. \<open>real.update_start\<close> and
  \<open>real.update_goal\<close> index the same way and change nothing the loop reads.
\<close>

definition click_start_goal :: "nat \<Rightarrow> int \<times> int \<Rightarrow> ui_state \<Rightarrow> ui_state outcome" where
  "click_start_goal button ij s =
     obind (if button = 1 then
              Some (rbind (grid_index (gsize (robot_map s)) ij) (\<lambda>c.
                Inr (s\<lparr>robot_map := (robot_map s)\<lparr>gcurrent := c\<rparr>, has_current := True\<rparr>)))
            else Some (Inr s)) (\<lambda>s1.
       if button = 3 then
         obind (Some (grid_index (gsize (robot_map s1)) ij)) (\<lambda>c.
         obind (pq_insert ((robot_map s1)\<lparr>ggoal := c, vrhs := (vrhs (robot_map s1))(c := Fin 0)\<rparr>) c) (\<lambda>st.
           Some (Inr (s1\<lparr>robot_map := st, has_goal := True\<rparr>))))
       else Some (Inr s1))"

text \<open>
  A click on the grid (the \<open>else\<close> branch of the button tests): in a mode of \<open>MODE\<close>
  it edits the maps (\<open>"obstacles"\<close> both grids, \<open>"unknown obstacles"\<close> the real one
  only); in any other mode it prints and sets \<open>running = False\<close>.
\<close>

definition click_cell :: "nat \<Rightarrow> int \<times> int \<Rightarrow> ui_state \<Rightarrow> ui_state outcome" where
  "click_cell button p s =
     (if in_MODE (umode s) then
        (let ij = cell_of p; sz = gsize (robot_map s) in
         case umode s of
           ModeStartGoal \<Rightarrow> click_start_goal button ij s
         | ModeObstacles \<Rightarrow>
             Some (rbind (grid_index sz ij) (\<lambda>c.
               Inr (s\<lparr>real_grid := (real_grid s)(c := 0), robot_map := update_grid (robot_map s) c 0\<rparr>)))
         | ModeUnknown \<Rightarrow>
             Some (rbind (grid_index sz ij) (\<lambda>c. Inr (s\<lparr>real_grid := (real_grid s)(c := 0)\<rparr>)))
         | _ \<Rightarrow> Some (Inr s))
      else Some (Inr (s\<lparr>is_running := False\<rparr>)))"

text \<open>
  \<open>MOUSEBUTTONDOWN\<close>: the four buttons in order, the \<open>"Running"\<close> button also runs
  \<open>compute_path(priority_queue, graph)\<close>, which reads \<open>graph.current\<close> in its first
  loop over the cells and in its loop test after \<open>queue.top_key()\<close>
  (\<open>AttributeError\<close> on \<open>None\<close>, \<open>IndexError\<close> first on an empty grid and queue);
  otherwise the click is on the grid.
\<close>

definition mouse_down :: "nat \<Rightarrow> int \<times> int \<Rightarrow> nat \<Rightarrow> ui_state \<Rightarrow> ui_state outcome" where
  "mouse_down n p button s =
     (let sz = gsize (robot_map s) in
      if collidepoint (start_goal_rect sz) p then Some (Inr (s\<lparr>umode := ModeStartGoal\<rparr>))
      else if collidepoint (obstacles_rect sz) p then Some (Inr (s\<lparr>umode := ModeObstacles\<rparr>))
      else if collidepoint (unknown_obstacles_rect sz) p then Some (Inr (s\<lparr>umode := ModeUnknown\<rparr>))
      else if collidepoint (running_rect sz) p then
        (if has_current s then
           obind (compute_path_dl n (robot_map s)) (\<lambda>st. Some (Inr (s\<lparr>umode := ModeRunning, robot_map := st\<rparr>)))
         else if 0 < sz \<or> pq (robot_map s) \<noteq> [] then Some (Inl AttributeError)
         else Some (Inl IndexError))
      else click_cell button p s)"

text \<open>
  The event loop of one frame; \<open>QUIT\<close> calls \<open>sys.exit()\<close> and ends the program (the
  flag returned with the state).
\<close>

fun handle_events :: "nat \<Rightarrow> ui_event list \<Rightarrow> ui_state \<Rightarrow> (ui_state \<times> bool) outcome" where
  "handle_events n [] s = Some (Inr (s, False))"
| "handle_events n (Quit # es) s = Some (Inr (s\<lparr>is_running := False\<rparr>, True))"
| "handle_events n (MouseDown p b # es) s = obind (mouse_down n p b s) (handle_events n es)"
| "handle_events n (OtherEvent # es) s = handle_events n es s"

text \<open>
  One iteration of \<open>while running\<close>: the events, then, in mode \<open>"running"\<close>, the
  running step; reaching the goal sets \<open>running = False\<close>.
\<close>

definition ui_frame :: "nat \<Rightarrow> ui_event list \<Rightarrow> ui_state \<Rightarrow> ui_state outcome" where
  "ui_frame n evs s =
     obind (handle_events n evs s) (\<lambda>(s1, exited).
       if exited then Some (Inr s1)
       else if umode s1 = ModeRunning then
         obind (running_step n (real_grid s1) (robot_map s1)) (\<lambda>(st, path, r).
           Some (Inr (s1\<lparr>robot_map := st, is_running := (is_running s1 \<and> r)\<rparr>)))
       else Some (Inr s1))"

text \<open>The states the program reaches, frame by frame, while \<open>running\<close> holds.\<close>

inductive ui_reach :: "nat \<Rightarrow> int \<Rightarrow> ui_state \<Rightarrow> bool" for n :: nat and sz :: int where
  ui_reach_init: "ui_reach n sz (ui_init sz)"
| ui_reach_step: "ui_reach n sz s \<Longrightarrow> is_running s \<Longrightarrow> ui_frame n evs s = Some (Inr s') \<Longrightarrow> ui_reach n sz s'"

text \<open>Every obstacle of the robot's map is an obstacle of the world.\<close>

definition map_sound :: "ui_state \<Rightarrow> bool" where
  "map_sound s \<longleftrightarrow> (\<forall>c. grid (robot_map s) c = 0 \<longrightarrow> real_grid s c = 0)"


text \<open>
  The state after one frame in which the \<open>"Obstacles"\<close> button and then the top-left
  cell of a 2-by-2 grid are clicked.
\<close>

definition ex_ui :: ui_state where
  "ex_ui = (ui_init 2)\<lparr>umode := ModeObstacles, real_grid := (\<lambda>_. 1)((0, 0) := 0),
             robot_map := update_grid (robot_map (ui_init 2)) (0, 0) 0\<rparr>"

section \<open>Lemmas\<close>

lemma pq_insert_fields:
  "pq_insert st v = Some (Inr st') \<Longrightarrow> \<exists>q. st' = st\<lparr>pq := q, in_queue := (in_queue st)(v := True)\<rparr>"
  by (auto simp: pq_insert_def Let_def obind_eq_Some_Inr)

lemma compute_path_dl_grid: "compute_path_dl n st = Some (Inr st') \<Longrightarrow> grid st' = grid st"
  using compute_path_dl_frame by (simp add: dl_frame_def)

lemma running_step_grid:
  assumes "running_step n rg st = Some (Inr (st', path, r))"
  shows "grid st' = (\<lambda>v. if v \<in> set (sense_changes st rg) then rg v else grid st v)"
proof -
  obtain st1 where a: "apply_dl_changes n rg st (sense_changes st rg) = Some (Inr st1)"
    and r: "obind (show_path_dl n st1) (\<lambda>path.
       if gcurrent st1 \<noteq> ggoal st1 then
         (if 1 < length path then Some (Inr (st1\<lparr>gcurrent := path ! 1\<rparr>, path, True))
          else Some (Inl IndexError))
       else Some (Inr (st1, path, False))) = Some (Inr (st', path, r))"
    using assms unfolding running_step_def by (auto simp: obind_eq_Some_Inr)
  have "grid st' = grid st1" using r by (auto simp: obind_eq_Some_Inr split: if_splits)
  then show ?thesis using apply_dl_changes_grid [OF a] by simp
qed

lemma click_start_goal_grids:
  "click_start_goal b ij s = Some (Inr s') \<Longrightarrow>
   grid (robot_map s') = grid (robot_map s) \<and> real_grid s' = real_grid s"
  unfolding click_start_goal_def
  by (auto simp: obind_eq_Some_Inr rbind_eq_Inr dest!: pq_insert_fields split: if_splits)

lemma click_cell_sound:
  assumes "map_sound s" "click_cell b p s = Some (Inr s')"
  shows "map_sound s'"
proof (cases "umode s")
  case ModeStartGoal
  then show ?thesis using assms click_start_goal_grids [of b "cell_of p" s s']
    by (simp add: click_cell_def in_MODE_def map_sound_def)
next
  case ModeObstacles
  then show ?thesis using assms
    by (auto simp: click_cell_def in_MODE_def map_sound_def rbind_eq_Inr update_grid_def)
next
  case ModeUnknown
  then show ?thesis using assms
    by (auto simp: click_cell_def in_MODE_def map_sound_def rbind_eq_Inr)
qed (use assms in \<open>auto simp: click_cell_def in_MODE_def map_sound_def\<close>)

lemma mouse_down_sound:
  assumes "map_sound s" "mouse_down n p b s = Some (Inr s')"
  shows "map_sound s'"
  using assms click_cell_sound [OF assms(1)]
  by (auto simp: mouse_down_def Let_def map_sound_def obind_eq_Some_Inr dest!: compute_path_dl_grid
      split: if_splits)

lemma handle_events_sound:
  "map_sound s \<Longrightarrow> handle_events n es s = Some (Inr (s', q)) \<Longrightarrow> map_sound s'"
proof (induction n es s rule: handle_events.induct)
  case (3 n p b es s)
  then obtain a where "mouse_down n p b s = Some (Inr a)" "handle_events n es a = Some (Inr (s', q))"
    by (auto simp: obind_eq_Some_Inr)
  then show ?case using "3.IH" mouse_down_sound [OF "3.prems"(1)] by blast
qed (auto simp: map_sound_def)

lemma ui_frame_sound:
  assumes "map_sound s" "ui_frame n evs s = Some (Inr s')"
  shows "map_sound s'"
proof -
  obtain s1 q where h: "handle_events n evs s = Some (Inr (s1, q))"
    and r: "obind (Some (Inr (s1, q))) (\<lambda>(s1, exited).
       if exited then Some (Inr s1)
       else if umode s1 = ModeRunning then
         obind (running_step n (real_grid s1) (robot_map s1)) (\<lambda>(st, path, r).
           Some (Inr (s1\<lparr>robot_map := st, is_running := (is_running s1 \<and> r)\<rparr>)))
       else Some (Inr s1)) = Some (Inr s')"
    using assms(2) unfolding ui_frame_def by (auto simp: obind_eq_Some_Inr)
  have s1: "map_sound s1" using handle_events_sound [OF assms(1) h] .
  show ?thesis
  proof (cases "\<not> q \<and> umode s1 = ModeRunning")
    case True
    then obtain st path r where rs: "running_step n (real_grid s1) (robot_map s1) = Some (Inr (st, path, r))"
      and s': "s' = s1\<lparr>robot_map := st, is_running := (is_running s1 \<and> r)\<rparr>"
      using r by (auto simp: obind_eq_Some_Inr)
    show ?thesis using running_step_grid [OF rs] s1 s' by (auto simp: map_sound_def)
  next
    case False
    then show ?thesis using r s1 by (auto split: if_splits)
  qed
qed


lemma ui_reach_sound: "ui_reach n sz s \<Longrightarrow> map_sound s"
proof (induction rule: ui_reach.induct)
  case ui_reach_init
  then show ?case by (simp add: ui_init_def map_sound_def)
next
  case (ui_reach_step s evs s')
  then show ?case using ui_frame_sound by blast
qed

lemma ex_ui_frame: "ui_frame n [MouseDown (0, 40) 1, MouseDown (50, 100) 1] (ui_init 2) = Some (Inr ex_ui)"
  by (simp add: ui_frame_def mouse_down_def collidepoint_def start_goal_rect_def obstacles_rect_def
      unknown_obstacles_rect_def running_rect_def middle_def GRID_SIZE_def cell_of_def py_int_def
      grid_index_def py_index_def click_cell_def Let_def
      in_MODE_def ui_init_def ex_ui_def)

text \<open>
  A known obstacle drawn in mode \<open>"obstacles"\<close> changes the robot's map but no
  \<open>g\<close>, \<open>rhs\<close> or queue entry, and adds no cell to the ones the running step senses
  as changed: no vertex is ever updated for it.
\<close>

lemma obstacle_click_unrepaired:
  assumes "umode s = ModeObstacles" "click_cell b p s = Some (Inr s')"
  shows "vg (robot_map s') = vg (robot_map s) \<and> vrhs (robot_map s') = vrhs (robot_map s) \<and>
         pq (robot_map s') = pq (robot_map s) \<and>
         set (sense_changes (robot_map s') (real_grid s')) \<subseteq> set (sense_changes (robot_map s) (real_grid s))"
  using assms
  by (auto simp: click_cell_def in_MODE_def rbind_eq_Inr update_grid_def sense_changes_def split: if_splits)

text \<open>A click on the grid in mode \<open>""\<close> or \<open>"running"\<close> ends the program.\<close>

lemma grid_click_stops: "\<not> in_MODE (umode s) \<Longrightarrow> click_cell b p s = Some (Inr (s\<lparr>is_running := False\<rparr>))"
  by (simp add: click_cell_def)

text \<open>Choosing a new goal leaves the old goal with \<open>rhs = 0\<close>.\<close>

lemma new_goal_keeps_old_rhs:
  assumes "click_start_goal 3 ij s = Some (Inr s')" "vrhs (robot_map s) g = Fin 0" "g \<noteq> ggoal (robot_map s')"
  shows "vrhs (robot_map s') g = Fin 0"
proof -
  obtain c st where c: "grid_index (gsize (robot_map s)) ij = Inr c"
    and i: "pq_insert ((robot_map s)\<lparr>ggoal := c, vrhs := (vrhs (robot_map s))(c := Fin 0)\<rparr>) c = Some (Inr st)"
    and s': "s' = s\<lparr>robot_map := st, has_goal := True\<rparr>"
    using assms(1) by (auto simp: click_start_goal_def obind_eq_Some_Inr)
  show ?thesis using pq_insert_fields [OF i] s' assms(2,3) by auto
qed

text \<open>
  C20. In every state the D* Lite program reaches, frame after frame, through clicks on
  the buttons and the grid and the running steps, a cell that is blocked in the robot's
  map is blocked in the real map: the robot never believes an obstacle that is not there.
\<close>

theorem ui_reach_map_sound:
  "ui_reach n sz s \<Longrightarrow> grid (robot_map s) c = 0 \<Longrightarrow> real_grid s c = 0"
  using ui_reach_sound unfolding map_sound_def by blast

theorem ui_reach_map_sound_witness:
  "grid (robot_map ex_ui) (0, 0) = 0 \<and> real_grid ex_ui (0, 0) = 0"
proof -
  have r: "ui_reach 0 2 ex_ui"
    by (rule ui_reach_step [OF ui_reach_init _ ex_ui_frame]) (simp add: ui_init_def)
  have g: "grid (robot_map ex_ui) (0, 0) = 0" by (simp add: ex_ui_def update_grid_def ui_init_def)
  show ?thesis using ui_reach_map_sound [OF r g] g by simp
qed

end
