(* ===== verification/Robot.thy ===== *)
theory Robot
  imports Geometry
begin

text \<open>
  The robot of \<open>src/robot.py\<close>: its position and sensor radius (the record \<open>robot\<close>;
  the solver and decision-maker attributes are the other theories' state), the goal test
  \<open>reach\<close>, the cell test \<open>enter\<close>, the sensor \<open>detect\<close> and \<open>nextPosition\<close>. The
  lemmas show that \<open>detect\<close> keeps exactly the obstacles whose box meets the sensor disc,
  and that \<open>enter\<close> is the box test only for square cells.
\<close>

section \<open>State and operations\<close>

record robot =
  pos :: "real \<times> real"
  radius :: real

text \<open>\<open>Robot.__init__(start, solver, decisionMaker, r=40)\<close>, position and radius.\<close>

definition make_robot :: "real \<times> real \<Rightarrow> real \<Rightarrow> robot" where
  "make_robot start r = \<lparr>pos = start, radius = r\<rparr>"

definition reach :: "robot \<Rightarrow> real \<times> real \<Rightarrow> real \<Rightarrow> bool" where
  "reach rb goal epsilon =
     (let (robotX, robotY) = pos rb; (goalX, goalY) = goal
      in (robotX - goalX)\<^sup>2 + (robotY - goalY)\<^sup>2 \<le> epsilon\<^sup>2)"

text \<open>\<open>enter\<close> compares both offsets with half of \<open>node.width\<close>.\<close>

definition enter :: "robot \<Rightarrow> 'a aabb_scheme \<Rightarrow> bool" where
  "enter rb node =
     (let (robotX, robotY) = pos rb; node_size = width node
      in \<bar>robotX - cx node\<bar> \<le> node_size / 2 \<and> \<bar>robotY - cy node\<bar> \<le> node_size / 2)"

text \<open>
  The test of \<open>detect\<close> for one obstacle: the point of the box closest to the robot,
  obtained by clamping the position into the box, is within distance \<open>r\<close>.
\<close>

definition detects :: "robot \<Rightarrow> 'a aabb_scheme \<Rightarrow> bool" where
  "detects rb ob =
     (let (x1, x2, y1, y2) = return_coordinate ob;
          closest_x = max x1 (min (fst (pos rb)) x2);
          closest_y = max y1 (min (snd (pos rb)) y2);
          distance = (closest_x - fst (pos rb))\<^sup>2 + (closest_y - snd (pos rb))\<^sup>2
      in distance \<le> (radius rb)\<^sup>2)"

definition detect :: "robot \<Rightarrow> 'a aabb_scheme list \<Rightarrow> 'a aabb_scheme list" where
  "detect rb obstacles_list = filter (detects rb) obstacles_list"

definition nextPosition :: "robot \<Rightarrow> real \<times> real \<Rightarrow> real \<times> real" where
  "nextPosition rb goal = goal"

section \<open>Sensor and cell tests\<close>

lemma clamp_in: "a \<le> b \<Longrightarrow> a \<le> max a (min p b) \<and> max a (min p b) \<le> (b::real)"
  by auto

lemma clamp_closest:
  "a \<le> q \<Longrightarrow> q \<le> (b::real) \<Longrightarrow> (max a (min p b) - p)\<^sup>2 \<le> (q - p)\<^sup>2"
  unfolding abs_le_square_iff [symmetric] by (auto simp: max_def min_def abs_if)

lemma in_box_iff_coord:
  "in_box b q \<longleftrightarrow> cx b - width b / 2 \<le> fst q \<and> fst q \<le> cx b + width b / 2 \<and>
                   cy b - height b / 2 \<le> snd q \<and> snd q \<le> cy b + height b / 2"
  unfolding in_box_def abs_le_iff by (intro iffI conjI; elim conjE; linarith)

text \<open>
  The clamped point is the point of the box nearest to the robot, so the test of one
  obstacle is the geometric one: the box meets the closed sensor disc.
\<close>

lemma detects_iff:
  assumes "0 \<le> width ob" "0 \<le> height ob"
  shows "detects rb ob \<longleftrightarrow>
    (\<exists>q. in_box ob q \<and> (fst q - fst (pos rb))\<^sup>2 + (snd q - snd (pos rb))\<^sup>2 \<le> (radius rb)\<^sup>2)"
proof -
  let ?x1 = "cx ob - width ob / 2" and ?x2 = "cx ob + width ob / 2"
  let ?y1 = "cy ob - height ob / 2" and ?y2 = "cy ob + height ob / 2"
  let ?p = "pos rb"
  let ?c = "(max ?x1 (min (fst ?p) ?x2), max ?y1 (min (snd ?p) ?y2))"
  have le: "?x1 \<le> ?x2" "?y1 \<le> ?y2" using assms by auto
  have d: "detects rb ob \<longleftrightarrow> (fst ?c - fst ?p)\<^sup>2 + (snd ?c - snd ?p)\<^sup>2 \<le> (radius rb)\<^sup>2"
    by (simp add: detects_def return_coordinate_def Let_def)
  have cin: "in_box ob ?c" using clamp_in [OF le(1)] clamp_in [OF le(2)] by (simp add: in_box_iff_coord)
  have "(fst ?c - fst ?p)\<^sup>2 + (snd ?c - snd ?p)\<^sup>2 \<le> (fst q - fst ?p)\<^sup>2 + (snd q - snd ?p)\<^sup>2"
    if "in_box ob q" for q
    using that clamp_closest [of ?x1 "fst q" ?x2 "fst ?p"] clamp_closest [of ?y1 "snd q" ?y2 "snd ?p"]
    by (simp add: in_box_iff_coord add_mono)
  then show ?thesis using d cin by (meson order.trans)
qed

text \<open>
  C25. \<open>Robot.detect\<close> returns exactly the obstacles (of non-negative size) whose box
  meets the closed disc of radius \<open>r\<close> around the robot, in their list order.
\<close>

theorem detect_meets_disc:
  assumes "\<forall>ob \<in> set obs. 0 \<le> width ob \<and> 0 \<le> height ob"
  shows "detect rb obs = filter (\<lambda>ob. \<exists>q. in_box ob q \<and>
           (fst q - fst (pos rb))\<^sup>2 + (snd q - snd (pos rb))\<^sup>2 \<le> (radius rb)\<^sup>2) obs"
  unfolding detect_def using assms by (intro filter_cong) (simp_all add: detects_iff)

theorem detect_meets_disc_witness:
  "detect (make_robot (0, 0) 5) [\<lparr>cx = 5, cy = 0, width = 2, height = 2\<rparr>] =
   filter (\<lambda>ob. \<exists>q. in_box ob q \<and> (fst q - 0)\<^sup>2 + (snd q - 0)\<^sup>2 \<le> (5::real)\<^sup>2)
     [\<lparr>cx = 5, cy = 0, width = 2, height = 2\<rparr>]"
  using detect_meets_disc [of "[\<lparr>cx = 5, cy = 0, width = 2, height = 2\<rparr>]" "make_robot (0, 0) 5"]
  by (simp add: make_robot_def)

text \<open>
  \<open>Robot.enter\<close> measures both offsets against half the node's width; for a square
  node this is the closed box test of the node.
\<close>

theorem enter_square:
  "height node = width node \<Longrightarrow> enter rb node \<longleftrightarrow> in_box node (pos rb)"
  by (simp add: enter_def in_box_def split_beta Let_def)

theorem enter_square_witness:
  "enter (make_robot (1, -1) 40) \<lparr>cx = 0, cy = 0, width = 4, height = 4\<rparr> \<longleftrightarrow>
   in_box \<lparr>cx = 0, cy = 0, width = 4, height = (4::real)\<rparr> ((1::real), (-1::real))"
  using enter_square [of "\<lparr>cx = 0, cy = 0, width = 4, height = (4::real)\<rparr>" "make_robot (1, -1) 40"]
  by (simp add: make_robot_def)

text \<open>
  For a node wider than high, \<open>enter\<close> accepts a position outside the node: the
  vertical offset is compared with half the width.
\<close>

lemma enter_wide_cell:
  "enter (make_robot (0, 3) 40) \<lparr>cx = 0, cy = 0, width = 8, height = 2\<rparr> \<and>
   \<not> in_box \<lparr>cx = 0, cy = 0, width = 8, height = 2\<rparr> ((0::real), (3::real))"
  by (simp add: enter_def in_box_def make_robot_def)

end
