(* ===== verification/DecisionMaking.thy ===== *)
theory DecisionMaking
  imports Robot
begin

text \<open>
  The replan decision of \<open>src/DecisionMaking.py\<close>: the angle between two vectors
  (\<open>angle\<close>), the single-rule \<open>OnlyReplanDecision\<close>, and the fuzzy
  \<open>FuzzyDecisionMaking\<close>: three fuzzifications (\<open>convertphi\<close>, \<open>convertdeltad\<close>,
  \<open>convertdeltaphi\<close>) that compute membership degrees and return the label of the
  largest, the \<open>truthtable\<close> over the three labels, and the loop over the obstacles. The
  labels and the decision strings are datatypes; the class constants are definitions.
\<close>

section \<open>Labels and decisions\<close>

datatype decision = No | Replan | Stop

datatype phi_label = PhiS | PhiD | PhiF

datatype dd_label = DdA | DdU | DdC

datatype dp_label = DpA | DpLA | DpU | DpLC | DpC

section \<open>\<open>angle\<close>\<close>

definition angle :: "real \<Rightarrow> real \<Rightarrow> real \<Rightarrow> real \<Rightarrow> real" where
  "angle x1 y1 x2 y2 =
     arccos ((x1 * x2 + y1 * y2) / (sqrt (x1 * x1 + y1 * y1) * sqrt (x2 * x2 + y2 * y2) + 1/1000000))"

section \<open>\<open>OnlyReplanDecision\<close>\<close>

text \<open>
  One iteration of the loop: the obstacle's centre is closer than the sensor radius and
  within a right angle of the direction to the next position.
\<close>

definition replan_trigger :: "robot \<Rightarrow> real \<times> real \<Rightarrow> 'a aabb_scheme \<Rightarrow> bool" where
  "replan_trigger rb goal ob =
     (let x1 = cx ob; y1 = cy ob; rb_next = nextPosition rb goal;
          distance = sqrt ((fst (pos rb) - x1) * (fst (pos rb) - x1) + (snd (pos rb) - y1) * (snd (pos rb) - y1));
          phi = angle (fst rb_next - fst (pos rb)) (snd rb_next - snd (pos rb)) (x1 - fst (pos rb)) (y1 - snd (pos rb))
      in distance < radius rb \<and> phi \<le> pi / 2)"

fun only_replan_loop :: "robot \<Rightarrow> real \<times> real \<Rightarrow> 'a aabb_scheme list \<Rightarrow> decision \<Rightarrow> decision" where
  "only_replan_loop rb goal [] decision = decision"
| "only_replan_loop rb goal (ob # obs) decision =
     only_replan_loop rb goal obs (if replan_trigger rb goal ob then Replan else decision)"

definition only_replan_decision :: "robot \<Rightarrow> real \<times> real \<Rightarrow> 'a aabb_scheme list \<Rightarrow> decision" where
  "only_replan_decision rb goal obstacles_list_before = only_replan_loop rb goal obstacles_list_before No"

section \<open>\<open>FuzzyDecisionMaking\<close>\<close>

definition ANGLE_F :: real where "ANGLE_F = 25"
definition ANGLE_DF :: real where "ANGLE_DF = 35"
definition ANGLE_DS :: real where "ANGLE_DS = 55"
definition ANGLE_S :: real where "ANGLE_S = 65"

definition DELTAD_A :: real where "DELTAD_A = 5/2"
definition DELTAD_UA :: real where "DELTAD_UA = 3/2"
definition DELTAD_UC :: real where "DELTAD_UC = -3/2"
definition DELTAD_C :: real where "DELTAD_C = -5/2"

definition DELTAPHI_A :: real where "DELTAPHI_A = 10"
definition DELTAPHI_LAA :: real where "DELTAPHI_LAA = 7"
definition DELTAPHI_LAU :: real where "DELTAPHI_LAU = 5"
definition DELTAPHI_ULA :: real where "DELTAPHI_ULA = 3"
definition DELTAPHI_ULC :: real where "DELTAPHI_ULC = -3"
definition DELTAPHI_LCU :: real where "DELTAPHI_LCU = -5"
definition DELTAPHI_LCC :: real where "DELTAPHI_LCC = -7"
definition DELTAPHI_C :: real where "DELTAPHI_C = -10"

text \<open>The membership degrees \<open>(aS, aD, aF)\<close> of \<open>convertphi\<close>, branch by branch.\<close>

definition phi_degrees :: "real \<Rightarrow> real \<times> real \<times> real" where
  "phi_degrees phi =
     (if phi > ANGLE_S then (1, 0, 0)
      else if ANGLE_S \<ge> phi \<and> phi \<ge> ANGLE_DS then
        ((ANGLE_S - phi) / (ANGLE_S - ANGLE_DS), 1 - (phi - ANGLE_DS) / (ANGLE_S - ANGLE_DS), 0)
      else if ANGLE_DS > phi \<and> phi > ANGLE_DF then (0, 1, 0)
      else if ANGLE_DF \<ge> phi \<and> phi \<ge> ANGLE_F then
        (0, (ANGLE_DF - phi) / (ANGLE_DF - ANGLE_F), 1 - (phi - ANGLE_F) / (ANGLE_DF - ANGLE_F))
      else if ANGLE_F > phi then (0, 0, 1)
      else (0, 0, 0))"

definition convertphi :: "real \<Rightarrow> phi_label" where
  "convertphi phi =
     (let (aS, aD, aF) = phi_degrees phi; m = max aS (max aD aF)
      in if m = aS then PhiS else if m = aD then PhiD else PhiF)"

text \<open>The membership degrees \<open>(ddA, ddU, ddC)\<close> of \<open>convertdeltad\<close>.\<close>

definition deltad_degrees :: "real \<Rightarrow> real \<times> real \<times> real" where
  "deltad_degrees deltad =
     (if deltad > DELTAD_A then (1, 0, 0)
      else if DELTAD_A \<ge> deltad \<and> deltad \<ge> DELTAD_UA then
        ((DELTAD_A - deltad) / (DELTAD_A - DELTAD_UA), (deltad - DELTAD_UA) / (DELTAD_A - DELTAD_UA), 0)
      else if DELTAD_UA > deltad \<and> deltad > DELTAD_UC then (0, 1, 0)
      else if DELTAD_UC > deltad \<and> deltad > DELTAD_C then
        (0, (DELTAD_UC - deltad) / (DELTAD_UC - DELTAD_C), (deltad - DELTAD_C) / (DELTAD_UC - DELTAD_C))
      else if DELTAD_C > deltad then (0, 0, 1)
      else (0, 0, 0))"

definition convertdeltad :: "real \<Rightarrow> dd_label" where
  "convertdeltad deltad =
     (let (ddA, ddU, ddC) = deltad_degrees deltad; m = max ddA (max ddU ddC)
      in if m = ddA then DdA else if m = ddU then DdU else DdC)"

text \<open>The membership degrees \<open>(dpA, dpLA, dpU, dpLC, dpC)\<close> of \<open>convertdeltaphi\<close>.\<close>

definition deltaphi_degrees :: "real \<Rightarrow> real \<times> real \<times> real \<times> real \<times> real" where
  "deltaphi_degrees deltaphi =
     (if deltaphi > DELTAPHI_A then (1, 0, 0, 0, 0)
      else if DELTAPHI_A \<ge> deltaphi \<and> deltaphi \<ge> DELTAPHI_LAA then
        ((DELTAPHI_A - deltaphi) / (DELTAPHI_A - DELTAPHI_LAA),
         (deltaphi - DELTAPHI_LAA) / (DELTAPHI_A - DELTAPHI_LAA), 0, 0, 0)
      else if DELTAPHI_LAA > deltaphi \<and> deltaphi > DELTAPHI_LAU then (0, 1, 0, 0, 0)
      else if DELTAPHI_LAU \<ge> deltaphi \<and> deltaphi \<ge> DELTAPHI_ULA then
        (0, (DELTAPHI_LAU - deltaphi) / (DELTAPHI_LAU - DELTAPHI_ULA),
         (deltaphi - DELTAPHI_ULA) / (DELTAPHI_LAU - DELTAPHI_ULA), 0, 0)
      else if DELTAPHI_ULA > deltaphi \<and> deltaphi > DELTAPHI_ULC then (0, 0, 1, 0, 0)
      else if DELTAPHI_ULC \<ge> deltaphi \<and> deltaphi \<ge> DELTAPHI_LCU then
        (0, 0, (DELTAPHI_ULC - deltaphi) / (DELTAPHI_ULC - DELTAPHI_LCU),
         (deltaphi - DELTAPHI_LCU) / (DELTAPHI_ULC - DELTAPHI_LCU), 0)
      else if DELTAPHI_LCU > deltaphi \<and> deltaphi > DELTAPHI_LCC then (0, 0, 0, 1, 0)
      else if DELTAPHI_LCC \<ge> deltaphi \<and> deltaphi \<ge> DELTAPHI_C then
        (0, 0, 0, (DELTAPHI_LCC - deltaphi) / (DELTAPHI_LCC - DELTAPHI_C),
         (deltaphi - DELTAPHI_C) / (DELTAPHI_LCC - DELTAPHI_C))
      else if DELTAPHI_C > deltaphi then (0, 0, 0, 0, 1)
      else (0, 0, 0, 0, 0))"

definition convertdeltaphi :: "real \<Rightarrow> dp_label" where
  "convertdeltaphi deltaphi =
     (let (dpA, dpLA, dpU, dpLC, dpC) = deltaphi_degrees deltaphi;
          m = max dpA (max dpLA (max dpU (max dpLC dpC)))
      in if m = dpA then DpA else if m = dpLA then DpLA else if m = dpU then DpU
         else if m = dpLC then DpLC else DpC)"

text \<open>
  \<open>truthtable(phi, deltad, deltaphi)\<close>, branch for branch; a combination no branch
  returns for falls through to the final \<open>return "No"\<close>.
\<close>

definition truthtable :: "phi_label \<Rightarrow> dd_label \<Rightarrow> dp_label \<Rightarrow> decision" where
  "truthtable phi deltad deltaphi =
     (if deltad = DdA then
        (if phi = PhiF then
           (if deltaphi = DpC \<or> deltaphi = DpLC \<or> deltaphi = DpU then Stop
            else if deltaphi = DpLA \<or> deltaphi = DpA then No else No)
         else No)
      else if deltad = DdU then
        (if phi = PhiS then No
         else if phi = PhiD then
           (if deltaphi = DpC \<or> deltaphi = DpLC then Replan
            else if deltaphi = DpU \<or> deltaphi = DpLA \<or> deltaphi = DpA then No else No)
         else if phi = PhiF then
           (if deltaphi = DpC \<or> deltaphi = DpLC \<or> deltaphi = DpU then Stop
            else if deltaphi = DpLA \<or> deltaphi = DpA then No else No)
         else No)
      else if deltad = DdC then
        (if phi = PhiS then
           (if deltaphi = DpLC then Stop
            else if deltaphi = DpU then Replan
            else if deltaphi = DpC \<or> deltaphi = DpLA \<or> deltaphi = DpA then No else No)
         else if phi = PhiD then
           (if deltaphi = DpC \<or> deltaphi = DpLC then Stop
            else if deltaphi = DpU then Replan
            else if deltaphi = DpLA \<or> deltaphi = DpA then No else No)
         else if phi = PhiF then
           (if deltaphi = DpC \<or> deltaphi = DpLC \<or> deltaphi = DpU then Replan
            else if deltaphi = DpLA \<or> deltaphi = DpA then Stop else No)
         else No)
      else No)"

definition fuzzyDecisionMaking :: "real \<Rightarrow> real \<Rightarrow> real \<Rightarrow> real \<Rightarrow> decision" where
  "fuzzyDecisionMaking phit phit_next dt dt_next =
     (let phi = convertphi (phit / pi * 180);
          deltaphi = convertdeltaphi ((phit_next - phit) / pi * 180);
          deltad = convertdeltad (dt_next - dt)
      in truthtable phi deltad deltaphi)"

text \<open>\<open>min(corners, key=...)\<close>: the first corner of least squared distance.\<close>

definition closest_corner :: "real \<times> real \<Rightarrow> 'a aabb_scheme \<Rightarrow> real \<times> real" where
  "closest_corner p ob =
     (let cs = get_corners ob; key = (\<lambda>x. (fst p - fst x)\<^sup>2 + (snd p - snd x)\<^sup>2)
      in min_by key (hd cs) (tl cs))"

text \<open>
  The loop of \<open>FuzzyDecisionMaking.decisionMaking\<close> over \<open>range(len(before))\<close>: an
  unmoved obstacle is skipped, a \<open>"Replan"\<close> returns at once, a \<open>"Stop"\<close> is
  remembered; \<open>obstacles_list_after[i]\<close> raises \<open>IndexError\<close> when the second list is
  shorter.
\<close>

fun fuzzy_loop ::
  "robot \<Rightarrow> real \<times> real \<Rightarrow> 'a aabb_scheme list \<Rightarrow> 'a aabb_scheme list \<Rightarrow> decision \<Rightarrow> decision result" where
  "fuzzy_loop rb goal [] afters decision = Inr decision"
| "fuzzy_loop rb goal (b # bs) [] decision = Inl IndexError"
| "fuzzy_loop rb goal (b # bs) (a # as) decision =
     (if cx b = cx a \<and> cy b = cy a then fuzzy_loop rb goal bs as decision
      else
        (let (x1, y1) = closest_corner (pos rb) b; (x2, y2) = closest_corner (pos rb) a;
             p = pos rb;
             distance = sqrt ((fst p - x1) * (fst p - x1) + (snd p - y1) * (snd p - y1))
         in if distance < radius rb then
              (let distance_next = sqrt ((fst p - x2) * (fst p - x2) + (snd p - y2) * (snd p - y2));
                   rb_next = nextPosition rb goal;
                   phi = angle (fst rb_next - fst p) (snd rb_next - snd p) (x1 - fst p) (y1 - snd p);
                   phi_next = angle (fst rb_next - fst p) (snd rb_next - snd p) (x2 - fst p) (y2 - snd p);
                   decision_temp = fuzzyDecisionMaking phi phi_next distance distance_next
               in if decision_temp = Replan then Inr Replan
                  else fuzzy_loop rb goal bs as (if decision_temp = Stop then Stop else decision))
            else fuzzy_loop rb goal bs as decision))"

definition fuzzy_decision :: "robot \<Rightarrow> real \<times> real \<Rightarrow> 'a aabb_scheme list \<Rightarrow> 'a aabb_scheme list \<Rightarrow> decision result" where
  "fuzzy_decision rb goal obstacles_list_before obstacles_list_after =
     fuzzy_loop rb goal obstacles_list_before obstacles_list_after No"

section \<open>Properties\<close>

lemma dot_le_norms:
  "\<bar>x1 * x2 + y1 * y2\<bar> \<le> sqrt (x1 * x1 + y1 * y1) * sqrt (x2 * x2 + y2 * y2)"
proof -
  have "(x1 * x2 + y1 * y2)\<^sup>2 \<le> (x1 * x1 + y1 * y1) * (x2 * x2 + y2 * y2)"
    using zero_le_power2 [of "x1 * y2 - x2 * y1"] by (simp add: power2_eq_square algebra_simps)
  then have "sqrt ((x1 * x2 + y1 * y2)\<^sup>2) \<le> sqrt ((x1 * x1 + y1 * y1) * (x2 * x2 + y2 * y2))"
    by (rule real_sqrt_le_mono)
  then show ?thesis by (simp add: real_sqrt_mult)
qed

text \<open>
  The argument of \<open>arccos\<close> in \<open>angle\<close> stays in \<open>[-1, 1]\<close> (Cauchy-Schwarz, with the
  \<open>1e-6\<close> keeping the denominator positive) and has the sign of the dot product, so
  \<open>angle\<close> lies in \<open>[0, pi]\<close> and is at most a right angle exactly when the dot product
  is not negative.
\<close>

lemma angle_arg:
  fixes x1 y1 x2 y2 :: real
  defines "a \<equiv> (x1 * x2 + y1 * y2) / (sqrt (x1 * x1 + y1 * y1) * sqrt (x2 * x2 + y2 * y2) + 1/1000000)"
  shows "-1 \<le> a \<and> a \<le> 1 \<and> (0 \<le> a \<longleftrightarrow> 0 \<le> x1 * x2 + y1 * y2)"
proof -
  let ?d = "x1 * x2 + y1 * y2" and ?n = "sqrt (x1 * x1 + y1 * y1) * sqrt (x2 * x2 + y2 * y2)"
  have n: "0 \<le> ?n" by simp
  have "\<bar>?d\<bar> \<le> ?n + 1/1000000" using dot_le_norms [of x1 x2 y1 y2] by simp
  moreover have pos: "0 < ?n + 1/1000000" using n by linarith
  ultimately have "\<bar>?d\<bar> / \<bar>?n + 1/1000000\<bar> \<le> 1" by simp
  then have "\<bar>a\<bar> \<le> 1" by (simp add: a_def abs_divide)
  moreover have "0 \<le> a \<longleftrightarrow> 0 \<le> ?d" using pos by (simp add: a_def zero_le_divide_iff)
  ultimately show ?thesis by linarith
qed

lemma angle_le_pi2_iff: "angle x1 y1 x2 y2 \<le> pi / 2 \<longleftrightarrow> 0 \<le> x1 * x2 + y1 * y2"
proof -
  define a where "a = (x1 * x2 + y1 * y2) / (sqrt (x1 * x1 + y1 * y1) * sqrt (x2 * x2 + y2 * y2) + 1/1000000)"
  have r: "-1 \<le> a" "a \<le> 1" "0 \<le> a \<longleftrightarrow> 0 \<le> x1 * x2 + y1 * y2"
    using angle_arg [of x1 x2 y1 y2] unfolding a_def by simp_all
  have "arccos a \<le> pi / 2 \<longleftrightarrow> 0 \<le> a"
  proof
    assume "arccos a \<le> pi / 2"
    show "0 \<le> a"
    proof (rule ccontr)
      assume "\<not> 0 \<le> a"
      then have "arccos 0 < arccos a" using r by (intro arccos_less_arccos) simp_all
      then show False using \<open>arccos a \<le> pi / 2\<close> by simp
    qed
  next
    assume "0 \<le> a"
    then show "arccos a \<le> pi / 2" using arccos_le_arccos [of 0 a] r by simp
  qed
  then show ?thesis using r by (simp add: angle_def a_def)
qed

lemma angle_bounds: "0 \<le> angle x1 y1 x2 y2 \<and> angle x1 y1 x2 y2 \<le> pi"
  using angle_arg [of x1 x2 y1 y2] unfolding angle_def by (blast intro: arccos_lbound arccos_ubound)


text \<open>
  The fuzzification of \<open>convertphi\<close> followed by the arg-max is a crisp
  classification: \<open>"S"\<close> from 55 degrees up, \<open>"D"\<close> from 25 to 55, \<open>"F"\<close> below; at
  exactly 35 degrees all three degrees are 0 and the first label, \<open>"S"\<close>, is returned.
\<close>

theorem convertphi_crisp:
  "convertphi phi = (if 55 \<le> phi \<or> phi = 35 then PhiS else if 25 \<le> phi then PhiD else PhiF)"
  by (auto simp: convertphi_def phi_degrees_def ANGLE_S_def ANGLE_DS_def ANGLE_DF_def ANGLE_F_def
      Let_def max_def field_simps)

text \<open>
  The crisp classification computed by \<open>convertdeltad\<close>: the ramps between
  \<open>DELTAD_UA\<close> and \<open>DELTAD_A\<close> and between \<open>DELTAD_C\<close> and \<open>DELTAD_UC\<close> give the
  degree of the far label to the near side, and the boundary values -1.5 and -2.5 fall
  into the final \<open>(0, 0, 0)\<close> case and are classified \<open>"A"\<close>.
\<close>

theorem convertdeltad_crisp:
  "convertdeltad d =
     (if d > 5/2 then DdA else if d > 2 then DdU else if d \<ge> 3/2 then DdA else if d > -3/2 then DdU
      else if d = -3/2 then DdA else if d > -2 then DdC else if d > -5/2 then DdU
      else if d = -5/2 then DdA else DdC)"
  by (auto simp: convertdeltad_def deltad_degrees_def DELTAD_A_def DELTAD_UA_def DELTAD_UC_def DELTAD_C_def
      Let_def max_def field_simps)

text \<open>Three sample values on the approaching side: \<open>"A"\<close>, then \<open>"C"\<close>, then \<open>"U"\<close>.\<close>

lemma convertdeltad_non_monotone:
  "convertdeltad (-3/2) = DdA \<and> convertdeltad (-7/4) = DdC \<and> convertdeltad (-9/4) = DdU"
  by (simp add: convertdeltad_def deltad_degrees_def DELTAD_A_def DELTAD_UA_def DELTAD_UC_def DELTAD_C_def)

lemma only_replan_loop_iff:
  "only_replan_loop rb goal obs d = (if \<exists>ob \<in> set obs. replan_trigger rb goal ob then Replan else d)"
  by (induction obs arbitrary: d) auto

lemma sqrt_less_radius: "sqrt (d::real) < r \<longleftrightarrow> (0 < r \<and> d < r\<^sup>2)" if "0 \<le> d"
  using that by (smt (verit) real_less_rsqrt real_sqrt_ge_zero real_sqrt_less_iff real_sqrt_pow2 real_sqrt_power) 

lemma distance_less_radius:
  "sqrt (a * a + b * b) < r \<longleftrightarrow> 0 < r \<and> a\<^sup>2 + b\<^sup>2 < (r::real)\<^sup>2"
  using sqrt_less_radius [of "a * a + b * b" r] by (simp add: power2_eq_square)

text \<open>
  C29. \<open>OnlyReplanDecision.decisionMaking\<close> returns \<open>"Replan"\<close> exactly when some
  obstacle of the list before the move has its centre strictly inside the sensor disc of
  radius \<open>rb.r\<close> and not behind the robot (the vector to the centre makes a non-negative
  dot product with the step to the next position, i.e. \<open>phi <= pi / 2\<close>), and \<open>"No"\<close>
  otherwise.
\<close>

theorem only_replan_decision_iff:
  "only_replan_decision rb goal obs =
     (if \<exists>ob \<in> set obs.
           0 < radius rb \<and> (fst (pos rb) - cx ob)\<^sup>2 + (snd (pos rb) - cy ob)\<^sup>2 < (radius rb)\<^sup>2 \<and>
           0 \<le> (fst (nextPosition rb goal) - fst (pos rb)) * (cx ob - fst (pos rb)) +
                (snd (nextPosition rb goal) - snd (pos rb)) * (cy ob - snd (pos rb))
      then Replan else No)"
proof -
  have "replan_trigger rb goal ob \<longleftrightarrow>
          0 < radius rb \<and> (fst (pos rb) - cx ob)\<^sup>2 + (snd (pos rb) - cy ob)\<^sup>2 < (radius rb)\<^sup>2 \<and>
          0 \<le> (fst (nextPosition rb goal) - fst (pos rb)) * (cx ob - fst (pos rb)) +
               (snd (nextPosition rb goal) - snd (pos rb)) * (cy ob - snd (pos rb))" for ob :: "'a aabb_scheme"
    unfolding replan_trigger_def Let_def angle_le_pi2_iff distance_less_radius by (simp only: conj_assoc)
  then show ?thesis by (simp add: only_replan_decision_def only_replan_loop_iff)
qed
theorem only_replan_decision_iff_witness:
  "only_replan_decision (make_robot (0, 0) 40) (10, 0) [\<lparr>cx = 5, cy = 0, width = 2, height = 2\<rparr>] = Replan"
  using only_replan_decision_iff [of "make_robot (0, 0) 40" "(10, 0)" "[\<lparr>cx = 5, cy = (0::real), width = 2, height = 2\<rparr>]"]
  by (simp add: make_robot_def nextPosition_def)

lemma fuzzy_loop_total:
  "length bs \<le> length as \<Longrightarrow> \<exists>d. fuzzy_loop rb goal bs as d0 = Inr d"
proof (induction bs arbitrary: as d0)
  case Nil
  then show ?case by simp
next
  case (Cons b bs)
  then obtain a as' where as: "as = a # as'" "length bs \<le> length as'" by (cases as) auto
  have IH: "\<And>d. \<exists>r. fuzzy_loop rb goal bs as' d = Inr r" using Cons.IH [OF as(2)] by blast
  show ?case
    unfolding as(1) by (simp add: Let_def split_beta IH)
qed

text \<open>
  \<open>FuzzyDecisionMaking.decisionMaking\<close> raises no \<open>IndexError\<close> when the list of
  obstacles after the move is at least as long as the list before; otherwise it raises as
  soon as it reaches the missing index (\<open>fuzzy_decision_short_after\<close>).
\<close>

theorem fuzzy_decision_total:
  "length obstacles_list_before \<le> length obstacles_list_after \<Longrightarrow>
   \<exists>d. fuzzy_decision rb goal obstacles_list_before obstacles_list_after = Inr d"
  unfolding fuzzy_decision_def by (rule fuzzy_loop_total)

theorem fuzzy_decision_total_witness:
  "\<exists>d. fuzzy_decision (make_robot (0, 0) 40) (10, 0) [\<lparr>cx = 5, cy = (0::real), width = 2, height = 2\<rparr>]
        [\<lparr>cx = 4, cy = 0, width = 2, height = 2\<rparr>] = Inr d"
  by (rule fuzzy_decision_total) simp

lemma fuzzy_decision_short_after:
  "fuzzy_decision rb goal [ob] [] = Inl IndexError"
  by (simp add: fuzzy_decision_def)

end
