(* ===== verification/Env.thy ===== *)
theory Env
  imports Neighbors Solver DstarGrid
begin

text \<open>
  The environments of \<open>src/Env.py\<close>, which turn the map into the planner's graph.
  \<^item> \<open>QuadTreeEnvironment\<close>: \<open>add_start\<close>/\<open>add_goal\<close> descend from the root by
    \<open>get_quadrant\<close> to a leaf (\<open>locate_path\<close>, the path root first; the address is its
    reverse); \<open>build_env\<close> lists the leaves (\<open>leaf_addrs\<close>, in \<open>get_leaves\<close> order),
    gives each its \<open>update_neighbors\<close> list and its distance to the goal as \<open>h\<close>. The
    result is the planner's graph interface \<open>env_graph\<close> over leaf addresses, and the state
    the main loop of \<open>src/QuadTree.py\<close> starts the solver from (\<open>init_state\<close>: goal
    \<open>rhs = 0\<close>, its key computed, the goal queued).
  \<^item> \<open>GridEnvironment\<close>: a \<open>size \<times> size\<close> array of cells (\<open>grid_env\<close>), its
    \<open>update\<close> marking the cells an obstacle's box covers, with Python's list indexing
    (a negative index counts from the end, an index past the end raises), and the
    8-neighbourhood of \<open>build_env\<close>.
\<close>

section \<open>\<open>QuadTreeEnvironment\<close>\<close>

text \<open>
  \<open>QuadTreeEnvironment(x, y, env_width, env_height)\<close>: the root node; \<open>update\<close> runs
  \<open>update_percentage_and_split\<close> on it with the default thresholds 0.005 and 16 (the
  recursion depth bound as in theory \<open>QuadTree\<close>).
\<close>

definition qt_env_root :: "real \<Rightarrow> real \<Rightarrow> real \<Rightarrow> real \<Rightarrow> qtree" where
  "qt_env_root x y env_width env_height = QLeaf (new_node x y env_width env_height)"

definition qt_env_update :: "nat \<Rightarrow> obstacle list \<Rightarrow> qtree \<Rightarrow> qtree result" where
  "qt_env_update depth obstacles t = update_percentage_and_split depth (1/200) 16 obstacles t"

text \<open>\<open>while current.get_children(): current = current.get_quadrant(point)\<close>.\<close>

fun locate_path :: "qtree \<Rightarrow> real \<times> real \<Rightarrow> quadrant list" where
  "locate_path (QLeaf n) p = []"
| "locate_path (QNode n a b c d) p =
     (case get_quadrant n p of
        NW \<Rightarrow> NW # locate_path a p
      | NE \<Rightarrow> NE # locate_path b p
      | SW \<Rightarrow> SW # locate_path c p
      | SE \<Rightarrow> SE # locate_path d p)"

definition add_start :: "qtree \<Rightarrow> real \<times> real \<Rightarrow> addr" where
  "add_start t start = rev (locate_path t start)"

text \<open>The paths of the leaves, root first, in the order of \<open>get_leaves\<close>.\<close>

fun leaf_paths :: "qtree \<Rightarrow> quadrant list list" where
  "leaf_paths (QLeaf n) = [[]]"
| "leaf_paths (QNode n a b c d) =
     map ((#) NW) (leaf_paths a) @ map ((#) NE) (leaf_paths b) @
     map ((#) SW) (leaf_paths c) @ map ((#) SE) (leaf_paths d)"

definition leaf_addrs :: "qtree \<Rightarrow> addr list" where
  "leaf_addrs t = map rev (leaf_paths t)"

definition node_centre :: "qtree \<Rightarrow> addr \<Rightarrow> real \<times> real" where
  "node_centre t a = (case node_at t a of Some s \<Rightarrow> (cx (node_of s), cy (node_of s)) | None \<Rightarrow> (0, 0))"

definition node_box :: "qtree \<Rightarrow> addr \<Rightarrow> aabb" where
  "node_box t a = (case node_at t a of Some s \<Rightarrow> box_of (node_of s)
                     | None \<Rightarrow> \<lparr>cx = 0, cy = 0, width = 0, height = 0\<rparr>)"

definition node_value :: "qtree \<Rightarrow> addr \<Rightarrow> int" where
  "node_value t a = (case node_at t a of Some s \<Rightarrow> value (node_of s) | None \<Rightarrow> -1)"

text \<open>
  \<open>build_env\<close>: the leaves with their neighbour lists (fresh leaves start with an empty
  list) and centres.
\<close>

definition env_graph :: "qtree \<Rightarrow> addr graph" where
  "env_graph t = \<lparr>vertices = leaf_addrs t, neighbors = (\<lambda>a. update_neighbors t a []),
                  pos = node_centre t, box_at = node_box t\<rparr>"

text \<open>
  The state the solver starts from: every node has \<open>g = rhs = inf\<close> and key
  \<open>[inf, inf]\<close> (\<open>Node.__init__\<close>); \<open>build_env\<close> sets \<open>h\<close> to the distance to the
  goal leaf; the main loop sets \<open>goal.rhs = 0\<close>, calls \<open>goal.calculate_key()\<close> and adds
  the goal to the queue.
\<close>

definition init_state :: "qtree \<Rightarrow> real \<times> real \<Rightarrow> real \<times> real \<Rightarrow> addr dstar" where
  "init_state t start goal_pt =
     (let s = add_start t start; gl = add_start t goal_pt;
          h = (\<lambda>a. distance (node_centre t a) (node_centre t gl));
          k = calc_key Inf (Fin 0) (h gl)
      in \<lparr>g_of = (\<lambda>_. Inf), rhs_of = (\<lambda>_. Inf)(gl := Fin 0), h_of = h,
          key_of = (\<lambda>_. (Inf, Inf))(gl := k), value_of = node_value t,
          queue = [(k, gl)], current = s, goal = gl\<rparr>)"

text \<open>A point strictly inside a box.\<close>

definition in_open_box :: "'a aabb_scheme \<Rightarrow> real \<times> real \<Rightarrow> bool" where
  "in_open_box b p \<longleftrightarrow> \<bar>fst p - cx b\<bar> < width b / 2 \<and> \<bar>snd p - cy b\<bar> < height b / 2"

section \<open>\<open>GridEnvironment\<close>\<close>

text \<open>
  The grid environment: the root box, the grid size, the cell size, the paddings, and
  the \<open>value\<close> of the cell in row \<open>i\<close>, column \<open>j\<close> (\<open>self.nodes[i][j]\<close>).
\<close>

record grid_env =
  env_x :: real
  env_y :: real
  env_w :: real
  env_h :: real
  gsz :: int
  cell_width :: real
  cell_height :: real
  left_pad :: real
  north_pad :: real
  cell_value :: "int \<times> int \<Rightarrow> int"

definition make_grid_env :: "real \<Rightarrow> real \<Rightarrow> real \<Rightarrow> real \<Rightarrow> int \<Rightarrow> grid_env" where
  "make_grid_env x y w h sz =
     \<lparr>env_x = x, env_y = y, env_w = w, env_h = h, gsz = sz,
      cell_width = w / of_int sz, cell_height = h / of_int sz,
      left_pad = x - w / 2, north_pad = y - h / 2, cell_value = (\<lambda>_. -1)\<rparr>"

text \<open>The box of \<open>self.nodes[i][j]\<close>.\<close>

definition cell_box :: "grid_env \<Rightarrow> int \<Rightarrow> int \<Rightarrow> aabb" where
  "cell_box ge i j =
     \<lparr>cx = env_x ge + (2 * of_int j - of_int (gsz ge) + 1) * env_w ge / (2 * of_int (gsz ge)),
      cy = env_y ge + (2 * of_int i - of_int (gsz ge) + 1) * env_h ge / (2 * of_int (gsz ge)),
      width = cell_width ge, height = cell_height ge\<rparr>"

text \<open>\<open>self.nodes[r][c].value = 1\<close> for each cell of a list.\<close>

fun mark_cells :: "grid_env \<Rightarrow> (int \<times> int) list \<Rightarrow> grid_env result" where
  "mark_cells ge [] = Inr ge"
| "mark_cells ge ((r, c) # rcs) =
     rbind (py_index (gsz ge) r) (\<lambda>r'. rbind (py_index (gsz ge) c) (\<lambda>c'.
       mark_cells (ge\<lparr>cell_value := (cell_value ge)((r', c') := 1)\<rparr>) rcs))"

text \<open>The cells \<open>range(lb_y, ub_y) \<times> range(lb_x, ub_x)\<close> that \<open>update\<close> marks for one obstacle.\<close>

definition covered_cells :: "grid_env \<Rightarrow> 'a aabb_scheme \<Rightarrow> (int \<times> int) list" where
  "covered_cells ge ob =
     (let (x1, x2, y1, y2) = return_coordinate ob;
          lb_x = py_int ((x1 - left_pad ge) / cell_width ge);
          ub_x = \<lceil>(x2 - left_pad ge) / cell_width ge\<rceil>;
          lb_y = py_int ((y1 - north_pad ge) / cell_height ge);
          ub_y = \<lceil>(y2 - north_pad ge) / cell_height ge\<rceil>
      in [(r, c). r \<leftarrow> [lb_y..ub_y - 1], c \<leftarrow> [lb_x..ub_x - 1]])"

fun grid_update :: "grid_env \<Rightarrow> 'a aabb_scheme list \<Rightarrow> grid_env result" where
  "grid_update ge [] = Inr ge"
| "grid_update ge (ob # obs) = rbind (mark_cells ge (covered_cells ge ob)) (\<lambda>ge'. grid_update ge' obs)"

text \<open>The neighbour loop of \<open>GridEnvironment.build_env\<close> over the eight offsets.\<close>

definition grid_offsets :: "(int \<times> int) list" where
  "grid_offsets = [(-1, -1), (-1, 0), (-1, 1), (0, -1), (0, 1), (1, -1), (1, 0), (1, 1)]"

definition grid_neighbors :: "int \<Rightarrow> int \<times> int \<Rightarrow> (int \<times> int) list" where
  "grid_neighbors sz v =
     [(fst v + dx, snd v + dy). (dx, dy) \<leftarrow> grid_offsets,
        0 \<le> fst v + dx \<and> fst v + dx < sz \<and> 0 \<le> snd v + dy \<and> snd v + dy < sz]"

text \<open>
  \<open>self.nodes[int((p[1] - north_pad) / cell_height)][int((p[0] - left_pad) / cell_width)]\<close>,
  the cell \<open>build_env\<close> takes for the start and the goal.
\<close>

definition grid_cell_of :: "grid_env \<Rightarrow> real \<times> real \<Rightarrow> (int \<times> int) result" where
  "grid_cell_of ge p =
     rbind (py_index (gsz ge) (py_int ((snd p - north_pad ge) / cell_height ge))) (\<lambda>r.
     rbind (py_index (gsz ge) (py_int ((fst p - left_pad ge) / cell_width ge))) (\<lambda>c. Inr (r, c)))"

text \<open>
  \<open>build_env\<close>: the start and goal cells, and every cell of value -1 set to 0 (the
  neighbour lists are \<open>grid_neighbors\<close>, the heuristic the distance of the centres).
\<close>

definition build_grid_env :: "grid_env \<Rightarrow> real \<times> real \<Rightarrow> real \<times> real \<Rightarrow> (grid_env \<times> (int \<times> int) \<times> (int \<times> int)) result" where
  "build_grid_env ge start goal_pt =
     rbind (grid_cell_of ge start) (\<lambda>s. rbind (grid_cell_of ge goal_pt) (\<lambda>g.
       Inr (ge\<lparr>cell_value := (\<lambda>rc. if cell_value ge rc = -1 then 0 else cell_value ge rc)\<rparr>, s, g)))"

text \<open>
  A grid built by \<open>GridEnvironment.__init__\<close>: positive size, cells of the root's size
  divided by the grid size, paddings the root's top-left corner.
\<close>

definition grid_wf :: "grid_env \<Rightarrow> bool" where
  "grid_wf ge \<longleftrightarrow> 0 < gsz ge \<and> 0 < env_w ge \<and> 0 < env_h ge \<and>
     cell_width ge = env_w ge / of_int (gsz ge) \<and> cell_height ge = env_h ge / of_int (gsz ge) \<and>
     left_pad ge = env_x ge - env_w ge / 2 \<and> north_pad ge = env_y ge - env_h ge / 2"

text \<open>A root of side 4 split once, the example of the witnesses.\<close>

definition ex_qt :: qtree where
  "ex_qt = split (new_node 0 0 4 4)"

section \<open>Properties of \<open>QuadTreeEnvironment\<close>\<close>

lemma locate_path_in_leaf_paths: "locate_path t p \<in> set (leaf_paths t)"
  by (induction t) (auto split: quadrant.splits)

lemma add_start_in_leaf_addrs: "add_start t p \<in> set (leaf_addrs t)"
  using locate_path_in_leaf_paths [of t p] by (simp add: add_start_def leaf_addrs_def)

lemma lookup_leaf_paths:
  "map (lookup t) (leaf_paths t) = map (\<lambda>m. Some (QLeaf m)) (get_leaves t)"
  by (induction t) (simp_all add: comp_def)

lemma open_child_coord:
  assumes "\<bar>a - (c + s * w / 4)\<bar> < (w::real) / 4" "s = 1 \<or> s = -1"
  shows "\<bar>a - c\<bar> < w / 2 \<and> (s = -1 \<longrightarrow> a < c) \<and> (s = 1 \<longrightarrow> c < a)"
  using assms(2)
proof
  assume "s = 1"
  then show ?thesis using assms(1) unfolding abs_less_iff by auto
next
  assume "s = -1"
  then show ?thesis using assms(1) unfolding abs_less_iff by auto
qed

lemma qdx_qdy_cases: "(qdx q = 1 \<or> qdx q = -1) \<and> (qdy q = 1 \<or> qdy q = -1)"
  by (cases q) auto

lemma in_open_box_child:
  "in_open_box (child_box q n) p \<Longrightarrow> in_open_box n p"
  using open_child_coord [of "fst p" "cx n" "qdx q" "width n"] open_child_coord [of "snd p" "cy n" "qdy q" "height n"]
    qdx_qdy_cases [of q]
  by (simp add: in_open_box_def child_box_def)

lemma get_quadrant_open_child:
  "in_open_box (child_box q n) p \<Longrightarrow> get_quadrant n p = q"
  using open_child_coord [of "fst p" "cx n" "qdx q" "width n"] open_child_coord [of "snd p" "cy n" "qdy q" "height n"]
  by (cases q) (auto simp: in_open_box_def child_box_def get_quadrant_def split_beta)

lemma in_open_box_box_of [simp]: "in_open_box (box_of x) p = in_open_box x p"
  by (simp add: in_open_box_def box_of_def)

lemma in_open_box_child_of:
  "qt_wf t \<Longrightarrow> child q t = Some c \<Longrightarrow> in_open_box (node_of c) p \<Longrightarrow>
   in_open_box (child_box q (node_of t)) p"
  using qt_wf_child [of t q c] in_open_box_box_of [of "node_of c" p] by simp

lemma lookup_open_box:
  "qt_wf t \<Longrightarrow> lookup t path = Some s \<Longrightarrow> in_open_box (node_of s) p \<Longrightarrow> in_open_box (node_of t) p"
proof (induction t path rule: lookup.induct)
  case (1 t)
  then show ?case by simp
next
  case (2 t q qs)
  then obtain c where c: "child q t = Some c" "lookup c qs = Some s"
    by (auto split: option.splits)
  have "in_open_box (node_of c) p"
    using "2.IH" [OF c(1)] "2.prems" c qt_wf_child [OF "2.prems"(1) c(1)] by blast
  then show ?case
    using in_open_box_child in_open_box_child_of [OF "2.prems"(1) c(1)] by blast
qed

lemma locate_path_child:
  "child q t = Some c \<Longrightarrow> get_quadrant (node_of t) p = q \<Longrightarrow> locate_path t p = q # locate_path c p"
  by (cases t; cases q) auto

lemma locate_path_leaf:
  "qt_wf t \<Longrightarrow> lookup t path = Some (QLeaf m) \<Longrightarrow> in_open_box m p \<Longrightarrow> locate_path t p = path"
proof (induction t path rule: lookup.induct)
  case (1 t)
  then show ?case by simp
next
  case (2 t q qs)
  then obtain c where c: "child q t = Some c" "lookup c qs = Some (QLeaf m)"
    by (auto split: option.splits)
  have wf: "qt_wf c" using qt_wf_child [OF "2.prems"(1) c(1)] by blast
  have "in_open_box (node_of c) p"
    using lookup_open_box [OF wf c(2)] "2.prems"(3) by simp
  then have "get_quadrant (node_of t) p = q"
    using get_quadrant_open_child in_open_box_child_of [OF "2.prems"(1) c(1)] by blast
  then show ?case
    using locate_path_child [OF c(1)] "2.IH" [OF c(1) wf c(2) "2.prems"(3)] by simp
qed

lemma leaf_path_lookup:
  "path \<in> set (leaf_paths t) \<Longrightarrow> \<exists>m. lookup t path = Some (QLeaf m) \<and> m \<in> set (get_leaves t)"
proof -
  assume "path \<in> set (leaf_paths t)"
  then have "lookup t path \<in> set (map (lookup t) (leaf_paths t))" by simp
  then show ?thesis unfolding lookup_leaf_paths by auto
qed

text \<open>
  C31. Round trip between the two halves of \<open>QuadTreeEnvironment\<close>: locating
  (\<open>add_start\<close>) the centre of any leaf of a well-formed tree gives back that leaf's
  address.
\<close>

theorem add_start_roundtrip:
  assumes "qt_wf t" "a \<in> set (leaf_addrs t)"
  shows "add_start t (node_centre t a) = a"
proof -
  obtain path where a: "a = rev path" "path \<in> set (leaf_paths t)"
    using assms(2) by (auto simp: leaf_addrs_def)
  obtain m where m: "lookup t path = Some (QLeaf m)"
    using leaf_path_lookup [OF a(2)] by blast
  have na: "node_at t a = Some (QLeaf m)" using m a(1) by (simp add: node_at_def)
  then have "qt_wf (QLeaf m)" using qt_wf_node_at [OF assms(1)] by blast
  then have "in_open_box m (cx m, cy m)" by (simp add: in_open_box_def)
  then have "locate_path t (cx m, cy m) = path" using locate_path_leaf [OF assms(1) m] by blast
  then show ?thesis using na a(1) by (simp add: add_start_def node_centre_def)
qed

lemma locate_path_in_box:
  "qt_wf t \<Longrightarrow> in_box (node_of t) p \<Longrightarrow>
   \<exists>m. lookup t (locate_path t p) = Some (QLeaf m) \<and> in_box m p"
proof (induction t)
  case (QLeaf n)
  then show ?case by simp
next
  case (QNode n a b c d)
  let ?q = "get_quadrant n p"
  have ib: "in_box (child_box ?q n) p" using get_quadrant_in_child_box QNode.prems(2) by simp
  have box: "in_box (box_of x) p = in_box x p" for x :: qnode by (simp add: in_box_def box_of_def)
  show ?case
    using QNode ib by (cases ?q) (auto simp flip: box)
qed

text \<open>
  C32. For a point of the root box, \<open>add_start\<close> ends at a leaf: its address is one of
  \<open>build_env\<close>'s vertices and the leaf's box contains the point.
\<close>

theorem add_start_leaf:
  assumes "qt_wf t" "in_box (node_of t) p"
  shows "add_start t p \<in> set (leaf_addrs t) \<and> (\<exists>m. node_at t (add_start t p) = Some (QLeaf m) \<and> in_box m p)"
  using add_start_in_leaf_addrs locate_path_in_box [OF assms] by (simp add: add_start_def node_at_def)

text \<open>
  C33. The state the planner starts from on a quadtree (the goal leaf with \<open>rhs = 0\<close>,
  its key computed and queued, every other leaf consistent at \<open>inf\<close>) satisfies the
  queue invariant of the solver, for any start and goal point.
\<close>

theorem init_state_queue_inv: "queue_inv (env_graph t) (init_state t start goal_pt)"
  using add_start_in_leaf_addrs [of t goal_pt]
  by (auto simp: queue_inv_def init_state_def env_graph_def Let_def calc_key_def)

text \<open>
  The vertex list of the planner's graph is the list of \<open>get_leaves\<close>, leaf for
  leaf and in the same order: the address-based graph refines the node list of the tree.
\<close>

theorem env_graph_vertices:
  "map (node_at t) (vertices (env_graph t)) = map (\<lambda>m. Some (QLeaf m)) (get_leaves t)"
  by (simp add: env_graph_def leaf_addrs_def node_at_def comp_def lookup_leaf_paths [symmetric])

section \<open>Properties of \<open>GridEnvironment\<close>\<close>

lemma window_filter:
  assumes "0 \<le> x" "x < (n::int)"
  shows "[(if x - 1 = -1 then 0 else x - 1)..(if x + 1 = n then n - 1 else x + 1)] =
         filter (\<lambda>i. 0 \<le> i \<and> i < n) [x - 1, x, x + 1]"
proof -
  consider "x = 0" "n = 1" | "x = 0" "n \<noteq> 1" | "x \<noteq> 0" "x + 1 = n" | "x \<noteq> 0" "x + 1 \<noteq> n" by blast
  then show ?thesis
  proof cases
    case 1 then show ?thesis by simp
  next
    case 2 then show ?thesis using assms by (simp add: upto.simps)
  next
    case 3 then show ?thesis using assms by (simp add: upto.simps)
  next
    case 4 then show ?thesis using assms by (simp add: upto.simps)
  qed
qed

text \<open>
  C35. The neighbour loop of \<open>GridEnvironment.build_env\<close> (eight offsets, kept when in
  range) computes the same list, in the same order, as \<open>succ\<close> of the grid D* Lite
  (\<open>src/DstarLite.py\<close>), on every cell of the grid.
\<close>

theorem grid_neighbors_eq_succ:
  assumes "in_grid n v"
  shows "grid_neighbors n v = succ n v"
proof -
  obtain x y where v: "v = (x, y)" "0 \<le> x" "x < n" "0 \<le> y" "y < n"
    using assms by (cases v) (auto simp: in_grid_def)
  show ?thesis
    unfolding v(1) succ_def Let_def split window_filter [OF v(2,3)] window_filter [OF v(4,5)]
    by (simp add: grid_neighbors_def grid_offsets_def)
qed

lemma mark_cells_in_range:
  "\<forall>(r, c) \<in> set rcs. 0 \<le> r \<and> r < gsz ge \<and> 0 \<le> c \<and> c < gsz ge \<Longrightarrow>
   mark_cells ge rcs = Inr (ge\<lparr>cell_value := (\<lambda>rc. if rc \<in> set rcs then 1 else cell_value ge rc)\<rparr>)"
proof (induction rcs arbitrary: ge)
  case Nil
  then show ?case by simp
next
  case (Cons rc rcs)
  obtain r c where rc: "rc = (r, c)" by (cases rc)
  then have "0 \<le> r" "r < gsz ge" "0 \<le> c" "c < gsz ge" using Cons.prems by auto
  then show ?case
    using Cons.IH [of "ge\<lparr>cell_value := (cell_value ge)((r, c) := 1)\<rparr>"] Cons.prems rc
    by (auto simp: py_index_def fun_eq_iff)
qed

lemma overlap_1d:
  "l < u \<Longrightarrow> a < b \<Longrightarrow> 0 < min u b - max l a \<longleftrightarrow> a < u \<and> l < (b::real)"
  by (auto simp: min_def max_def)

lemma range_member:
  assumes "0 \<le> a" "0 < w"
  shows "c \<in> set [py_int (a / w)..\<lceil>b / w\<rceil> - 1] \<longleftrightarrow> a < (of_int c + 1) * w \<and> of_int c * w < (b::real)"
proof -
  have "py_int (a / w) = \<lfloor>a / w\<rfloor>" using assms by (simp add: py_int_def)
  moreover have "\<lfloor>a / w\<rfloor> \<le> c \<longleftrightarrow> a < (of_int c + 1) * w"
    using assms(2) by (simp add: floor_le_iff pos_divide_less_eq)
  moreover have "c \<le> \<lceil>b / w\<rceil> - 1 \<longleftrightarrow> of_int c * w < b"
  proof -
    have "c \<le> \<lceil>b / w\<rceil> - 1 \<longleftrightarrow> c < \<lceil>b / w\<rceil>" by linarith
    also have "\<dots> \<longleftrightarrow> of_int c < b / w" by (rule less_ceiling_iff)
    also have "\<dots> \<longleftrightarrow> of_int c * w < b" using assms(2) by (simp add: pos_less_divide_eq)
    finally show ?thesis .
  qed
  ultimately show ?thesis by auto
qed

lemma pos_max_prod: "0 < max 0 p * max 0 q \<longleftrightarrow> 0 < p \<and> 0 < (q::real)"
  by (auto simp: max_def zero_less_mult_iff)

lemma cell_box_edges:
  assumes "grid_wf ge"
  shows "cx (cell_box ge r c) - width (cell_box ge r c) / 2 = left_pad ge + of_int c * cell_width ge"
    "cx (cell_box ge r c) + width (cell_box ge r c) / 2 = left_pad ge + (of_int c + 1) * cell_width ge"
    "cy (cell_box ge r c) - height (cell_box ge r c) / 2 = north_pad ge + of_int r * cell_height ge"
    "cy (cell_box ge r c) + height (cell_box ge r c) / 2 = north_pad ge + (of_int r + 1) * cell_height ge"
proof -
  have n: "real_of_int (gsz ge) \<noteq> 0" and e: "cell_width ge = env_w ge / of_int (gsz ge)"
    "cell_height ge = env_h ge / of_int (gsz ge)"
    "left_pad ge = env_x ge - env_w ge / 2" "north_pad ge = env_y ge - env_h ge / 2"
    using assms by (auto simp: grid_wf_def)
  show "cx (cell_box ge r c) - width (cell_box ge r c) / 2 = left_pad ge + of_int c * cell_width ge"
    "cx (cell_box ge r c) + width (cell_box ge r c) / 2 = left_pad ge + (of_int c + 1) * cell_width ge"
    "cy (cell_box ge r c) - height (cell_box ge r c) / 2 = north_pad ge + of_int r * cell_height ge"
    "cy (cell_box ge r c) + height (cell_box ge r c) / 2 = north_pad ge + (of_int r + 1) * cell_height ge"
    unfolding cell_box_def e using n by (simp_all add: field_simps)
qed

lemma cell_overlap:
  assumes "grid_wf ge" "0 < width ob" "0 < height ob"
  shows "0 < get_intersect_area (cell_box ge r c) ob \<longleftrightarrow>
    (cx ob - width ob / 2) - left_pad ge < (of_int c + 1) * cell_width ge \<and>
    of_int c * cell_width ge < (cx ob + width ob / 2) - left_pad ge \<and>
    (cy ob - height ob / 2) - north_pad ge < (of_int r + 1) * cell_height ge \<and>
    of_int r * cell_height ge < (cy ob + height ob / 2) - north_pad ge"
proof -
  have cw: "0 < cell_width ge" "0 < cell_height ge" using assms(1) by (auto simp: grid_wf_def)
  have lx: "left_pad ge + of_int c * cell_width ge < left_pad ge + (of_int c + 1) * cell_width ge"
    and ly: "north_pad ge + of_int r * cell_height ge < north_pad ge + (of_int r + 1) * cell_height ge"
    using cw by (simp_all add: distrib_right)
  have ox: "cx ob - width ob / 2 < cx ob + width ob / 2" and oy: "cy ob - height ob / 2 < cy ob + height ob / 2"
    using assms(2,3) by simp_all
  show ?thesis
    unfolding get_intersect_area_def return_coordinate_def Let_def split pos_max_prod
      cell_box_edges [OF assms(1)] overlap_1d [OF lx ox] overlap_1d [OF ly oy]
    by linarith
qed

text \<open>
  C36. For an obstacle of positive size inside the map, \<open>GridEnvironment.update\<close>
  raises nothing and sets to 1 exactly the cells whose box overlaps the obstacle with
  positive area, leaving the others unchanged.
\<close>

theorem grid_update_marks_overlap:
  assumes "grid_wf ge" "0 < width ob" "0 < height ob"
    "left_pad ge \<le> cx ob - width ob / 2" "cx ob + width ob / 2 \<le> left_pad ge + env_w ge"
    "north_pad ge \<le> cy ob - height ob / 2" "cy ob + height ob / 2 \<le> north_pad ge + env_h ge"
  shows "grid_update ge [ob] = Inr (ge\<lparr>cell_value := (\<lambda>(r, c).
           if 0 < get_intersect_area (cell_box ge r c) ob then 1 else cell_value ge (r, c))\<rparr>)"
proof -
  let ?lp = "left_pad ge" and ?np = "north_pad ge" and ?cw = "cell_width ge" and ?ch = "cell_height ge"
  let ?x1 = "cx ob - width ob / 2" and ?x2 = "cx ob + width ob / 2"
  let ?y1 = "cy ob - height ob / 2" and ?y2 = "cy ob + height ob / 2"
  have cw: "0 < ?cw" "0 < ?ch" using assms(1) by (auto simp: grid_wf_def)
  have n: "0 < gsz ge" "env_w ge = of_int (gsz ge) * ?cw" "env_h ge = of_int (gsz ge) * ?ch"
    using assms(1) by (auto simp: grid_wf_def)
  have mem: "(r, c) \<in> set (covered_cells ge ob) \<longleftrightarrow> 0 < get_intersect_area (cell_box ge r c) ob" for r c
  proof -
    have "(r, c) \<in> set (covered_cells ge ob) \<longleftrightarrow>
        r \<in> set [py_int ((?y1 - ?np) / ?ch)..\<lceil>(?y2 - ?np) / ?ch\<rceil> - 1] \<and>
        c \<in> set [py_int ((?x1 - ?lp) / ?cw)..\<lceil>(?x2 - ?lp) / ?cw\<rceil> - 1]"
      unfolding covered_cells_def return_coordinate_def Let_def split by (auto simp del: set_upto)
    also have "\<dots> \<longleftrightarrow> 0 < get_intersect_area (cell_box ge r c) ob"
    proof -
      have hr: "r \<in> set [py_int ((?y1 - ?np) / ?ch)..\<lceil>(?y2 - ?np) / ?ch\<rceil> - 1] \<longleftrightarrow>
          ?y1 - ?np < (of_int r + 1) * ?ch \<and> of_int r * ?ch < ?y2 - ?np"
        by (rule range_member) (use assms(6) cw in simp_all)
      have hc: "c \<in> set [py_int ((?x1 - ?lp) / ?cw)..\<lceil>(?x2 - ?lp) / ?cw\<rceil> - 1] \<longleftrightarrow>
          ?x1 - ?lp < (of_int c + 1) * ?cw \<and> of_int c * ?cw < ?x2 - ?lp"
        by (rule range_member) (use assms(4) cw in simp_all)
      show ?thesis unfolding hr hc cell_overlap [OF assms(1-3)] by blast
    qed
    finally show ?thesis .
  qed
  have range: "0 \<le> r \<and> r < gsz ge \<and> 0 \<le> c \<and> c < gsz ge" if "(r, c) \<in> set (covered_cells ge ob)" for r c
  proof -
    have o: "?x1 - ?lp < (of_int c + 1) * ?cw" "of_int c * ?cw < ?x2 - ?lp"
      "?y1 - ?np < (of_int r + 1) * ?ch" "of_int r * ?ch < ?y2 - ?np"
      using that mem cell_overlap [OF assms(1-3)] by blast+
    have "0 < (of_int c + 1) * ?cw" "of_int c * ?cw < of_int (gsz ge) * ?cw"
      "0 < (of_int r + 1) * ?ch" "of_int r * ?ch < of_int (gsz ge) * ?ch"
      using o assms(4-7) n by linarith+
    then show ?thesis using cw by (auto simp: zero_less_mult_iff mult_less_cancel_right)
  qed
  have "mark_cells ge (covered_cells ge ob) =
        Inr (ge\<lparr>cell_value := (\<lambda>rc. if rc \<in> set (covered_cells ge ob) then 1 else cell_value ge rc)\<rparr>)"
    by (rule mark_cells_in_range) (use range in auto)
  then show ?thesis using mem by (simp add: fun_eq_iff split_beta)
qed

text \<open>
  An obstacle left of the map (\<open>lb_x = int(-1.2) = -1\<close>) marks the last column, by
  Python's negative indexing; one past the right edge raises \<open>IndexError\<close>.
\<close>

lemma grid_update_left_wrap:
  "grid_update (make_grid_env 50 50 100 100 2) [\<lparr>cx = -30, cy = 25, width = 60, height = 10\<rparr>] =
   Inr ((make_grid_env 50 50 100 100 2)\<lparr>cell_value := (\<lambda>_. -1)((0, 1) := 1)\<rparr>)"
  by (simp add: make_grid_env_def covered_cells_def return_coordinate_def py_int_def py_index_def)

lemma grid_update_right_IndexError:
  "grid_update (make_grid_env 50 50 100 100 2) [\<lparr>cx = 110, cy = 25, width = 20, height = 10\<rparr>] = Inl IndexError"
  by (simp add: make_grid_env_def covered_cells_def return_coordinate_def py_int_def py_index_def)

theorem grid_update_marks_overlap_witness:
  "grid_update (make_grid_env 50 50 100 100 2) [\<lparr>cx = 25, cy = 25, width = 10, height = 10\<rparr>] =
   Inr ((make_grid_env 50 50 100 100 2)\<lparr>cell_value := (\<lambda>(r, c).
     if 0 < get_intersect_area (cell_box (make_grid_env 50 50 100 100 2) r c) \<lparr>cx = 25, cy = 25, width = 10, height = 10\<rparr>
     then 1 else cell_value (make_grid_env 50 50 100 100 2) (r, c))\<rparr>)"
  by (rule grid_update_marks_overlap) (simp_all add: grid_wf_def make_grid_env_def)


theorem add_start_roundtrip_witness: "add_start ex_qt (node_centre ex_qt [NE]) = [NE]"
  by (rule add_start_roundtrip) (simp_all add: ex_qt_def split_def new_node_def box_of_def child_box_def leaf_addrs_def)

theorem add_start_leaf_witness:
  "add_start ex_qt (1, -1) \<in> set (leaf_addrs ex_qt) \<and>
   (\<exists>m. node_at ex_qt (add_start ex_qt (1, -1)) = Some (QLeaf m) \<and> in_box m (1, -1))"
  by (rule add_start_leaf) (simp_all add: ex_qt_def split_def new_node_def box_of_def child_box_def in_box_def)

theorem init_state_queue_inv_witness:
  "sorted (map fst (queue (init_state ex_qt (1, 1) (-1, -1)))) \<and>
   distinct (map snd (queue (init_state ex_qt (1, 1) (-1, -1))))"
  using init_state_queue_inv [of ex_qt "(1, 1)" "(-1, -1)"] unfolding queue_inv_def by blast

theorem grid_neighbors_eq_succ_witness: "grid_neighbors 3 (1, 1) = succ 3 (1, 1)"
  by (rule grid_neighbors_eq_succ) (simp add: in_grid_def)

end
