(* ===== verification/GridPlan.thy ===== *)
theory GridPlan
  imports Env SolverPath
begin

text \<open>
  \<open>GridEnvironment\<close> of \<open>src/Env.py\<close> as the graph the solvers of \<open>src/Solver.py\<close> run
  on: the cells \<open>self.nodes[i][j]\<close> as vertices \<open>(i, j)\<close>, in the order of the loops of
  \<open>build_env\<close>, their neighbour lists (\<open>grid_neighbors\<close>), centres and boxes; and the
  solver state the main loop starts from, with the heuristic \<open>build_env\<close> sets (the
  distance of the centres to the goal cell's) and the goal queued with \<open>rhs = 0\<close>.
\<close>

definition grid_cells :: "int \<Rightarrow> (int \<times> int) list" where
  "grid_cells sz = [(i, j). i \<leftarrow> [0..sz - 1], j \<leftarrow> [0..sz - 1]]"

text \<open>\<open>(node.x, node.y)\<close> of \<open>self.nodes[i][j]\<close>.\<close>

definition cell_centre :: "grid_env \<Rightarrow> int \<times> int \<Rightarrow> real \<times> real" where
  "cell_centre ge ij = (cx (cell_box ge (fst ij) (snd ij)), cy (cell_box ge (fst ij) (snd ij)))"

definition grid_graph :: "grid_env \<Rightarrow> (int \<times> int) graph" where
  "grid_graph ge =
     \<lparr>vertices = grid_cells (gsz ge), neighbors = grid_neighbors (gsz ge), pos = cell_centre ge,
      box_at = (\<lambda>ij. cell_box ge (fst ij) (snd ij))\<rparr>"

text \<open>
  \<open>node.h\<close> from \<open>build_env\<close>, \<open>self.current = self.start\<close>, then the main loop's
  \<open>env.goal.rhs = 0\<close>, \<open>env.goal.calculate_key()\<close>, \<open>priority_queue.add(env.goal)\<close>.
\<close>

definition grid_init_state :: "grid_env \<Rightarrow> int \<times> int \<Rightarrow> int \<times> int \<Rightarrow> (int \<times> int) dstar" where
  "grid_init_state ge s gl =
     (let h = (\<lambda>ij. distance (cell_centre ge ij) (cell_centre ge gl));
          k = calc_key Inf (Fin 0) (h gl)
      in \<lparr>g_of = (\<lambda>_. Inf), rhs_of = (\<lambda>_. Inf)(gl := Fin 0), h_of = h,
          key_of = (\<lambda>_. (Inf, Inf))(gl := k), value_of = cell_value ge,
          queue = [(k, gl)], current = s, goal = gl\<rparr>)"

text \<open>A 2-by-2 grid over the box of side 4 centred at the origin.\<close>

definition ex_ge :: grid_env where
  "ex_ge = make_grid_env 0 0 4 4 2"

section \<open>Lemmas\<close>

lemma set_grid_cells [simp]: "set (grid_cells sz) = {ij. 0 \<le> fst ij \<and> fst ij < sz \<and> 0 \<le> snd ij \<and> snd ij < sz}"
  by (auto simp: grid_cells_def)

lemma grid_graph_closed: "graph_closed (grid_graph ge)"
  by (auto simp: graph_closed_def grid_graph_def grid_neighbors_def)

lemma cell_centre_inj:
  assumes "grid_wf ge"
  shows "inj_on (cell_centre ge) A"
proof (rule inj_onI)
  fix a b assume e: "cell_centre ge a = cell_centre ge b"
  have sz: "0 < (of_int (gsz ge) :: real)" and w: "0 < env_w ge" and h: "0 < env_h ge"
    using assms by (auto simp: grid_wf_def)
  have "(2 * of_int (snd a) - of_int (gsz ge) + 1) * env_w ge = (2 * of_int (snd b) - of_int (gsz ge) + 1) * env_w ge"
    using e sz by (simp add: cell_centre_def cell_box_def)
  then have "snd a = snd b" using w by simp
  moreover have "(2 * of_int (fst a) - of_int (gsz ge) + 1) * env_h ge = (2 * of_int (fst b) - of_int (gsz ge) + 1) * env_h ge"
    using e sz by (simp add: cell_centre_def cell_box_def)
  then have "fst a = fst b" using h by simp
  ultimately show "a = b" by (simp add: prod_eq_iff)
qed

lemma py_index_range: "py_index n i = Inr k \<Longrightarrow> 0 \<le> k \<and> k < n"
  by (auto simp: py_index_def split: if_splits)

lemma grid_cell_of_in: "grid_cell_of ge p = Inr c \<Longrightarrow> c \<in> set (grid_cells (gsz ge))"
  by (auto simp: grid_cell_of_def rbind_eq_Inr dest!: py_index_range)

lemma build_grid_env_Inr:
  assumes "build_grid_env ge start goal_pt = Inr (ge', s, gl)"
  shows "grid_wf ge' = grid_wf ge \<and> gsz ge' = gsz ge \<and> cell_centre ge' = cell_centre ge \<and>
         s \<in> set (grid_cells (gsz ge)) \<and> gl \<in> set (grid_cells (gsz ge))"
proof -
  obtain s' g' where "grid_cell_of ge start = Inr s'" "grid_cell_of ge goal_pt = Inr g'"
    "ge' = ge\<lparr>cell_value := (\<lambda>rc. if cell_value ge rc = -1 then 0 else cell_value ge rc)\<rparr>" "s = s'" "gl = g'"
    using assms by (auto simp: build_grid_env_def rbind_eq_Inr)
  then show ?thesis
    using grid_cell_of_in by (auto simp: grid_wf_def cell_centre_def cell_box_def fun_eq_iff)
qed

lemma grid_init_state_astar_inv:
  "gl \<in> set (grid_cells (gsz ge)) \<Longrightarrow> astar_inv (grid_graph ge) {} (grid_init_state ge s gl)"
  by (simp add: astar_inv_def grid_init_state_def grid_graph_def Let_def)


lemma ex_ge_build: "\<exists>r. build_grid_env ex_ge (-2, -2) (0, 0) = Inr r"
  by (simp add: build_grid_env_def grid_cell_of_def ex_ge_def make_grid_env_def py_int_def py_index_def)

text \<open>
  C10. On the grid environment of any well-formed \<open>GridEnvironment\<close>, once
  \<open>build_env\<close> has located the start and goal cells, \<open>AStarSolver.compute_path\<close> from
  the main loop's start state returns within one iteration per cell plus one: the grid
  graph is closed, its cell centres are distinct, and the start state satisfies the
  search invariant.
\<close>

theorem grid_astar_terminates:
  assumes "grid_wf ge" "build_grid_env ge start goal_pt = Inr (ge', s, gl)"
  shows "\<exists>st'. astar_compute_path (Suc (length (grid_cells (gsz ge')))) (grid_graph ge')
                 (grid_init_state ge' s gl) = Some st'"
proof -
  have b: "grid_wf ge'" "gl \<in> set (grid_cells (gsz ge'))"
    using build_grid_env_Inr [OF assms(2)] assms(1) by simp_all
  have inv: "astar_inv (grid_graph ge') {} (grid_init_state ge' s gl)"
    using grid_init_state_astar_inv [OF b(2)] .
  have inj: "inj_on (pos (grid_graph ge')) (set (vertices (grid_graph ge')))"
    using cell_centre_inj [OF b(1)] by (simp add: grid_graph_def)
  have "card (pos (grid_graph ge') ` set (vertices (grid_graph ge')) - {}) \<le> length (vertices (grid_graph ge'))"
    by (rule card_pos_vertices_le)
  then have "card (pos (grid_graph ge') ` set (vertices (grid_graph ge')) - {}) < Suc (length (grid_cells (gsz ge')))"
    by (simp add: grid_graph_def)
  then show ?thesis unfolding astar_compute_path_def
    using astar_loop_returns [OF inv grid_graph_closed inj] by blast
qed

theorem grid_astar_terminates_witness:
  "\<exists>ge' s gl st'. build_grid_env ex_ge (-2, -2) (0, 0) = Inr (ge', s, gl) \<and>
     astar_compute_path (Suc (length (grid_cells (gsz ge')))) (grid_graph ge') (grid_init_state ge' s gl) = Some st'"
proof -
  have wf: "grid_wf ex_ge" by (simp add: ex_ge_def make_grid_env_def grid_wf_def)
  obtain ge' s gl where b: "build_grid_env ex_ge (-2, -2) (0, 0) = Inr (ge', s, gl)"
    using ex_ge_build by (metis prod_cases3)
  show ?thesis using grid_astar_terminates [OF wf b] b by blast
qed

end
