(* ===== verification/PathManipulation.thy ===== *)
theory PathManipulation
  imports Prelude
begin

text \<open>
  Path smoothing, \<open>makeSpline\<close> of \<open>src/PathManipulation.py\<close>. The cell centres of
  the planned path, with the first replaced by the robot's position and the last by the
  goal, are interpolated by \<open>scipy.interpolate.interp1d(i, x, kind='cubic')\<close> over the
  knots \<open>i = 0, \<dots>, n - 1\<close> and sampled at \<open>np.linspace(0, n - 1, n * 1000)\<close>; any
  exception (the bare \<open>except:\<close>) gives the straight line of 1000 samples from the robot
  to the goal.

  The cubic interpolant is a library routine; it is the parameter \<open>cubic\<close>, applied to
  the values at the knots and to the sample points. Its contract, \<open>interpolates\<close>, is
  what the lemmas use: the result has one value per sample point and takes the knot's
  value at every knot. What the model writes out is the part of \<open>interp1d\<close> that decides
  between the two branches: a cubic spline needs at least four knots and raises
  \<open>ValueError\<close> on fewer. The array \<open>np.array([xs, ys])\<close> is the list of its columns,
  the points of the trajectory, as the main loop reads it (\<open>spl[:, k]\<close>).
\<close>

type_synonym point = "real \<times> real"

text \<open>
  \<open>np.linspace(start, stop, num)\<close> with the end point included: \<open>num\<close> evenly spaced
  values, the last one \<open>stop\<close>.
\<close>

definition linspace :: "real \<Rightarrow> real \<Rightarrow> nat \<Rightarrow> real list" where
  "linspace a b num =
     (if num = 1 then [a]
      else map (\<lambda>k. a + of_nat k * ((b - a) / of_nat (num - 1))) [0..<num])"

text \<open>\<open>x[0] = v0; x[-1] = v1\<close> on a numpy array: \<open>IndexError\<close> on an empty one.\<close>

definition set_ends :: "real list \<Rightarrow> real \<Rightarrow> real \<Rightarrow> real list result" where
  "set_ends xs v0 v1 =
     (if xs = [] then Inl IndexError else Inr ((xs[0 := v0])[length xs - 1 := v1]))"

text \<open>
  \<open>interp1d(i, v, kind='cubic', assume_sorted=True)(q)\<close>: \<open>ValueError\<close> with fewer than
  four knots, else the library's interpolant.
\<close>

definition interp1d_cubic ::
  "(real list \<Rightarrow> real list \<Rightarrow> real list) \<Rightarrow> real list \<Rightarrow> real list \<Rightarrow> real list result" where
  "interp1d_cubic cubic vs qs = (if length vs < 4 then Inl ValueError else Inr (cubic vs qs))"

definition straight_line :: "point \<Rightarrow> point \<Rightarrow> point list" where
  "straight_line robotPos goal =
     zip (linspace (fst robotPos) (fst goal) 1000) (linspace (snd robotPos) (snd goal) 1000)"

text \<open>The body of the \<open>try\<close> block; its exceptions are the \<open>Inl\<close> values.\<close>

definition spline_try ::
  "(real list \<Rightarrow> real list \<Rightarrow> real list) \<Rightarrow> point \<Rightarrow> point list \<Rightarrow> point \<Rightarrow> point list result" where
  "spline_try cubic robotPos path goal =
     rbind (set_ends (map fst path) (fst robotPos) (fst goal)) (\<lambda>x.
     rbind (set_ends (map snd path) (snd robotPos) (snd goal)) (\<lambda>y.
       let n = length path; interp_i = linspace 0 (of_nat (n - 1)) (n * 1000)
       in rbind (interp1d_cubic cubic x interp_i) (\<lambda>xs.
          rbind (interp1d_cubic cubic y interp_i) (\<lambda>ys. Inr (zip xs ys)))))"

definition makeSpline ::
  "(real list \<Rightarrow> real list \<Rightarrow> real list) \<Rightarrow> point \<Rightarrow> point list \<Rightarrow> point \<Rightarrow> point list" where
  "makeSpline cubic robotPos path goal =
     (case spline_try cubic robotPos path goal of
        Inr spl \<Rightarrow> spl
      | Inl _ \<Rightarrow> straight_line robotPos goal)"

text \<open>
  The contract of the interpolant: one value per sample point, and at a sample point that
  is the knot \<open>k\<close> the value given for that knot.
\<close>

definition interpolates :: "(real list \<Rightarrow> real list \<Rightarrow> real list) \<Rightarrow> bool" where
  "interpolates cubic \<longleftrightarrow>
     (\<forall>vs qs. length (cubic vs qs) = length qs \<and>
        (\<forall>j k. j < length qs \<longrightarrow> k < length vs \<longrightarrow> qs ! j = of_nat k \<longrightarrow> cubic vs qs ! j = vs ! k))"

text \<open>An interpolant meeting the contract: piecewise linear between the knots.\<close>

definition lin_interp :: "real list \<Rightarrow> real list \<Rightarrow> real list" where
  "lin_interp vs qs =
     map (\<lambda>q. let k = nat \<lfloor>q\<rfloor>; t = q - of_int \<lfloor>q\<rfloor>
              in if Suc k < length vs then vs ! k + t * (vs ! Suc k - vs ! k) else vs ! k) qs"


section \<open>Lemmas\<close>

lemma length_linspace [simp]: "length (linspace a b num) = num"
  by (simp add: linspace_def)

lemma linspace_nth:
  "1 < num \<Longrightarrow> k < num \<Longrightarrow> linspace a b num ! k = a + of_nat k * ((b - a) / of_nat (num - 1))"
  by (simp add: linspace_def)

lemma linspace_first: "0 < num \<Longrightarrow> linspace a b num ! 0 = a"
  by (cases "num = 1") (simp_all add: linspace_def)

lemma linspace_last:
  assumes "1 < num"
  shows "linspace a b num ! (num - 1) = b"
proof -
  have "of_nat (num - 1) \<noteq> (0::real)" using assms by simp
  then show ?thesis using assms by (simp add: linspace_nth)
qed

lemma straight_line_ends:
  "length (straight_line p g) = 1000 \<and> straight_line p g ! 0 = p \<and> straight_line p g ! 999 = g"
proof -
  have "linspace (fst p) (fst g) 1000 ! 0 = fst p" "linspace (snd p) (snd g) 1000 ! 0 = snd p"
    by (simp_all add: linspace_first)
  moreover have "linspace (fst p) (fst g) 1000 ! 999 = fst g" "linspace (snd p) (snd g) 1000 ! 999 = snd g"
    using linspace_last [of 1000] by simp_all
  ultimately show ?thesis by (simp add: straight_line_def)
qed

lemma set_ends_Inr:
  assumes "2 \<le> length xs"
  shows "\<exists>x. set_ends xs v0 v1 = Inr x \<and> length x = length xs \<and> x ! 0 = v0 \<and> x ! (length xs - 1) = v1"
proof -
  have "0 \<noteq> length xs - 1" "xs \<noteq> []" using assms by auto
  then show ?thesis using assms by (simp add: set_ends_def)
qed

lemma interpolates_length: "interpolates cubic \<Longrightarrow> length (cubic vs qs) = length qs"
  unfolding interpolates_def by blast

lemma interpolates_knot:
  "interpolates cubic \<Longrightarrow> j < length qs \<Longrightarrow> k < length vs \<Longrightarrow> qs ! j = of_nat k \<Longrightarrow>
   cubic vs qs ! j = vs ! k"
  unfolding interpolates_def by blast


lemma interp_at_knots:
  assumes "interpolates cubic" "1 < n" "length vs = n" "qs = linspace 0 (of_nat (n - 1)) (n * 1000)"
  shows "length (cubic vs qs) = n * 1000 \<and> cubic vs qs ! 0 = vs ! 0 \<and>
         cubic vs qs ! (n * 1000 - 1) = vs ! (n - 1)"
proof -
  have l: "length qs = n * 1000" using assms(4) by simp
  have pos: "1 < n * 1000" using assms(2) by simp
  have q0: "qs ! 0 = of_nat 0" using assms(4) linspace_first [of "n * 1000"] pos by simp
  have q1: "qs ! (n * 1000 - 1) = of_nat (n - 1)" using assms(4) linspace_last [OF pos] by simp
  have "cubic vs qs ! 0 = vs ! 0"
    by (rule interpolates_knot [OF assms(1) _ _ q0]) (use l pos assms(2,3) in simp_all)
  moreover have "cubic vs qs ! (n * 1000 - 1) = vs ! (n - 1)"
    by (rule interpolates_knot [OF assms(1) _ _ q1]) (use l pos assms(2,3) in simp_all)
  ultimately show ?thesis using interpolates_length [OF assms(1)] l by simp
qed


lemma spline_try_Inr:
  assumes "interpolates cubic" "4 \<le> length path"
  shows "\<exists>sp. spline_try cubic p path g = Inr sp \<and> length sp = length path * 1000 \<and>
           sp ! 0 = p \<and> sp ! (length path * 1000 - 1) = g"
proof -
  define n where "n = length path"
  define qs where "qs = linspace 0 (of_nat (n - 1)) (n * 1000)"
  have n2: "2 \<le> length (map fst path)" "2 \<le> length (map snd path)" using assms(2) by (simp_all add: n_def)
  obtain x where x: "set_ends (map fst path) (fst p) (fst g) = Inr x" "length x = n"
    "x ! 0 = fst p" "x ! (n - 1) = fst g"
    using set_ends_Inr [OF n2(1)] by (auto simp: n_def)
  obtain y where y: "set_ends (map snd path) (snd p) (snd g) = Inr y" "length y = n"
    "y ! 0 = snd p" "y ! (n - 1) = snd g"
    using set_ends_Inr [OF n2(2)] by (auto simp: n_def)
  have n1: "1 < n" using assms(2) by (simp add: n_def)
  have cx: "length (cubic x qs) = n * 1000 \<and> cubic x qs ! 0 = x ! 0 \<and> cubic x qs ! (n * 1000 - 1) = x ! (n - 1)"
    using interp_at_knots [OF assms(1) n1 x(2) qs_def] .
  have cy: "length (cubic y qs) = n * 1000 \<and> cubic y qs ! 0 = y ! 0 \<and> cubic y qs ! (n * 1000 - 1) = y ! (n - 1)"
    using interp_at_knots [OF assms(1) n1 y(2) qs_def] .
  have "spline_try cubic p path g = Inr (zip (cubic x qs) (cubic y qs))"
    using x(1,2) y(1,2) assms(2) by (simp add: spline_try_def interp1d_cubic_def qs_def n_def Let_def)
  moreover have "n * 1000 - 1 < n * 1000" "0 < n * 1000" using n1 by simp_all
  ultimately show ?thesis using cx cy x y n1 by (simp add: n_def nth_zip)
qed

lemma spline_try_short: "length path < 4 \<Longrightarrow> \<exists>e. spline_try cubic p path g = Inl e"
  by (cases "path = []") (auto simp: spline_try_def set_ends_def interp1d_cubic_def Let_def)


lemma makeSpline_long:
  "interpolates cubic \<Longrightarrow> 4 \<le> length path \<Longrightarrow>
   \<exists>sp. makeSpline cubic p path g = sp \<and> spline_try cubic p path g = Inr sp \<and>
        length sp = length path * 1000 \<and> sp ! 0 = p \<and> sp ! (length path * 1000 - 1) = g"
proof -
  assume a: "interpolates cubic" "4 \<le> length path"
  obtain sp where "spline_try cubic p path g = Inr sp" "length sp = length path * 1000"
    "sp ! 0 = p" "sp ! (length path * 1000 - 1) = g"
    using spline_try_Inr [OF a] by blast
  then show ?thesis by (simp add: makeSpline_def)
qed

text \<open>A path of fewer than four cells is replaced by the straight line to the goal.\<close>

lemma makeSpline_short: "length path < 4 \<Longrightarrow> makeSpline cubic p path g = straight_line p g"
proof -
  assume "length path < 4"
  then obtain e where "spline_try cubic p path g = Inl e" using spline_try_short by blast
  then show ?thesis by (simp add: makeSpline_def)
qed

text \<open>
  Repeated cell centres do not make \<open>makeSpline\<close> fall back: the knots are the indices,
  not the coordinates.
\<close>

lemma makeSpline_duplicates:
  "interpolates cubic \<Longrightarrow> length (makeSpline cubic p (replicate 4 c) g) = 4000"
proof -
  assume a: "interpolates cubic"
  have "4 \<le> length (replicate 4 c)" by simp
  then obtain sp where "makeSpline cubic p (replicate 4 c) g = sp" "length sp = length (replicate 4 c) * 1000"
    using makeSpline_long [OF a] by blast
  then show ?thesis by simp
qed

lemma lin_interp_interpolates: "interpolates lin_interp"
  unfolding interpolates_def lin_interp_def by (auto simp: Let_def)

lemma makeSpline_shape:
  assumes "interpolates cubic"
  shows "length (makeSpline cubic p path g) = (if 4 \<le> length path then length path * 1000 else 1000) \<and>
         hd (makeSpline cubic p path g) = p \<and> last (makeSpline cubic p path g) = g"
proof (cases "4 \<le> length path")
  case True
  then obtain sp where sp: "makeSpline cubic p path g = sp" "length sp = length path * 1000"
    "sp ! 0 = p" "sp ! (length path * 1000 - 1) = g"
    using makeSpline_long [OF assms True, of p g] by blast
  then have "sp \<noteq> []" using True by auto
  then show ?thesis using sp True by (simp add: hd_conv_nth last_conv_nth)
next
  case False
  then have "makeSpline cubic p path g = straight_line p g" by (simp add: makeSpline_short)
  moreover have "straight_line p g \<noteq> []" using straight_line_ends [of p g] by auto
  ultimately show ?thesis using False straight_line_ends [of p g] by (simp add: hd_conv_nth last_conv_nth)
qed

text \<open>
  C5. Whatever the planned path, the trajectory \<open>makeSpline\<close> hands to the main loop
  starts at the robot's position and ends at the goal, with 1000 samples per path cell
  when the cubic spline is used and 1000 samples on the straight-line fallback (fewer
  than four cells).
\<close>

theorem makeSpline_ends:
  assumes "interpolates cubic"
  shows "length (makeSpline cubic p path g) = (if 4 \<le> length path then length path * 1000 else 1000) \<and>
         hd (makeSpline cubic p path g) = p \<and> last (makeSpline cubic p path g) = g"
  using makeSpline_shape [OF assms] .

theorem makeSpline_ends_witness:
  "hd (makeSpline lin_interp (0, 0) [(1, 1)] (3, 4)) = (0, 0) \<and>
   last (makeSpline lin_interp (0, 0) [(1, 1), (2, 2), (2, 3), (1, 5)] (3, 4)) = (3, 4)"
  using makeSpline_ends [OF lin_interp_interpolates, of "(0, 0)" "[(1, 1)]" "(3, 4)"]
    makeSpline_ends [OF lin_interp_interpolates, of "(0, 0)" "[(1, 1), (2, 2), (2, 3), (1, 5)]" "(3, 4)"]
  by blast

end
