(* ===== verification/Simulation.thy ===== *)
theory Simulation
  imports DecisionMaking SolverPath Env GridPlan PathManipulation
begin

text \<open>
  The non-UI part of the simulation loop of \<open>src/QuadTree.py\<close> (function \<open>main\<close>):
  the choice of modules (\<open>get_modules\<close>), the local tick that runs while the patience
  counter is non-zero (recording the robot's position, the collision test, the optional
  replan, the move to the local goal, advancing along the smoothed path, the patience
  counter, the goal test), and the statistics written at the end (path length and the
  mean turning angle).

  The planner and the spline smoother are inputs of a tick: a \<open>"Replan"\<close> tick receives the
  new cell path and the spline (\<open>robot.updatePath\<close> and \<open>makeSpline\<close>), whose
  \<open>scipy\<close> interpolation is not modelled. The tick with patience 0 rebuilds the
  environment from scratch and is the composition of \<open>Env\<close> and \<open>SolverPath\<close>;
  \<open>run_local\<close> stops there. Python's \<open>nan\<close> of \<open>0/0\<close> in \<open>angle\<close> is \<open>None\<close>.
\<close>

section \<open>Modules\<close>

datatype env_type = EnvGrid | EnvQuadtree

datatype planning_algo = PlanAstar | PlanDstarLite

datatype decision_algo = DecOnlyReplan | DecFuzzy

definition get_modules :: "string \<Rightarrow> env_type \<times> planning_algo \<times> decision_algo" where
  "get_modules algorithm =
     (if algorithm = ''grid'' then EnvGrid else EnvQuadtree,
      if algorithm = ''Astar'' then PlanAstar else PlanDstarLite,
      if algorithm = ''OnlyReplan'' then DecOnlyReplan else DecFuzzy)"

section \<open>Statistics\<close>

text \<open>
  \<open>angle(p1, p2, p3)\<close> of \<open>src/QuadTree.py\<close>: the turning angle at \<open>p2\<close>. When one of
  the two segments has length 0, numpy computes \<open>0/0 = nan\<close> (\<open>None\<close> here).
\<close>

definition angle_qt :: "real \<times> real \<Rightarrow> real \<times> real \<Rightarrow> real \<times> real \<Rightarrow> real option" where
  "angle_qt p1 p2 p3 =
     (let l = sqrt (((fst p1 - fst p2)\<^sup>2 + (snd p1 - snd p2)\<^sup>2) * ((fst p3 - fst p2)\<^sup>2 + (snd p3 - snd p2)\<^sup>2))
      in if l = 0 then None
         else Some (pi - arccos (max (((fst p1 - fst p2) * (fst p3 - fst p2) +
                                       (snd p1 - snd p2) * (snd p3 - snd p2)) / l) (-1))))"

text \<open>\<open>if (len(past_path) == 0) or robot.pos != past_path[-1]: past_path.append(robot.pos)\<close>.\<close>

definition record_pos :: "(real \<times> real) list \<Rightarrow> real \<times> real \<Rightarrow> (real \<times> real) list" where
  "record_pos past p = (if past = [] \<or> p \<noteq> last past then past @ [p] else past)"

text \<open>The travelled distance \<open>d\<close>: the sum of the segment lengths.\<close>

fun path_length :: "(real \<times> real) list \<Rightarrow> real" where
  "path_length (p # q # ps) = distance p q + path_length (q # ps)"
| "path_length _ = 0"

text \<open>The sum of the turning angles at the inner points (\<open>None\<close> once a term is \<open>nan\<close>).\<close>

fun smooth_sum :: "(real \<times> real) list \<Rightarrow> real option" where
  "smooth_sum (p1 # p2 # p3 # ps) =
     (case angle_qt p1 p2 p3 of None \<Rightarrow> None | Some a \<Rightarrow> map_option ((+) a) (smooth_sum (p2 # p3 # ps)))"
| "smooth_sum _ = Some 0"

text \<open>
  \<open>(smooth / count) * 180 / np.pi\<close> with \<open>count = len(past_path) - 2\<close>: both start as
  Python ints, so a run of fewer than three recorded positions raises
  \<open>ZeroDivisionError\<close>.
\<close>

definition mean_turn :: "(real \<times> real) list \<Rightarrow> real option result" where
  "mean_turn past =
     (let count = length past - 2
      in if count = 0 then Inl ZeroDivisionError
         else Inr (map_option (\<lambda>smooth. smooth / of_nat count * 180 / pi) (smooth_sum past)))"

section \<open>The local tick\<close>

text \<open>
  The robot is inside the closed box of an obstacle:
  \<open>-i.width <= 2 * (robotX - i.x) <= i.width and -i.height <= 2 * (robotY - i.y) <= i.height\<close>.
\<close>

definition hits :: "real \<times> real \<Rightarrow> 'a aabb_scheme \<Rightarrow> bool" where
  "hits p i \<longleftrightarrow>
     - width i \<le> 2 * (fst p - cx i) \<and> 2 * (fst p - cx i) \<le> width i \<and>
     - height i \<le> 2 * (snd p - cy i) \<and> 2 * (snd p - cy i) \<le> height i"

definition PATIENCE :: nat where
  "PATIENCE = 30"

text \<open>
  The loop variables of \<open>main\<close> that the local tick reads and writes: the robot, the local
  goal, the index \<open>targets\<close> of the next spline sample (a sample every 200 columns), the
  spline as the list of its columns, the cell path, the environment's current cell, and
  the flags and counters.
\<close>

record sim =
  robot_st :: robot
  local_goal :: "real \<times> real"
  targets :: nat
  spl :: "(real \<times> real) list"
  path_cells :: "aabb list"
  cur_cell :: "aabb option"
  finished :: bool
  patience :: nat
  past_path :: "(real \<times> real) list"
  collision :: bool

text \<open>
  One tick with \<open>patience != 0\<close> (lines 165-234 and the goal test of lines 284-285), given
  the obstacles before the move, the decision, and, for a \<open>"Replan"\<close>, the new cell path and
  its spline. \<open>tuple(spl[:, 200])\<close> after a replan is not guarded and raises
  \<open>IndexError\<close> on a spline of at most 200 columns.
\<close>

definition tick_local ::
  "real \<times> real \<Rightarrow> 'a aabb_scheme list \<Rightarrow> decision \<Rightarrow> (real \<times> real) list \<Rightarrow> aabb list \<Rightarrow> sim \<Rightarrow> sim result" where
  "tick_local end_pt obstacles_list_before decision new_spl new_path s =
     (let s1 = s\<lparr>past_path := record_pos (past_path s) (robot.pos (robot_st s)),
                 collision := (collision s \<or> list_ex (hits (robot.pos (robot_st s))) obstacles_list_before)\<rparr>
      in rbind (if decision = Replan then
                  (if 200 < length new_spl
                   then Inr (s1\<lparr>path_cells := new_path, spl := new_spl, local_goal := new_spl ! 200, targets := 1\<rparr>)
                   else Inl IndexError)
                else Inr s1) (\<lambda>s2.
         let s3 = (if decision \<noteq> Stop
                   then s2\<lparr>robot_st := (robot_st s2)\<lparr>robot.pos := nextPosition (robot_st s2) (local_goal s2)\<rparr>\<rparr>
                   else s2);
             s4 = (if reach (robot_st s3) (local_goal s3) 8 then
                     (let s5 = (if local_goal s3 = end_pt then s3\<lparr>finished := True\<rparr>
                                else if 2 < length (path_cells s3) \<and> enter (robot_st s3) (path_cells s3 ! 1)
                                then s3\<lparr>path_cells := tl (path_cells s3), cur_cell := Some (path_cells s3 ! 1)\<rparr>
                                else s3);
                          t = targets s5 + 1
                      in s5\<lparr>targets := t,
                            local_goal := (if t * 200 < length (spl s5) then spl s5 ! (t * 200) else end_pt)\<rparr>)
                   else s3);
             p = patience s4 + 1;
             s6 = s4\<lparr>patience := (if p = PATIENCE then 0 else p)\<rparr>
         in Inr (s6\<lparr>finished := (finished s6 \<or> reach (robot_st s6) end_pt 8)\<rparr>)))"

text \<open>
  Consecutive local ticks: the \<open>while not finished\<close> loop, handing over to the rebuilding
  tick when the patience counter is back at 0. Each input is one tick's obstacles before
  the move, decision, and replanning output.
\<close>

fun run_local ::
  "real \<times> real \<Rightarrow> ('a aabb_scheme list \<times> decision \<times> (real \<times> real) list \<times> aabb list) list \<Rightarrow> sim \<Rightarrow> sim result" where
  "run_local end_pt [] s = Inr s"
| "run_local end_pt ((obs, d, nspl, npath) # ins) s =
     (if finished s \<or> patience s = 0 then Inr s
      else rbind (tick_local end_pt obs d nspl npath s) (run_local end_pt ins))"

section \<open>The robot's modules\<close>

text \<open>
  \<open>Robot.show_path\<close>, \<open>Robot.updatePath\<close> and \<open>Robot.decisionMaking\<close> of
  \<open>src/robot.py\<close> delegate to the solver and the decision module the main loop chose
  (\<open>get_modules\<close>); the dispatch is on the choice. \<open>updatePath\<close> hands the solver
  the obstacles the robot detects; \<open>decisionMaking\<close> first stores the obstacle lists and
  the goal in the decision module (\<open>DecisionMaking.update\<close>).
\<close>

definition robot_show_path :: "nat \<Rightarrow> planning_algo \<Rightarrow> 'v graph \<Rightarrow> 'v dstar \<Rightarrow> ('v dstar \<times> 'v list) outcome" where
  "robot_show_path n algo G st = (if algo = PlanDstarLite then ds_show_path n G st else astar_show_path n G st)"

definition updatePath ::
  "nat \<Rightarrow> planning_algo \<Rightarrow> 'v graph \<Rightarrow> 'v dstar \<Rightarrow> robot \<Rightarrow> 'a aabb_scheme list \<Rightarrow> ('v dstar \<times> 'v list) outcome" where
  "updatePath n algo G st rb obstacles_list =
     (let obstacles = detect rb obstacles_list
      in if algo = PlanDstarLite then ds_replan_path n G st obstacles else astar_replan_path n G st obstacles)"

definition robot_decisionMaking ::
  "decision_algo \<Rightarrow> robot \<Rightarrow> 'a aabb_scheme list \<Rightarrow> 'a aabb_scheme list \<Rightarrow> real \<times> real \<Rightarrow> decision result" where
  "robot_decisionMaking algo rb obstacles_list_before obstacles_list_after goal_pt =
     (if algo = DecOnlyReplan then Inr (only_replan_decision rb goal_pt obstacles_list_before)
      else fuzzy_decision rb goal_pt obstacles_list_before obstacles_list_after)"

text \<open>
  The replanning of a local tick (lines 211-212): \<open>path = robot.updatePath(obstacles_list)\<close>
  and \<open>spl = makeSpline(robot.pos, path, end)\<close> over the cells' centres; the result is
  the solver state, the spline and the cells' boxes, the inputs \<open>tick_local\<close> takes.
\<close>

definition local_replan ::
  "nat \<Rightarrow> planning_algo \<Rightarrow> 'v graph \<Rightarrow> 'v dstar \<Rightarrow> ('v \<Rightarrow> real \<times> real) \<Rightarrow> ('v \<Rightarrow> aabb) \<Rightarrow>
   (real list \<Rightarrow> real list \<Rightarrow> real list) \<Rightarrow> real \<times> real \<Rightarrow> 'a aabb_scheme list \<Rightarrow> sim \<Rightarrow>
   ('v dstar \<times> (real \<times> real) list \<times> aabb list) outcome" where
  "local_replan n algo G st centre box cubic end_pt obstacles_list s =
     obind (updatePath n algo G st (robot_st s) obstacles_list) (\<lambda>(st', path).
       Some (Inr (st', makeSpline cubic (robot.pos (robot_st s)) (map centre path) end_pt, map box path)))"

section \<open>The rebuilding tick\<close>

text \<open>
  The map of \<open>main\<close>: a 512-pixel square whose top-left corner is at
  \<open>(LEFT_PAD, NORTH_PAD) = (int(512 * 0.06), int(512 * 0.06)) = (30, 30)\<close>.
\<close>

definition env_width :: real where
  "env_width = 512"

definition LEFT_PAD :: real where
  "LEFT_PAD = 30"

definition NORTH_PAD :: real where
  "NORTH_PAD = 30"

text \<open>
  The tick with \<open>patience == 0\<close> for the quadtree environment (lines 236-272): a fresh
  \<open>QuadTreeEnvironment\<close>, \<open>env.update(obstacles_list)\<close> (the default thresholds
  0.005 and 16, with the recursion depth bound \<open>depth\<close>), \<open>env.build_env(robot.pos, end)\<close>
  and the start state of the solver (\<open>init_state\<close>), the solver's \<open>show_path\<close>
  (\<open>D* Lite\<close> or \<open>A*\<close>, fuel \<open>n\<close>), then \<open>makeSpline\<close>, which is a parameter,
  and the first local goal. The robot's path is the list of the leaves' boxes.
\<close>

definition tick_rebuild ::
  "nat \<Rightarrow> nat \<Rightarrow> planning_algo \<Rightarrow> (real \<times> real \<Rightarrow> (real \<times> real) list \<Rightarrow> real \<times> real \<Rightarrow> (real \<times> real) list) \<Rightarrow>
   real \<times> real \<Rightarrow> obstacle list \<Rightarrow> sim \<Rightarrow> sim outcome" where
  "tick_rebuild depth n algo make_spline end_pt obstacles_list s =
     obind (Some (qt_env_update depth obstacles_list
                    (qt_env_root (LEFT_PAD + env_width / 2) (NORTH_PAD + env_width / 2) env_width env_width))) (\<lambda>t.
       let G = env_graph t; p0 = robot.pos (robot_st s); st0 = init_state t p0 end_pt
       in obind (robot_show_path n algo G st0) (\<lambda>(st', path).
            let sp = make_spline p0 (map (node_centre t) path) end_pt
            in Some (Inr (s\<lparr>path_cells := map (node_box t) path, cur_cell := Some (node_box t (add_start t p0)),
                           spl := sp, targets := 1, local_goal := (if 1 * 200 < length sp then sp ! (1 * 200) else end_pt),
                           patience := Suc (patience s)\<rparr>))))"

text \<open>
  The same tick for \<open>env_type == 'grid'\<close> (lines 240-241): a fresh
  \<open>GridEnvironment\<close> of the default 32-by-32 cells, \<open>env.update(obstacles_list)\<close>
  (\<open>grid_update\<close>), \<open>env.build_env(robot.pos, end)\<close> (\<open>build_grid_env\<close>, which can
  raise \<open>IndexError\<close> for a point outside the map), the start state
  \<open>grid_init_state\<close>, the solver's \<open>show_path\<close> and the spline over the cells' centres.
\<close>

definition tick_rebuild_grid ::
  "nat \<Rightarrow> planning_algo \<Rightarrow> (real \<times> real \<Rightarrow> (real \<times> real) list \<Rightarrow> real \<times> real \<Rightarrow> (real \<times> real) list) \<Rightarrow>
   real \<times> real \<Rightarrow> obstacle list \<Rightarrow> sim \<Rightarrow> sim outcome" where
  "tick_rebuild_grid n algo make_spline end_pt obstacles_list s =
     obind (Some (grid_update (make_grid_env (LEFT_PAD + env_width / 2) (NORTH_PAD + env_width / 2)
                                 env_width env_width 32) obstacles_list)) (\<lambda>ge.
       let p0 = robot.pos (robot_st s)
       in obind (Some (build_grid_env ge p0 end_pt)) (\<lambda>(ge', sc, gc).
            let G = grid_graph ge'; st0 = grid_init_state ge' sc gc
            in obind (robot_show_path n algo G st0) (\<lambda>(st', path).
                 let sp = make_spline p0 (map (cell_centre ge') path) end_pt
                 in Some (Inr (s\<lparr>path_cells := map (box_at G) path, cur_cell := Some (box_at G sc),
                                spl := sp, targets := 1,
                                local_goal := (if 1 * 200 < length sp then sp ! (1 * 200) else end_pt),
                                patience := Suc (patience s)\<rparr>)))))"

section \<open>Specifications and an example\<close>

text \<open>
  The local goal is the spline sample of index \<open>targets\<close>, or the goal once the
  samples are exhausted; \<open>remaining\<close> counts the samples still ahead.
\<close>

definition lg_ok :: "real \<times> real \<Rightarrow> sim \<Rightarrow> bool" where
  "lg_ok e s \<longleftrightarrow> local_goal s = (if targets s * 200 < length (spl s) then spl s ! (targets s * 200) else e)"

definition remaining :: "sim \<Rightarrow> nat" where
  "remaining s = (if targets s * 200 < length (spl s) then (length (spl s) - targets s * 200 - 1) div 200 + 1 else 0)"

text \<open>A robot one tick after planning along a straight spline of 401 columns.\<close>

definition ex_sim :: sim where
  "ex_sim = \<lparr>robot_st = make_robot (0, 0) 40, local_goal = (200, 0), targets = 1,
     spl = map (\<lambda>k. (of_nat k, 0)) [0..<401], path_cells = [], cur_cell = None, finished = False,
     patience = 1, past_path = [], collision = False\<rparr>"

section \<open>Properties\<close>

lemma hits_iff_in_box: "hits p i \<longleftrightarrow> in_box i p"
  unfolding hits_def in_box_def abs_le_iff by auto

lemma mean_turn_short: "length past < 3 \<Longrightarrow> mean_turn past = Inl ZeroDivisionError"
  by (simp add: mean_turn_def)

lemma reach_same: "reach (rb\<lparr>robot.pos := p\<rparr>) p eps"
  by (simp add: reach_def split_beta)

lemma reach_at: "robot.pos rb = p \<Longrightarrow> reach rb p eps"
  by (simp add: reach_def split_beta)

lemma tick_No:
  "\<exists>s'. tick_local e obs No nspl npath s = Inr s' \<and> robot.pos (robot_st s') = local_goal s \<and>
     targets s' = Suc (targets s) \<and> spl s' = spl s \<and>
     local_goal s' = (if Suc (targets s) * 200 < length (spl s) then spl s ! (Suc (targets s) * 200) else e) \<and>
     patience s' = (if Suc (patience s) = PATIENCE then 0 else Suc (patience s)) \<and>
     (finished s' \<longleftrightarrow> finished s \<or> local_goal s = e \<or> reach (robot_st s') e 8)"
  by (simp add: tick_local_def Let_def nextPosition_def reach_same)


lemma remaining_Suc:
  assumes "t * 200 < L"
  shows "(if Suc t * 200 < L then (L - Suc t * 200 - 1) div 200 + 1 else 0) < (L - t * 200 - 1) div 200 + 1"
proof (cases "Suc t * 200 < L")
  case True
  let ?x = "L - t * 200 - 1"
  have x: "200 \<le> ?x" "L - Suc t * 200 - 1 = ?x - 200" using True by simp_all
  have "?x div 200 = Suc ((?x - 200) div 200)" using x(1) by (simp add: le_div_geq)
  then show ?thesis using True x(2) by simp
qed simp

lemma run_local_finished: "finished s \<Longrightarrow> run_local e ins s = Inr s"
  by (cases ins) auto

text \<open>
  C30. Liveness of the local ticks: while the decision module answers \<open>"No"\<close>, the
  robot jumps to the local goal each tick, the local goal advances one sample of 200
  columns, and within one tick more than the samples still ahead the robot reaches the goal
  and the loop finishes, provided the patience counter does not wrap to the rebuilding
  tick before.
\<close>

theorem run_local_reaches_goal:
  assumes "lg_ok e s" "\<not> finished s" "0 < patience s" "patience s + remaining s < PATIENCE"
    "\<forall>i \<in> set ins. fst (snd i) = No" "remaining s < length ins"
  shows "\<exists>s'. run_local e ins s = Inr s' \<and> finished s' \<and> reach (robot_st s') e 8"
  using assms
proof (induction ins arbitrary: s)
  case Nil
  then show ?case by simp
next
  case (Cons i ins)
  obtain obs d nspl npath where i: "i = (obs, d, nspl, npath)" by (cases i) auto
  have d: "d = No" using Cons.prems(5) i by simp
  obtain s' where s': "tick_local e obs No nspl npath s = Inr s'" "robot.pos (robot_st s') = local_goal s"
    "targets s' = Suc (targets s)" "spl s' = spl s"
    "local_goal s' = (if Suc (targets s) * 200 < length (spl s) then spl s ! (Suc (targets s) * 200) else e)"
    "patience s' = (if Suc (patience s) = PATIENCE then 0 else Suc (patience s))"
    "finished s' \<longleftrightarrow> finished s \<or> local_goal s = e \<or> reach (robot_st s') e 8"
    using tick_No [of e obs nspl npath s] by blast
  have run: "run_local e (i # ins) s = run_local e ins s'"
    using Cons.prems(2,3) s'(1) i d by simp
  show ?case
  proof (cases "finished s'")
    case True
    have "reach (robot_st s') e 8"
      using True s'(2,7) Cons.prems(2) reach_at [of "robot_st s'" e 8] by (cases "local_goal s = e") auto
    moreover have "run_local e (i # ins) s = Inr s'" using run run_local_finished [OF True] by simp
    ultimately show ?thesis using True by blast
  next
    case False
    then have ne: "local_goal s \<noteq> e" using s'(7) by simp
    then have lt: "targets s * 200 < length (spl s)" using Cons.prems(1) by (auto simp: lg_ok_def split: if_splits)
    have r1: "remaining s' = (if Suc (targets s) * 200 < length (spl s)
        then (length (spl s) - Suc (targets s) * 200 - 1) div 200 + 1 else 0)"
      using s'(3,4) by (simp only: remaining_def)
    have r2: "remaining s = (length (spl s) - targets s * 200 - 1) div 200 + 1"
      using lt by (simp only: remaining_def if_True)
    have rem: "remaining s' < remaining s"
      unfolding r1 r2 by (rule remaining_Suc [OF lt])
    have pat: "patience s' = Suc (patience s)" using s'(6) Cons.prems(4) rem by (simp add: PATIENCE_def)
    have "\<exists>s''. run_local e ins s' = Inr s'' \<and> finished s'' \<and> reach (robot_st s'') e 8"
    proof (rule Cons.IH)
      show "lg_ok e s'" using s'(3,4,5) by (simp add: lg_ok_def)
      show "\<not> finished s'" by (rule False)
      show "0 < patience s'" using pat by simp
      show "patience s' + remaining s' < PATIENCE" using pat rem Cons.prems(4) by simp
      show "\<forall>i \<in> set ins. fst (snd i) = No" using Cons.prems(5) by simp
      show "remaining s' < length ins" using rem Cons.prems(6) by simp
    qed
    then show ?thesis using run by simp
  qed
qed


theorem run_local_reaches_goal_witness:
  "\<exists>s'. run_local (400, 0) (replicate 3 ([] :: aabb list, No, [], [])) ex_sim = Inr s' \<and>
     finished s' \<and> reach (robot_st s') (400, 0) 8"
  by (rule run_local_reaches_goal) (simp_all add: ex_sim_def lg_ok_def remaining_def PATIENCE_def)

text \<open>
  The rebuilding tick establishes what the local ticks need: the local goal is the first
  spline sample (or the goal), and the patience counter is positive.
\<close>

lemma tick_rebuild_lg_ok:
  assumes "tick_rebuild depth n algo mk e obs s = Some (Inr s')"
  shows "lg_ok e s' \<and> targets s' = 1 \<and> patience s' = Suc (patience s)"
  using assms by (auto simp: tick_rebuild_def Let_def lg_ok_def obind_eq_Some_Inr split: prod.splits)


lemma tick_rebuild_spl:
  assumes "tick_rebuild depth n algo mk e obs s = Some (Inr s')"
  shows "\<exists>cells. spl s' = mk (robot.pos (robot_st s)) cells e \<and>
           local_goal s' = (if 200 < length (spl s') then spl s' ! 200 else e)"
  using assms by (auto simp: tick_rebuild_def Let_def obind_eq_Some_Inr split: prod.splits)

text \<open>
  Planning with \<open>makeSpline\<close>: the new trajectory runs from the robot's position to the
  goal, has at least 1000 samples, and the first local goal is its sample 200.
\<close>

lemma tick_rebuild_makeSpline:
  assumes "interpolates cubic" "tick_rebuild depth n algo (makeSpline cubic) e obs s = Some (Inr s')"
  shows "hd (spl s') = robot.pos (robot_st s) \<and> last (spl s') = e \<and> 1000 \<le> length (spl s') \<and>
         local_goal s' = spl s' ! 200"
proof -
  obtain cells where c: "spl s' = makeSpline cubic (robot.pos (robot_st s)) cells e"
    "local_goal s' = (if 200 < length (spl s') then spl s' ! 200 else e)"
    using tick_rebuild_spl [OF assms(2)] by blast
  have "1000 \<le> length (spl s')" using makeSpline_shape [OF assms(1)] c(1) by simp
  then show ?thesis using makeSpline_shape [OF assms(1)] c by simp
qed


lemma tick_local_Inr: "200 < length nspl \<Longrightarrow> \<exists>s'. tick_local e obs d nspl npath s = Inr s'"
  by (simp add: tick_local_def Let_def)

text \<open>
  With the spline of \<open>makeSpline\<close>, the unguarded \<open>tuple(spl[:, 200])\<close> of the
  \<open>"Replan"\<close> branch never raises: the local tick always returns a state.
\<close>

lemma local_replan_tick:
  assumes "interpolates cubic"
    "local_replan n algo G st centre box cubic e obstacles_list s = Some (Inr (st', nspl, npath))"
  shows "\<exists>s'. tick_local e obs d nspl npath s = Inr s'"
proof -
  obtain path where "nspl = makeSpline cubic (robot.pos (robot_st s)) (map centre path) e"
    using assms(2) by (auto simp: local_replan_def obind_eq_Some_Inr)
  then have "1000 \<le> length nspl" using makeSpline_shape [OF assms(1)] by simp
  then show ?thesis by (intro tick_local_Inr) simp
qed


lemma tick_rebuild_grid_lg_ok:
  assumes "tick_rebuild_grid n algo mk e obs s = Some (Inr s')"
  shows "lg_ok e s' \<and> targets s' = 1 \<and> patience s' = Suc (patience s)"
  using assms by (auto simp: tick_rebuild_grid_def Let_def lg_ok_def obind_eq_Some_Inr split: prod.splits)

end
