(* ===== verification/SimUI.thy ===== *)
theory SimUI
  imports Simulation DstarUI
begin

text \<open>
  The interactive set-up of the main loop of \<open>src/QuadTree.py\<close> (lines 52-163): the three
  buttons below the map (\<open>"Start"\<close>, \<open>"Pause"\<close>, \<open>"Static"\<close>), drawing an obstacle by
  dragging the mouse, \<open>Ctrl+Z\<close> to remove the last one, and the gate of each frame: the
  obstacles are drawn while \<open>done\<close> is false, the frame is skipped while paused, and
  otherwise every obstacle moves and the simulation tick runs on the lists before and
  after the move.

  The state is the record \<open>ed_state\<close> (\<open>done\<close> is the field \<open>is_done\<close>). The press position \<open>mx, my\<close> is \<open>None\<close> until
  the first press, as in the code. The velocity \<open>np.random.randn(2) * 2\<close> of a new
  obstacle is part of the release event (the random source is explicit); the file written
  by the \<open>"Start"\<close> button and the printed messages are not modelled, and
  \<open>maps[test_map]\<close> is the parameter \<open>map_obs\<close> (\<open>None\<close> when the map is not known).
\<close>

section \<open>Layout\<close>

text \<open>\<open>SOUTH_PAD = int(env_height * 0.16)\<close> and the button rectangles, \<open>int\<close> of floats.\<close>

definition SOUTH_PAD :: int where
  "SOUTH_PAD = py_int (env_width * 16 / 100)"

definition button_rect :: "real \<Rightarrow> rect" where
  "button_rect fr =
     (py_int LEFT_PAD + py_int (env_width * fr), py_int NORTH_PAD * 2 + py_int env_width,
      py_int (env_width * 2 / 10), py_int (of_int SOUTH_PAD * 4 / 10))"

definition button1 :: rect where "button1 = button_rect (1 / 10)"
definition button2 :: rect where "button2 = button_rect (7 / 10)"
definition button3 :: rect where "button3 = button_rect (4 / 10)"

section \<open>State and events\<close>

record ed_state =
  ed_obstacles :: "obstacle list"
  press :: "(int \<times> int) option"
  drawing :: bool
  is_done :: bool
  is_static :: bool
  paused :: bool

text \<open>\<open>interactive=True\<close>: nothing drawn yet, not done, static obstacles, not paused.\<close>

definition ed_init :: ed_state where
  "ed_init = \<lparr>ed_obstacles = [], press = None, drawing = False, is_done = False, is_static = True, paused = False\<rparr>"

text \<open>\<open>interactive=False\<close>: the scenario's obstacles, if the map is known, and \<open>done = True\<close>.\<close>

definition ed_init_auto :: "obstacle list option \<Rightarrow> ed_state" where
  "ed_init_auto map_obs =
     ed_init\<lparr>ed_obstacles := (case map_obs of Some os \<Rightarrow> os | None \<Rightarrow> []), is_done := True\<rparr>"

datatype ed_event = EdQuit | EdDown "int \<times> int" | EdUp "int \<times> int" "real \<times> real" | EdUndo | EdOther

text \<open>
  \<open>Obstacle((mx + new_mx) / 2, (my + new_my) / 2, abs(new_mx - mx), abs(new_my - my),
  isStatic, v)\<close> with the default reflection margins \<open>(20, 20)\<close>.
\<close>

definition drawn_obstacle :: "int \<times> int \<Rightarrow> int \<times> int \<Rightarrow> bool \<Rightarrow> real \<times> real \<Rightarrow> obstacle" where
  "drawn_obstacle p q st v =
     make_obstacle (of_int (fst p + fst q) / 2) (of_int (snd p + snd q) / 2)
       (of_int \<bar>fst q - fst p\<bar>) (of_int \<bar>snd q - snd p\<bar>) st v (20, 20) (20, 20)"

text \<open>
  One event. A press outside the buttons starts a drag and sets \<open>done = False\<close>; the
  release appends the obstacle (adding \<open>None\<close> to a number would raise \<open>TypeError\<close>);
  \<open>Ctrl+Z\<close> pops the last obstacle unless \<open>done\<close>.
\<close>

fun ed_event_step :: "obstacle list option \<Rightarrow> ed_event \<Rightarrow> ed_state \<Rightarrow> ed_state result" where
  "ed_event_step map_obs (EdDown p) s =
     (if collidepoint button1 p then
        Inr (s\<lparr>is_done := True, ed_obstacles := (case map_obs of Some os \<Rightarrow> os | None \<Rightarrow> ed_obstacles s)\<rparr>)
      else if collidepoint button2 p then Inr (s\<lparr>paused := \<not> paused s\<rparr>)
      else if collidepoint button3 p then Inr (s\<lparr>is_static := \<not> is_static s\<rparr>)
      else Inr (s\<lparr>press := Some p, drawing := True, is_done := False\<rparr>))"
| "ed_event_step map_obs (EdUp q v) s =
     (if drawing s then
        (case press s of
           None \<Rightarrow> Inl TypeError
         | Some p \<Rightarrow> Inr (s\<lparr>ed_obstacles := ed_obstacles s @ [drawn_obstacle p q (is_static s) v], drawing := False\<rparr>))
      else Inr s)"
| "ed_event_step map_obs EdUndo s =
     (if ed_obstacles s \<noteq> [] \<and> \<not> is_done s then Inr (s\<lparr>ed_obstacles := butlast (ed_obstacles s)\<rparr>) else Inr s)"
| "ed_event_step map_obs EdQuit s = Inr s"
| "ed_event_step map_obs EdOther s = Inr s"

text \<open>The event loop of a frame; \<open>QUIT\<close> ends the program (the flag).\<close>

fun ed_events :: "obstacle list option \<Rightarrow> ed_event list \<Rightarrow> ed_state \<Rightarrow> (ed_state \<times> bool) result" where
  "ed_events map_obs [] s = Inr (s, False)"
| "ed_events map_obs (EdQuit # es) s = Inr (s, True)"
| "ed_events map_obs (e # es) s = rbind (ed_event_step map_obs e s) (ed_events map_obs es)"

text \<open>
  The gate after the events: while not \<open>done\<close> the obstacles are only drawn; a paused
  frame is skipped (\<open>continue\<close>); otherwise \<open>obstacles_list_before\<close> is a copy, every
  obstacle moves, and the two lists go to the simulation tick.
\<close>

definition ed_frame ::
  "obstacle list option \<Rightarrow> ed_event list \<Rightarrow> ed_state \<Rightarrow> (ed_state \<times> (obstacle list \<times> obstacle list) option) result" where
  "ed_frame map_obs evs s =
     rbind (ed_events map_obs evs s) (\<lambda>(s1, exited).
       if exited \<or> \<not> is_done s1 \<or> paused s1 then Inr (s1, None)
       else (let after = map move (ed_obstacles s1)
             in Inr (s1\<lparr>ed_obstacles := after\<rparr>, Some (ed_obstacles s1, after))))"

text \<open>The frames of the loop, one event list each, until \<open>QUIT\<close>.\<close>

fun ed_run :: "obstacle list option \<Rightarrow> ed_event list list \<Rightarrow> ed_state \<Rightarrow> ed_state result" where
  "ed_run map_obs [] s = Inr s"
| "ed_run map_obs (evs # frames) s =
     rbind (ed_frame map_obs evs s) (\<lambda>(s1, tick).
       if EdQuit \<in> set evs then Inr s1 else ed_run map_obs frames s1)"

text \<open>A press is recorded whenever a drag is in progress.\<close>

definition ed_inv :: "ed_state \<Rightarrow> bool" where
  "ed_inv s \<longleftrightarrow> (drawing s \<longrightarrow> press s \<noteq> None)"


section \<open>Lemmas\<close>

lemma ed_event_step_inv: "ed_inv s \<Longrightarrow> \<exists>s'. ed_event_step m e s = Inr s' \<and> ed_inv s'"
  by (cases e) (auto simp: ed_inv_def split: option.splits)

lemma ed_events_inv: "ed_inv s \<Longrightarrow> \<exists>s' q. ed_events m es s = Inr (s', q) \<and> ed_inv s'"
proof (induction es arbitrary: s)
  case (Cons e es)
  show ?case
  proof (cases "e = EdQuit")
    case False
    obtain s1 where "ed_event_step m e s = Inr s1" "ed_inv s1"
      using ed_event_step_inv [OF Cons.prems] by blast
    moreover have "ed_events m (e # es) s = rbind (ed_event_step m e s) (ed_events m es)"
      using False by (cases e) simp_all
    ultimately show ?thesis using Cons.IH by auto
  qed (use Cons.prems in auto)
qed auto

lemma ed_frame_inv: "ed_inv s \<Longrightarrow> \<exists>s' t. ed_frame m evs s = Inr (s', t) \<and> ed_inv s'"
  using ed_events_inv [of s m evs] by (auto simp: ed_frame_def Let_def ed_inv_def)

lemma ed_run_inv: "ed_inv s \<Longrightarrow> \<exists>s'. ed_run m frames s = Inr s'"
proof (induction frames arbitrary: s)
  case (Cons evs frames)
  then obtain s1 t where "ed_frame m evs s = Inr (s1, t)" "ed_inv s1" using ed_frame_inv by blast
  then show ?case using Cons.IH by auto
qed simp

text \<open>
  Whatever the user clicks, drags and types, the set-up and the obstacle moves of the
  interactive loop never raise: a release always finds a recorded press.
\<close>

lemma ed_run_total:
  "(\<exists>s'. ed_run m frames ed_init = Inr s') \<and> (\<exists>s'. ed_run m frames (ed_init_auto m) = Inr s')"
  by (intro conjI ed_run_inv) (simp_all add: ed_init_auto_def ed_init_def ed_inv_def)

text \<open>The drawn obstacle's box has the press and release points as opposite corners.\<close>

lemma drawn_obstacle_box:
  "return_coordinate (drawn_obstacle p q st v) =
     (of_int (min (fst p) (fst q)), of_int (max (fst p) (fst q)),
      of_int (min (snd p) (snd q)), of_int (max (snd p) (snd q)))"
  by (simp add: return_coordinate_def drawn_obstacle_def make_obstacle_def min_def max_def field_simps)

text \<open>
  The \<open>"Start"\<close> button replaces the obstacles with the scenario's map when there is
  one, discarding the drawn ones; a press on the map outside the buttons sets
  \<open>done = False\<close>, so the frames that follow skip the simulation tick.
\<close>

lemma start_button_reloads:
  "collidepoint button1 p \<Longrightarrow>
   ed_event_step (Some os) (EdDown p) s = Inr (s\<lparr>is_done := True, ed_obstacles := os\<rparr>)"
  by simp

lemma press_on_map_suspends:
  assumes "\<not> collidepoint button1 p" "\<not> collidepoint button2 p" "\<not> collidepoint button3 p"
  shows "ed_frame m [EdDown p] s = Inr (s\<lparr>press := Some p, drawing := True, is_done := False\<rparr>, None)"
  using assms by (simp add: ed_frame_def)

end
