(* ===== verification/PSO.thy ===== *)
theory PSO
  imports Geometry
begin

text \<open>
  The particle-swarm optimiser of \<open>src/PSO.py\<close> (not called by the main loop, whose
  \<open>nextPosition\<close> returns the goal). The random source is explicit, as the specification
  asks (section 9): \<open>rs k\<close> is the \<open>k\<close>-th number in \<open>[0, 1)\<close> drawn by
  \<open>np.random\<close>, and \<open>np.random.uniform(a, b)\<close> is \<open>a + (b - a) * rs k\<close>. Positions
  and velocities are pairs.

  \<open>optimization\<close> can raise in two ways, both independent of the evaluated position:
  \<open>smooth\<close> divides by \<open>goal_x - last_pos_x\<close> (a Python number for the start position
  the caller passes), and \<open>collide\<close> iterates over \<open>obstacles\<close>, whose default is
  \<open>None\<close>. So the first evaluation (in \<open>min\<close>) raises or none does
  (\<open>optimization_error\<close>); \<open>PSO\<close> checks the first and then uses the value
  \<open>opt_cost\<close>.
\<close>

section \<open>Cost function\<close>

type_synonym vec = "real \<times> real"

definition C_coll :: real where
  "C_coll = 1000000"

definition dist :: "real \<Rightarrow> real \<Rightarrow> real \<Rightarrow> real \<Rightarrow> real" where
  "dist x1 y1 x2 y2 = sqrt ((x1 - x2)\<^sup>2 + (y1 - y2)\<^sup>2)"

definition smooth :: "real \<Rightarrow> real \<Rightarrow> real \<Rightarrow> real \<Rightarrow> vec \<Rightarrow> real result" where
  "smooth x1 y1 x2 y2 goal =
     (let (goal_point_X, goal_point_Y) = goal;
          angle1 = (if x1 = x2 then (if y1 < y2 then - pi / 2 else pi / 2)
                    else arctan ((y1 - y2) / (x2 - x1)))
      in if goal_point_X - x1 = 0 then Inl ZeroDivisionError
         else Inr \<bar>angle1 - arctan ((y1 - goal_point_Y) / (goal_point_X - x1))\<bar>)"

text \<open>
  \<open>collide(pos, obs)\<close>: 1 as soon as the position is within half the width of an
  obstacle's centre horizontally \<^emph>\<open>or\<close> within half its height vertically; iterating
  over \<open>None\<close> raises \<open>TypeError\<close>.
\<close>

fun collide_list :: "vec \<Rightarrow> 'a aabb_scheme list \<Rightarrow> real" where
  "collide_list p [] = 0"
| "collide_list p (ob # os) =
     (if \<bar>fst p - cx ob\<bar> \<le> width ob / 2 \<or> \<bar>snd p - cy ob\<bar> \<le> height ob / 2 then 1
      else collide_list p os)"

definition collide :: "vec \<Rightarrow> 'a aabb_scheme list option \<Rightarrow> real result" where
  "collide p obs = (case obs of None \<Rightarrow> Inl TypeError | Some os \<Rightarrow> Inr (collide_list p os))"

text \<open>\<open>w1 * dist(...) + w2 * smooth(...) + C * collide(pos, obs)\<close>, evaluated left to right.\<close>

definition optimization :: "vec \<Rightarrow> vec \<Rightarrow> vec \<Rightarrow> 'a aabb_scheme list option \<Rightarrow> real result" where
  "optimization last_pos p goal obs =
     (let (last_pos_x, last_pos_y) = last_pos; (pos_x, pos_y) = p; (goal_x, goal_y) = goal;
          w1 = 1/5; w2 = 4/5
      in rbind (smooth last_pos_x last_pos_y pos_x pos_y goal) (\<lambda>s.
         rbind (collide p obs) (\<lambda>c. Inr (w1 * dist pos_x pos_y goal_x goal_y + w2 * s + C_coll * c))))"

text \<open>The value of \<open>optimization\<close> when it does not raise.\<close>

definition opt_cost :: "vec \<Rightarrow> vec \<Rightarrow> 'a aabb_scheme list \<Rightarrow> vec \<Rightarrow> real" where
  "opt_cost last_pos goal os p =
     (case optimization last_pos p goal (Some os) of Inr r \<Rightarrow> r | Inl _ \<Rightarrow> 0)"

section \<open>The swarm\<close>

text \<open>A particle: its position, its velocity, its best position so far.\<close>

type_synonym particle = "vec \<times> vec \<times> vec"

definition uniform :: "(nat \<Rightarrow> real) \<Rightarrow> nat \<Rightarrow> real \<Rightarrow> real \<Rightarrow> real" where
  "uniform rs k low high = low + (high - low) * rs k"

text \<open>
  The initialisation loop: per particle two draws for the position, then two for the
  velocity in \<open>[b_low - b_up, b_up - b_low] = [-1, 1]\<close>.
\<close>

fun pso_init :: "(nat \<Rightarrow> real) \<Rightarrow> nat \<Rightarrow> real \<times> real \<times> real \<times> real \<Rightarrow> nat \<Rightarrow> particle list" where
  "pso_init rs k bnds 0 = []"
| "pso_init rs k bnds (Suc n) =
     (let (x_low, x_high, y_low, y_high) = bnds;
          x = (uniform rs k x_low x_high, uniform rs (k + 1) y_low y_high);
          v = (uniform rs (k + 2) (-1) 1, uniform rs (k + 3) (-1) 1)
      in (x, v, x) # pso_init rs (k + 4) bnds n)"

text \<open>
  The first inner loop of an iteration: per particle two draws for \<open>randp\<close> and two for
  \<open>randg\<close>; \<open>g_best\<close> is read, not changed.
\<close>

fun pso_move :: "(nat \<Rightarrow> real) \<Rightarrow> nat \<Rightarrow> real \<Rightarrow> real \<Rightarrow> real \<Rightarrow> vec \<Rightarrow> particle list \<Rightarrow> particle list" where
  "pso_move rs k w rp rg g_best [] = []"
| "pso_move rs k w rp rg g_best ((x, v, pb) # ps) =
     (let v' = (fst v * w + rp * rs k * (fst pb - fst x) + rg * rs (k + 2) * (fst g_best - fst x),
                snd v * w + rp * rs (k + 1) * (snd pb - snd x) + rg * rs (k + 3) * (snd g_best - snd x));
          x' = (fst x + fst v', snd x + snd v')
      in (x', v', pb) # pso_move rs (k + 4) w rp rg g_best ps)"

text \<open>
  The second inner loop: a particle whose new position is strictly better than its best
  takes it as its best, and then as the global best if it is also strictly better than
  that.
\<close>

fun pso_eval :: "(vec \<Rightarrow> real) \<Rightarrow> particle list \<Rightarrow> vec \<Rightarrow> particle list \<times> vec" where
  "pso_eval f [] g_best = ([], g_best)"
| "pso_eval f ((x, v, pb) # ps) g_best =
     (let op = f x in
      if op < f pb then
        (let g' = (if op < f g_best then x else g_best); (ps', g'') = pso_eval f ps g'
         in ((x, v, x) # ps', g''))
      else (let (ps', g'') = pso_eval f ps g_best in ((x, v, pb) # ps', g'')))"

fun pso_iter ::
  "nat \<Rightarrow> (nat \<Rightarrow> real) \<Rightarrow> nat \<Rightarrow> real \<Rightarrow> real \<Rightarrow> real \<Rightarrow> (vec \<Rightarrow> real) \<Rightarrow> particle list \<Rightarrow> vec \<Rightarrow> vec" where
  "pso_iter 0 rs k w rp rg f ps g_best = g_best"
| "pso_iter (Suc m) rs k w rp rg f ps g_best =
     (let ps1 = pso_move rs k w rp rg g_best ps; (ps2, g2) = pso_eval f ps1 g_best
      in pso_iter m rs (k + 4 * length ps) w rp rg f ps2 g2)"

text \<open>
  \<open>PSO(iteration, population, init, goal, low, high, w, rp, rg, obstacles)\<close>:
  \<open>reduction = w / iteration\<close> raises \<open>ZeroDivisionError\<close> for no iteration; \<open>min\<close> of
  an empty swarm raises \<open>ValueError\<close>; otherwise the first evaluation of
  \<open>optimization\<close> in \<open>min\<close> raises or the run goes through with its values.
\<close>

definition PSO ::
  "nat \<Rightarrow> nat \<Rightarrow> vec \<Rightarrow> vec \<Rightarrow> real \<Rightarrow> real \<Rightarrow> real \<Rightarrow> real \<Rightarrow> real \<Rightarrow> 'a aabb_scheme list option \<Rightarrow>
   (nat \<Rightarrow> real) \<Rightarrow> vec result" where
  "PSO iteration population init goal low high w rp rg obstacles rs =
     (if iteration = 0 then Inl ZeroDivisionError
      else
        (let ps = pso_init rs 0 (fst init + low, fst init + high, snd init + low, snd init + high) population
         in case ps of
              [] \<Rightarrow> Inl ValueError
            | (x0, _, _) # ps' \<Rightarrow>
                rbind (optimization init x0 goal obstacles) (\<lambda>_.
                  let f = opt_cost init goal (case obstacles of Some os \<Rightarrow> os | None \<Rightarrow> [])
                  in Inr (pso_iter iteration rs (4 * population) w rp rg f ps
                            (min_by f x0 (map (\<lambda>(x, v, pb). pb) ps'))))))"


text \<open>The invariant of the swarm loop: the global best costs no more than any particle's best.\<close>

definition best_below :: "(vec \<Rightarrow> real) \<Rightarrow> particle list \<Rightarrow> vec \<Rightarrow> bool" where
  "best_below f ps g \<longleftrightarrow> (\<forall>pb \<in> set (map (snd \<circ> snd) ps). f g \<le> f pb)"

section \<open>Lemmas\<close>

lemma min_by_le: "f (min_by f m xs) \<le> f m \<and> (\<forall>x \<in> set xs. f (min_by f m xs) \<le> f x)"
proof (induction xs arbitrary: m)
  case Nil
  then show ?case by simp
next
  case (Cons a xs)
  show ?case
  proof (cases "f a < f m")
    case True
    then show ?thesis using Cons.IH [of a] by auto
  next
    case False
    then show ?thesis using Cons.IH [of m] by auto
  qed
qed

lemma optimization_error:
  "optimization l p g obs = Inl e \<Longrightarrow> optimization l q g obs = Inl e"
  by (cases l; cases p; cases q; cases g; cases obs)
     (auto simp: optimization_def smooth_def collide_def Let_def split: if_splits)

lemma optimization_Inr:
  "fst g \<noteq> fst l \<Longrightarrow> optimization l p g (Some os) = Inr (opt_cost l g os p)"
  by (cases l; cases p; cases g) (simp add: opt_cost_def optimization_def smooth_def collide_def)

lemma pso_move_bests [simp]: "map (snd \<circ> snd) (pso_move rs k w rp rg g ps) = map (snd \<circ> snd) ps"
  by (induction rs k w rp rg g ps rule: pso_move.induct) (simp_all add: Let_def)

lemma length_pso_move [simp]: "length (pso_move rs k w rp rg g ps) = length ps"
  by (induction rs k w rp rg g ps rule: pso_move.induct) (simp_all add: Let_def)

lemma pso_eval_best:
  "best_below f ps g \<Longrightarrow> pso_eval f ps g = (ps', g') \<Longrightarrow> f g' \<le> f g \<and> best_below f ps' g'"
proof (induction f ps g arbitrary: ps' g' rule: pso_eval.induct)
  case (1 f g_best)
  then show ?case by simp
next
  case (2 f x v pb ps g_best)
  show ?case
  proof (cases "f x < f pb")
    case True
    define g1 where "g1 = (if f x < f g_best then x else g_best)"
    obtain ps1 g2 where r: "pso_eval f ps g1 = (ps1, g2)" by (cases "pso_eval f ps g1")
    have "best_below f ps g1" using "2.prems"(1) True by (auto simp: best_below_def g1_def)
    then have "f g2 \<le> f g1 \<and> best_below f ps1 g2" using "2.IH"(1) [OF refl True g1_def] r by simp
    moreover have "ps' = (x, v, x) # ps1" "g' = g2"
      using "2.prems"(2) True r by (simp_all add: g1_def Let_def)
    ultimately show ?thesis by (auto simp: best_below_def g1_def split: if_splits)
  next
    case False
    obtain ps1 g2 where r: "pso_eval f ps g_best = (ps1, g2)" by (cases "pso_eval f ps g_best")
    have "best_below f ps g_best" using "2.prems"(1) by (simp add: best_below_def)
    then have "f g2 \<le> f g_best \<and> best_below f ps1 g2" using "2.IH"(2) [OF refl False] r by simp
    moreover have "ps' = (x, v, pb) # ps1" "g' = g2"
      using "2.prems"(2) False r by (simp_all add: Let_def)
    ultimately show ?thesis using "2.prems"(1) by (auto simp: best_below_def)
  qed
qed


lemma pso_iter_best:
  "best_below f ps g \<Longrightarrow> f (pso_iter m rs k w rp rg f ps g) \<le> f g"
proof (induction m arbitrary: k ps g)
  case 0
  then show ?case by simp
next
  case (Suc m)
  obtain ps2 g2 where r: "pso_eval f (pso_move rs k w rp rg g ps) g = (ps2, g2)"
    by (cases "pso_eval f (pso_move rs k w rp rg g ps) g")
  have "best_below f (pso_move rs k w rp rg g ps) g"
    using Suc.prems by (simp add: best_below_def)
  then have g2: "f g2 \<le> f g \<and> best_below f ps2 g2" using pso_eval_best r by blast
  then have "f (pso_iter m rs (k + 4 * length ps) w rp rg f ps2 g2) \<le> f g2" using Suc.IH by blast
  then show ?case using g2 r by (simp add: Let_def)
qed

lemma pso_init_bests: "(x, v, pb) \<in> set (pso_init rs k bnds n) \<Longrightarrow> pb = x"
  by (induction rs k bnds n rule: pso_init.induct) (auto simp: Let_def split: prod.splits)

lemma length_pso_init [simp]: "length (pso_init rs k bnds n) = n"
  by (induction rs k bnds n rule: pso_init.induct) (auto simp: Let_def split: prod.splits)

lemma PSO_no_iteration: "PSO 0 pop init goal low high w rp rg obs rs = Inl ZeroDivisionError"
  by (simp add: PSO_def)

lemma PSO_no_particle: "0 < it \<Longrightarrow> PSO it 0 init goal low high w rp rg obs rs = Inl ValueError"
  by (simp add: PSO_def)

lemma PSO_vertical_goal:
  "0 < it \<Longrightarrow> 0 < pop \<Longrightarrow> fst goal = fst init \<Longrightarrow>
   PSO it pop init goal low high w rp rg obs rs = Inl ZeroDivisionError"
  by (cases pop; cases init; cases goal)
     (auto simp: PSO_def Let_def optimization_def smooth_def split: prod.splits)

lemma PSO_no_obstacles:
  "0 < it \<Longrightarrow> 0 < pop \<Longrightarrow> fst goal \<noteq> fst init \<Longrightarrow>
   PSO it pop init goal low high w rp rg None rs = Inl TypeError"
  by (cases pop; cases init; cases goal)
     (auto simp: PSO_def Let_def optimization_def smooth_def collide_def split: prod.splits)


lemma PSO_run:
  assumes "0 < it" "fst goal \<noteq> fst init"
    "pso_init rs 0 (fst init + low, fst init + high, snd init + low, snd init + high) pop = (x0, v0, pb0) # ps'"
  shows "PSO it pop init goal low high w rp rg (Some os) rs =
      Inr (pso_iter it rs (4 * pop) w rp rg (opt_cost init goal os) ((x0, v0, pb0) # ps')
             (min_by (opt_cost init goal os) x0 (map (\<lambda>(x, v, pb). pb) ps')))"
  using assms optimization_Inr [OF assms(2), of x0 os] by (simp add: PSO_def Let_def)

lemma min_by_bests:
  assumes "\<And>x v pb. (x, v, pb) \<in> set ps \<Longrightarrow> pb = x"
  shows "f (min_by f m (map (\<lambda>(x, v, pb). pb) ps)) \<le> f m \<and>
         best_below f ps (min_by f m (map (\<lambda>(x, v, pb). pb) ps))"
  using min_by_le [of f m "map (\<lambda>(x, v, pb). pb) ps"] assms
  by (auto simp: best_below_def)


text \<open>
  C28. With at least one iteration and one particle, a goal not vertically above or below
  the start, and a list of obstacles, PSO returns a position, and its cost
  (\<open>optimization\<close>) is no greater than that of any particle's initial position:
  the global best never gets worse.
\<close>

theorem PSO_best:
  assumes "0 < it" "0 < pop" "fst goal \<noteq> fst init"
  shows "\<exists>g. PSO it pop init goal low high w rp rg (Some os) rs = Inr g \<and>
           (\<forall>(x, v, pb) \<in> set (pso_init rs 0 (fst init + low, fst init + high, snd init + low, snd init + high) pop).
              opt_cost init goal os g \<le> opt_cost init goal os x)"
proof -
  define ps where "ps = pso_init rs 0 (fst init + low, fst init + high, snd init + low, snd init + high) pop"
  define f where "f = opt_cost init goal os"
  have "length ps = pop" by (simp add: ps_def)
  then have "ps \<noteq> []" using assms(2) by auto
  then obtain x0 v0 pb0 ps' where ps: "ps = (x0, v0, pb0) # ps'"
    by (metis list.exhaust prod_cases3)
  have bests: "\<And>x v pb. (x, v, pb) \<in> set ps \<Longrightarrow> pb = x"
    unfolding ps_def by (rule pso_init_bests)
  define g0 where "g0 = min_by f x0 (map (\<lambda>(x, v, pb). pb) ps')"
  have "f g0 \<le> f x0 \<and> best_below f ps' g0"
    unfolding g0_def
  proof (rule min_by_bests)
    fix x v pb assume "(x, v, pb) \<in> set ps'"
    then show "pb = x" by (intro bests [of x v]) (simp add: ps)
  qed
  then have inv: "best_below f ps g0" using bests [of x0 v0 pb0] by (simp add: best_below_def ps)
  define g where "g = pso_iter it rs (4 * pop) w rp rg f ps g0"
  have run: "PSO it pop init goal low high w rp rg (Some os) rs = Inr g"
    unfolding g_def g0_def f_def using PSO_run [OF assms(1,3) ps [unfolded ps_def]] ps by simp
  have le: "f g \<le> f g0" unfolding g_def using inv by (rule pso_iter_best)
  have all: "\<forall>(x, v, pb) \<in> set ps. f g \<le> f x"
  proof (intro ballI, clarify)
    fix x v pb assume xin: "(x, v, pb) \<in> set ps"
    have pbx: "pb = x" using bests [of x v pb] xin by simp
    have "pb \<in> set (map (snd \<circ> snd) ps)"
      unfolding set_map by (rule rev_image_eqI [OF xin]) simp
    then have "f g0 \<le> f pb" using inv unfolding best_below_def by blast
    then show "f g \<le> f x" using le pbx by simp
  qed
  show ?thesis unfolding f_def [symmetric] ps_def [symmetric] using run all by blast
qed


lemma collide_outside_box:
  "collide (0, 100) (Some [\<lparr>cx = 0, cy = 0, width = 2, height = 2\<rparr>]) = Inr 1 \<and>
   \<not> in_box \<lparr>cx = 0, cy = 0, width = 2, height = 2\<rparr> ((0, 100) :: vec)"
  by (simp add: collide_def in_box_def)

theorem PSO_best_witness:
  "\<exists>g. PSO 1 1 (0, 0) (10, 0) (-10) 10 (19/20) (3/5) (2/5) (Some ([] :: aabb list)) (\<lambda>k. 1/2) = Inr g"
  using PSO_best [of 1 1 "(10, 0)" "(0, 0)" "-10" 10 "19/20" "3/5" "2/5" "[] :: aabb list" "\<lambda>k. 1/2"]
  by auto

end
