(* ===== verification/CalAction.thy ===== *)
theory CalAction
  imports Prelude
begin

text \<open>
  The timing summariser \<open>src/action/CalAction.py\<close>. Each algorithm's log holds rows
  \<open>Map Action Time\<close>; the script groups them by map and action, takes the sum and the
  mean of the times, reindexes by every map of the log (in order of first appearance,
  \<open>unique()\<close>) times the four actions with 0 for missing groups, and writes the first four
  algorithms' tables to a workbook. Reading the directory and the files and writing the
  workbook are the input and output of \<open>cal_action\<close>: a list of (algorithm, rows).
\<close>

type_synonym log_row = "string \<times> string \<times> real"

definition actions :: "string list" where
  "actions = [''ENV_DECOMPOSITION'', ''GLOBAL_PLANNING'', ''LOCAL_REPLAN'', ''DECISION_MAKING'']"

text \<open>\<open>Series.unique()\<close>: the distinct values in order of first appearance.\<close>

definition pd_unique :: "'a list \<Rightarrow> 'a list" where
  "pd_unique xs = rev (remdups (rev xs))"

definition group_times :: "log_row list \<Rightarrow> string \<Rightarrow> string \<Rightarrow> real list" where
  "group_times rows m a = [t. (m', a', t) \<leftarrow> rows, m' = m \<and> a' = a]"

text \<open>
  \<open>groupby(['Map', 'Action']).aggregate(['sum', 'mean'])\<close> reindexed by
  \<open>unique maps \<times> actions\<close> with \<open>fill_value=0\<close>: one row per map and action, its sum
  and mean, both 0 for a pair without rows.
\<close>

definition summarise :: "log_row list \<Rightarrow> ((string \<times> string) \<times> real \<times> real) list" where
  "summarise rows =
     [((m, a), (let ts = group_times rows m a
                in if ts = [] then (0, 0) else (sum_list ts, sum_list ts / of_nat (length ts)))).
        m \<leftarrow> pd_unique (map fst rows), a \<leftarrow> actions]"

text \<open>
  The script: one table per algorithm, then \<open>result[i]\<close> for \<open>i in range(4)\<close>, which
  raises \<open>IndexError\<close> with fewer than four logs and ignores any beyond the fourth.
\<close>

definition cal_action ::
  "(string \<times> log_row list) list \<Rightarrow> (string \<times> ((string \<times> string) \<times> real \<times> real) list) list result" where
  "cal_action logs =
     (let result = map (\<lambda>(algorithm, rows). summarise rows) logs
      in if length result < 4 then Inl IndexError
         else Inr [(fst (logs ! i), result ! i). i \<leftarrow> [0..<4]])"

section \<open>Lemmas\<close>

lemma sum_list_concat_map: "sum_list (concat xss) = sum_list (map sum_list (xss :: real list list))"
  by (induction xss) simp_all

lemma sum_list_map_add: "(\<Sum>x \<leftarrow> xs. f x + g x) = (\<Sum>x \<leftarrow> xs. f x) + (\<Sum>x \<leftarrow> xs. (g x :: real))"
  by (induction xs) simp_all

lemma summarise_entry_sum:
  "(\<lambda>(k, s, mn). s) ((m, a), let ts = group_times rows m a
                              in if ts = [] then (0, 0) else (sum_list ts, sum_list ts / of_nat (length ts))) =
   sum_list (group_times rows m a)"
  by (simp add: Let_def)

lemma set_pd_unique [simp]: "set (pd_unique xs) = set xs"
  by (simp add: pd_unique_def)

lemma distinct_pd_unique: "distinct (pd_unique xs)"
  by (simp add: pd_unique_def)

lemma sum_group_times_actions:
  "(\<Sum>a \<leftarrow> actions. sum_list (group_times rows m a)) = sum_list [t. (m', a', t) \<leftarrow> rows, m' = m \<and> a' \<in> set actions]"
  by (induction rows) (auto simp: group_times_def actions_def)

lemma sum_group_times_maps:
  "distinct ms \<Longrightarrow> set (map fst (rows :: log_row list)) \<subseteq> set ms \<Longrightarrow>
   (\<Sum>m \<leftarrow> ms. sum_list [t. (m', a', t) \<leftarrow> rows, m' = m \<and> a' \<in> A]) = sum_list [t. (m', a', t) \<leftarrow> rows, a' \<in> A]"
proof (induction rows)
  case Nil
  then show ?case by (simp add: sum_list_map_eq_sum_count sum_list_const_mult)
next
  case (Cons r rows)
  obtain m0 a0 t0 where r: "r = (m0, a0, t0)" by (cases r)
  have m0: "m0 \<in> set ms" using Cons.prems(2) r by simp
  define X where "X = (\<lambda>m. if m = m0 \<and> a0 \<in> A then t0 else (0::real))"
  define Y where "Y = (\<lambda>m. sum_list [t. (m', a', t) \<leftarrow> rows, m' = m \<and> a' \<in> A])"
  have 1: "(\<Sum>m \<leftarrow> ms. sum_list [t. (m', a', t) \<leftarrow> r # rows, m' = m \<and> a' \<in> A]) = (\<Sum>m \<leftarrow> ms. X m + Y m)"
    by (rule arg_cong [where f = sum_list], rule map_cong) (auto simp: r X_def Y_def)
  have 2: "(\<Sum>m \<leftarrow> ms. X m + Y m) = (\<Sum>m \<leftarrow> ms. X m) + (\<Sum>m \<leftarrow> ms. Y m)"
    by (rule sum_list_map_add)
  have 3: "(\<Sum>m \<leftarrow> ms. X m) = (if a0 \<in> A then t0 else 0)"
    using Cons.prems(1) m0 by (simp add: X_def sum_list_distinct_conv_sum_set sum.delta' if_distrib)
  have 4: "(\<Sum>m \<leftarrow> ms. Y m) = sum_list [t. (m', a', t) \<leftarrow> rows, a' \<in> A]"
    using Cons.IH Cons.prems by (simp add: Y_def)
  show ?case using 1 2 3 4 by (simp add: r)
qed

text \<open>
  The sums of a summary account for every logged time of the four actions exactly once:
  a row of another action is dropped by the reindexing.
\<close>

lemma summarise_total:
  "(\<Sum>(k, s, mn) \<leftarrow> summarise rows. s) = sum_list [t. (m, a, t) \<leftarrow> rows, a \<in> set actions]"
proof -
  have "(\<Sum>(k, s, mn) \<leftarrow> summarise rows. s) =
        (\<Sum>m \<leftarrow> pd_unique (map fst rows). \<Sum>a \<leftarrow> actions. sum_list (group_times rows m a))"
    unfolding summarise_def map_concat sum_list_concat_map map_map comp_def summarise_entry_sum ..
  also have "\<dots> = (\<Sum>m \<leftarrow> pd_unique (map fst rows). sum_list [t. (m', a', t) \<leftarrow> rows, m' = m \<and> a' \<in> set actions])"
    by (simp add: sum_group_times_actions)
  also have "\<dots> = sum_list [t. (m, a, t) \<leftarrow> rows, a \<in> set actions]"
    by (rule sum_group_times_maps) (simp_all add: distinct_pd_unique)
  finally show ?thesis .
qed

lemma cal_action_few_logs: "length logs < 4 \<Longrightarrow> cal_action logs = Inl IndexError"
  by (simp add: cal_action_def)

end
