(* ===== verification/Spec2Isabelle.thy ===== *)
theory Spec2Isabelle
  imports Neighbors Solver SolverPath DstarGrid DstarMain DstarUI DecisionMaking Env GridPlan PathManipulation Simulation SimUI PSO CalAction
begin

text \<open>
  \<^bold>\<open>A verification library for the Mobile-Robot path planner.\<close>

  \<^bold>\<open>The program.\<close> A simulated robot plans a path through a 2-D map with static and
  moving rectangular obstacles (\<open>src/QuadTree.py\<close>, function \<open>main\<close>). Each tick the
  obstacles move (\<open>Obstacle.move\<close>), a decision module says whether to replan, and the
  map is decomposed into cells: adaptively by a quadtree (\<open>src/AABB.py\<close>, class
  \<open>Node\<close>; \<open>src/Env.py\<close>, \<open>QuadTreeEnvironment\<close>) or uniformly by a grid
  (\<open>GridEnvironment\<close>). A solver (\<open>src/Solver.py\<close>: \<open>DStarLiteSolver\<close>,
  \<open>AStarSolver\<close>) computes cost-to-goal values \<open>g\<close>/\<open>rhs\<close> over the cells' neighbour
  graph with a priority queue, and the path is read off greedily. \<open>src/DstarLite.py\<close>
  is a second, grid-only D* Lite with its own sorted-list priority queue.

  \<^bold>\<open>Theories and what they model.\<close>
  \<^item> \<open>Prelude\<close>: the Python exceptions as the datatype \<open>error\<close> and results
    \<open>error + 'a\<close>; costs with \<open>np.inf\<close> as the datatype \<open>ext\<close> (an instance of
    \<open>linorder\<close>, \<open>plus\<close>, \<open>zero\<close>); keys \<open>[min(g,rhs)+h, min(g,rhs)]\<close> as pairs
    ordered lexicographically (\<open>calc_key\<close>); list insertion \<open>insert_at\<close>.
  \<^item> \<open>Geometry\<close> (\<open>src/AABB.py\<close> lines 5-92): the record \<open>aabb\<close> (centre
    \<open>cx, cy\<close>, \<open>width\<close>, \<open>height\<close>) with \<open>return_coordinate\<close>, \<open>get_corners\<close>,
    \<open>get_area\<close>, \<open>get_intersect_area\<close>, \<open>get_intersect_percentage\<close> (raising
    \<open>ZeroDivisionError\<close> on a zero area), \<open>get_quadrant\<close>; the record \<open>obstacle\<close>,
    its constructor \<open>make_obstacle\<close> and the kinematics \<open>move\<close>.
  \<^item> \<open>QuadTree\<close> (\<open>src/AABB.py\<close> lines 95-160, 373-382): the record \<open>qnode\<close>
    (a box with \<open>percentage\<close> and \<open>value\<close>), the datatype \<open>qtree\<close> (a leaf, or a node
    with its four children NW, NE, SW, SE), \<open>split\<close>, \<open>set_value\<close>,
    \<open>reset_children\<close>, \<open>add_percentages\<close> (the loop over the obstacles),
    \<open>update_percentage_and_split\<close> and \<open>get_leaves\<close>.
  \<^item> \<open>Neighbors\<close> (\<open>src/AABB.py\<close> lines 163-371): a node is addressed by its
    path of quadrants from the root, innermost first, so \<open>parent\<close> is the tail and
    \<open>region\<close> the head. The four cardinal queries \<open>get_north_neighbor\<close> etc., the
    four diagonal ones, the eight \<open>get_*_children\<close> collectors and
    \<open>update_neighbors\<close>, which concatenates what they return.
  \<^item> \<open>Solver\<close> (\<open>src/Solver.py\<close> \<open>DStarLiteSolver\<close>; \<open>src/AABB.py\<close>
    \<open>calculate_key\<close>, \<open>calculate_rhs\<close>, \<open>distance\<close>, \<open>cost\<close>): the planner
    over a graph interface (record \<open>'v graph\<close>: vertices, neighbour lists, centres), its
    state as the record \<open>'v dstar\<close> (maps for \<open>g\<close>, \<open>rhs\<close>, \<open>h\<close>,
    \<open>key\<close>, \<open>value\<close>, the queue, \<open>current\<close>, \<open>goal\<close>); the
    \<open>sortedcontainers.SortedList\<close> queue as a list of (stored key, vertex) pairs
    (\<open>sl_add\<close>, \<open>sl_discard\<close>); \<open>update_vertex\<close> (\<open>requeue\<close> is its queue
    part), the loop test and body of \<open>compute_path\<close>, and \<open>compute_path\<close> itself.
  \<^item> \<open>DstarGrid\<close> (\<open>src/DstarLite.py\<close> lines 1-252): the grid D* Lite, its
    state the record \<open>dl_state\<close> (grid size, cell values, the \<open>g\<close>, \<open>rhs\<close>,
    \<open>h\<close> arrays as maps, the in-queue flags, current and goal cell, the sorted list
    \<open>pq\<close>); \<open>succ\<close>, \<open>pred\<close>, \<open>cost_dl\<close> (\<open>None\<close> for a
    non-adjacent pair), \<open>calculate_rhs_dl\<close> (\<open>TypeError\<close> when it adds a
    \<open>None\<close> cost), the queue operations \<open>pq_insert\<close> (through
    \<open>binary_search\<close>, a \<open>partial_function (option)\<close>: \<open>None\<close> is a search
    that never returns), \<open>pq_pop\<close>, \<open>pq_remove\<close> (\<open>ValueError\<close>),
    \<open>compare_array\<close>, \<open>update_vertex_dl\<close>, \<open>update_h\<close>, \<open>compute_path_dl\<close>
    and \<open>show_path_dl\<close> (both with fuel).
  \<^item> \<open>Simulation\<close> (\<open>src/QuadTree.py\<close>, \<open>main\<close>): the record \<open>sim\<close> of the
    loop variables, \<open>tick_local\<close> (one tick with a non-zero patience counter: position
    record, collision test \<open>hits\<close>, the \<open>"Replan"\<close> branch with the planner's path
    and spline as inputs, the move, advancing the local goal and the cell path, the
    counter, the goal test) and \<open>run_local\<close>; the rebuilding tick \<open>tick_rebuild\<close>
    (quadtree update, \<open>build_env\<close>, \<open>init_state\<close>, either solver's \<open>show_path\<close>,
    the smoothing routine as a parameter), which establishes the precondition of the
    local ticks, and with \<open>makeSpline\<close> gives a trajectory from the robot to the goal
    whose sample 200 is the first local goal (\<open>tick_rebuild_makeSpline\<close>);
    the robot's delegating methods \<open>robot_show_path\<close>, \<open>updatePath\<close> and
    \<open>robot_decisionMaking\<close> of \<open>src/robot.py\<close>, and the replanning of a local
    tick \<open>local_replan\<close> (\<open>updatePath\<close>, then \<open>makeSpline\<close>), with which the
    local tick never raises (\<open>local_replan_tick\<close>);
    \<open>get_modules\<close>; the statistics
    \<open>path_length\<close>, \<open>angle_qt\<close>, \<open>smooth_sum\<close>, \<open>mean_turn\<close>.
  \<^item> \<open>CalAction\<close> (\<open>src/action/CalAction.py\<close>): the timing summary \<open>summarise\<close>
    (group by map and action, sum and mean, reindexed with 0 for missing groups) and
    \<open>cal_action\<close>, which keeps the first four tables and raises \<open>IndexError\<close> with
    fewer; the sums of a summary add up to the logged time of the four actions
    (\<open>summarise_total\<close>).
  \<^item> \<open>SimUI\<close> (\<open>src/QuadTree.py\<close> lines 52-163): the interactive set-up of the
    main loop as the record \<open>ed_state\<close>, the buttons \<open>button1\<close>-\<open>button3\<close>, the
    event handlers \<open>ed_event_step\<close> (start, pause, static, drag, release with the
    explicit random velocity, \<open>Ctrl+Z\<close>), the event loop \<open>ed_events\<close>, the gate of a
    frame \<open>ed_frame\<close> (obstacles move only when done and not paused) and the frames
    \<open>ed_run\<close>; the set-up never raises (\<open>ed_run_total\<close>), a drawn obstacle spans its
    press and release points (\<open>drawn_obstacle_box\<close>).
  \<^item> \<open>GridPlan\<close> (\<open>src/Env.py\<close> \<open>GridEnvironment\<close>): the grid as the solvers'
    graph (\<open>grid_cells\<close>, \<open>cell_centre\<close>, \<open>grid_graph\<close>) and the start state
    \<open>grid_init_state\<close>; \<open>Simulation\<close> uses them in the grid rebuilding tick
    \<open>tick_rebuild_grid\<close>.
  \<^item> \<open>PathManipulation\<close> (\<open>src/PathManipulation.py\<close>): \<open>makeSpline\<close> as its
    \<open>try\<close> block (\<open>spline_try\<close>: the end-point assignments \<open>set_ends\<close>, the sample
    points \<open>linspace\<close>, \<open>interp1d_cubic\<close> with its four-knot minimum) and the
    straight-line fallback of the bare \<open>except\<close>; scipy's cubic interpolant is the
    parameter \<open>cubic\<close> with the contract \<open>interpolates\<close>, met by the piecewise-linear
    \<open>lin_interp\<close> used in the examples.
  \<^item> \<open>SolverPath\<close> (\<open>src/Solver.py\<close>): \<open>show_path\<close> of both solvers as the
    fuelled \<open>greedy_walk\<close> (\<open>min\<close> by \<open>g\<close> or \<open>rhs\<close>, \<open>ValueError\<close> on an
    empty neighbour list); \<open>DStarLiteSolver.replan_path\<close> as \<open>pct_loop\<close> (the inner
    loop with its \<open>break\<close>), \<open>mark_neighbor\<close>/\<open>mark_loop\<close>, \<open>apply_changes\<close>
    and \<open>ds_replan_path\<close>; \<open>AStarSolver.compute_path\<close> as \<open>astar_relax\<close> and
    \<open>astar_loop\<close> with the visited set of positions, its \<open>show_path\<close> and
    \<open>replan_path\<close>. The graph interface carries each vertex's box for the
    intersection percentages.
  \<^item> \<open>DstarMain\<close> (\<open>src/DstarLite.py\<close> lines 52-70, 322-359): the set-up
    \<open>setup_dl\<close> (\<open>Graph(size)\<close>, start and goal events, goal insertion) and the
    running-mode step \<open>running_step\<close>: \<open>sense_changes\<close> against the real map,
    \<open>apply_dl_changes\<close> (update, repair, \<open>compute_path\<close> per change), path
    extraction and the move to \<open>path[1]\<close>.
  \<^item> \<open>DstarUI\<close> (\<open>src/DstarLite.py\<close> lines 6-14, 254-359): the event loop of
    that program as the record \<open>ui_state\<close> (mode, real grid, the robot's solver state,
    whether start and goal are set, \<open>running\<close>), the button layout and
    \<open>collidepoint\<close>, the cell of a click (\<open>cell_of\<close>, \<open>grid_index\<close>),
    \<open>click_start_goal\<close>, \<open>click_cell\<close>, \<open>mouse_down\<close>, the event loop of a
    frame \<open>handle_events\<close>, the frame \<open>ui_frame\<close> (events, then a running step in
    mode \<open>"running"\<close>), and the reachable states \<open>ui_reach\<close>.
  \<^item> \<open>Robot\<close> (\<open>src/robot.py\<close>): the record \<open>robot\<close> (position, sensor radius),
    \<open>reach\<close>, \<open>enter\<close>, \<open>detect\<close> and \<open>nextPosition\<close>.
  \<^item> \<open>DecisionMaking\<close> (\<open>src/DecisionMaking.py\<close>): \<open>angle\<close>, the
    \<open>OnlyReplanDecision\<close> loop, and \<open>FuzzyDecisionMaking\<close>: the membership degrees
    of \<open>convertphi\<close>, \<open>convertdeltad\<close>, \<open>convertdeltaphi\<close> branch by branch,
    the arg-max, \<open>truthtable\<close>, and the obstacle loop with its early \<open>"Replan"\<close>
    return (\<open>fuzzy_loop\<close>); decisions and labels are datatypes.
  \<^item> \<open>Env\<close> (\<open>src/Env.py\<close>): \<open>QuadTreeEnvironment\<close> as the descent
    \<open>locate_path\<close>/\<open>add_start\<close>, the leaf addresses and the graph \<open>env_graph\<close>
    handed to the solver, and the start state \<open>init_state\<close> of the main loop;
    \<open>GridEnvironment\<close> as the record \<open>grid_env\<close>, \<open>grid_update\<close> with Python's
    truncating \<open>int\<close> and list indexing (\<open>py_int\<close>, \<open>py_index\<close>), the
    neighbour lists \<open>grid_neighbors\<close> and \<open>build_grid_env\<close>.
  \<^item> \<open>PSO\<close> (\<open>src/PSO.py\<close>, not called by the main loop): the cost function
    (\<open>dist\<close>, \<open>smooth\<close>, \<open>collide\<close>, \<open>optimization\<close>) with its
    exceptions, and \<open>PSO\<close> as the initialisation (\<open>pso_init\<close>), the first
    \<open>min\<close>, and per iteration the move loop (\<open>pso_move\<close>) and the evaluation loop
    (\<open>pso_eval\<close>). The random source is an explicit stream \<open>rs\<close>, consumed four
    numbers per particle in the order of the \<open>np.random\<close> calls.

  \<^bold>\<open>State and effects.\<close> Python mutates nodes in place; the model returns the updated
  tree. Parent pointers and region tags are the position of a node in the tree. Floats are
  reals (rounding is not modelled); \<open>np.inf\<close> is \<open>Inf\<close> of \<open>ext\<close>. Every exception
  the modelled code can raise is an \<open>Inl\<close> value: division by a zero area, and the
  recursion limit of \<open>update_percentage_and_split\<close>, whose recursion into newly created
  children is not structural. The model gives that function a depth bound \<open>d\<close>
  (Python's recursion limit); \<open>update_percentage_and_split_terminates\<close> shows that a
  depth one more than \<open>log2 (width / threshold_size)\<close> is enough, i.e. 6 for the 512-pixel
  map and the default minimum size 16, far below Python's limit of 1000.

  \<^bold>\<open>What is proved.\<close>
  \<^item> Decomposition (\<open>QuadTree\<close>): the update preserves well-formedness and the
    occupancy invariant and leaves every leaf free or blocked (C1); it returns with
    enough depth (C2); a split partitions its node (C3); leaf areas sum to the root's
    (C4); a single small obstacle leaves the root unsplit.
  \<^item> Smoothing (\<open>PathManipulation\<close>): the trajectory starts at the robot and ends at
    the goal, with 1000 samples per cell or 1000 on the fallback (C5); fewer than four
    cells give the straight line; repeated centres do not trigger the fallback.
  \<^item> Geometry: the intersection percentage is a fraction in [0, 1] (C6); obstacle
    motion stays in its reflection range (C7); leaving the range on both axes in one
    tick, past either bound of each, clamps both coordinates but negates only the y
    velocity (C8).
  \<^item> Neighbour search (\<open>Neighbors\<close>): the north neighbour shares the query's top
    edge and covers it (C9), and is missing only on the top border; for every node in
    region SE the south-west query returns the parent's south neighbour itself when it
    is split and \<open>None\<close> when it is a leaf, never what the mirrored rule gives (C11),
    so on a tree with split NW and SW quadrants \<open>update_neighbors\<close> lists a cell
    twice and misses the corner cell.
  \<^item> Planner (\<open>Solver\<close>): the queue invariant (sorted stored keys, no duplicates,
    stored key = key attribute = key of the current \<open>g\<close>/\<open>rhs\<close>/\<open>h\<close>,
    queued exactly when inconsistent) is kept by \<open>update_vertex\<close> and the loop body;
    a normal return of \<open>compute_path\<close> leaves the robot's cell consistent with a key
    no greater than any queued one (C12); \<open>pop(0)\<close> never meets an empty queue under
    the invariant; a second call returns at once; outside the invariant an
    empty queue raises \<open>IndexError\<close> (C13); \<open>cost\<close> makes entering a blocked cell
    cheaper than entering a free one (C14). \<open>compute_path\<close> has fuel: \<open>None\<close> is a
    loop that has not finished; the example of two cells (\<open>ex_graph\<close>) finishes with
    fuel 3.
  \<^item> Grid D* Lite (\<open>DstarGrid\<close>): the sorted list refines a multiset priority queue
    (insert adds, pop removes a least element, sortedness kept) (C15); \<open>binary_search\<close>
    returns on every sorted input (C16); \<open>compare_array\<close> is the lexicographic order of
    the key lists (C17) but raises \<open>IndexError\<close> on a proper prefix (C18);
    with an empty queue \<open>compute_path\<close> raises \<open>IndexError\<close>; \<open>succ\<close> is the in-grid
    8-neighbourhood, \<open>cost\<close> between adjacent cells is defined, positive and symmetric,
    \<open>calculate_rhs\<close> on a grid cell never raises and sets its \<open>rhs\<close> to the
    minimum of \<open>g + cost\<close> over its in-grid neighbours (C22); \<open>show_path\<close> follows
    a walk of adjacent cells (C23) and can run without end between two cells (C24); a
    running-mode step of the main loop makes the robot's map agree with the real one
    around the robot and moves it to an adjacent cell (C21). In every state the event loop
    reaches (\<open>DstarUI\<close>, rule induction on \<open>ui_reach\<close>), a cell blocked in the robot's
    map is blocked in the real one (C20); a known obstacle drawn after planning is never
    repaired, a grid click outside the set-up modes ends the program, and a new goal
    leaves the old one with \<open>rhs = 0\<close>.
  \<^item> Robot: \<open>detect\<close> keeps exactly the obstacles meeting the sensor disc (C25)
    (\<open>enter\<close> is the box test for square nodes only).
  \<^item> Decisions: \<open>angle\<close> lies in \<open>[0, pi]\<close> and is at most a right angle exactly
    when the dot product is not negative; \<open>convertdeltad\<close> is a
    crisp, non-monotone classification (and \<open>convertphi\<close> classifies 35 degrees
    as safe); the single-rule decision replans exactly when some obstacle's centre is
    strictly inside the sensor disc and not behind the robot (C29); the fuzzy
    loop raises \<open>IndexError\<close> exactly when the second list is too short.
  \<^item> Simulation (\<open>Simulation\<close>): while the decisions are \<open>"No"\<close>, the local ticks
    reach the goal within one tick more than the spline samples ahead (C30); the collision
    test is the closed box test; a run of fewer than three positions makes the statistics
    raise \<open>ZeroDivisionError\<close>.
  \<^item> Environments: locating a leaf's centre gives that leaf (C31); locating a point of
    the map ends at a leaf containing it (C32); the start state satisfies the solver's
    queue invariant (C33) (and the graph's vertices are the tree's leaves); the grid's
    neighbour lists equal \<open>succ\<close> of \<open>src/DstarLite.py\<close> (C35); the grid update
    marks exactly the overlapped cells (C36).

  \<^item> Path extraction and A* (\<open>SolverPath\<close>): the greedy walk of \<open>show_path\<close>
    reaches the goal within one step per vertex on a descending landscape (C19); the A*
    search returns within one pop per vertex (C26), and so it does on every well-formed
    grid environment (C10); the marking loop of
    \<open>replan_path\<close> blocks exactly the neighbours covered at the threshold and lists each
    changed one once (C34); when no neighbour changes, \<open>replan_path\<close> is
    \<open>show_path\<close> (C27).
  \<^item> Swarm optimiser (\<open>PSO\<close>): a run with a goal off the start's vertical and a
    list of obstacles returns a position whose cost is at most that of every initial
    position (C28), by the invariant \<open>best_below\<close> of both inner loops; with no
    iteration, no particle, the default \<open>obstacles=None\<close>, or a goal vertically
    above or below the start it raises instead; \<open>collide\<close> can return 1 for a
    point outside every obstacle.

  \<^bold>\<open>Fuel.\<close> Every \<open>while\<close> loop without a termination argument in the source carries
  fuel, and \<open>None\<close> is a loop that has not finished. The bounds proved enough: the
  quadtree update's depth (above); \<open>Suc (length (vertices G))\<close> for the A* search, by
  the number of unvisited cell centres, and for the greedy walk, by the number of cells
  below the current value.

  \<^bold>\<open>Plan.\<close> The D* Lite \<open>show_path\<close> composed with \<open>compute_path\<close> on the
  quadtree graph, with a bound on the fuel.

  \<^bold>\<open>Not modelled.\<close> Rendering (\<open>draw\<close> methods, \<open>drawSpline\<close>, fonts, the
  preview of a drag), timing and file logging of \<open>src/QuadTree.py\<close> and the constants
  and drawing code of \<open>src/DstarLite.py\<close> that only serve the display;
  the body of scipy's not-a-knot cubic spline (a library routine; the model states the
  contract the code relies on) and the drawing functions of \<open>src/PathManipulation.py\<close>; in \<open>src/PSO.py\<close>, the numpy semantics of
  a start position given as numpy floats (the division in \<open>smooth\<close> then gives
  \<open>inf\<close>/\<open>nan\<close> rather than raising; the model takes the Python numbers the caller
  passes) and the final \<open>print\<close>; the file input and output of
  \<open>src/action/CalAction.py\<close> (\<open>os.listdir\<close>, \<open>read_csv\<close>, the Excel writer).
\<close>

end
